(* ===== verification/Prelude.thy ===== *)
theory Prelude
  imports Main "HOL-Library.Char_ord" "HOL-Library.List_Lexorder" "HOL-Library.Word"
    "HOL-Library.Sublist" "HOL-Library.Multiset" "HOL-Library.Code_Target_Nat"
begin

text \<open>
  Shared vocabulary of the development.

  \<^item> Go strings and byte slices are \<open>string\<close> (a list of 8-bit characters): Go's
    \<open>len\<close> is \<open>length\<close>, and Go's \<open><\<close> on strings (bytewise, a proper prefix is
    smaller) is the order of \<open>List_Lexorder\<close> over \<open>Char_ord\<close>.
  \<^item> Errors are values: \<open>error\<close> lists every error the operator's code can return or
    meet, and a fallible computation has type \<open>error + 'a\<close>. A Go run-time panic is
    the error \<open>Panic\<close>.
  \<^item> A computation with effects is an \<open>act\<close>: it maps a state to a result and the
    state after the call. \<open>bindA\<close> is Go's
    \<open>if err := f(); err != nil { return err }\<close> sequencing.
  \<^item> \<open>stable_sort\<close> is \<open>sort.SliceStable\<close>; the locale \<open>less_order\<close> holds the laws of
    a comparison function and the lemmas every sorted list of the operator rests on.
\<close>

section \<open>Types\<close>

type_synonym bytes = string
type_synonym int32 = "32 word"

text \<open>\<open>types.NamespacedName\<close>: namespace first, then name.\<close>

type_synonym nsname = "string \<times> string"

text \<open>
  The errors. \<open>NotFound\<close>, \<open>Conflict\<close>, \<open>AlreadyExists\<close> and \<open>ApiOther\<close> come from the
  API server through the client; \<open>ParseError\<close> and \<open>MarshalError\<close> are wrapped by
  \<open>renderConfig\<close>; \<open>RandError\<close> and \<open>CryptoError\<close> come from the secret generators;
  \<open>OwnerError\<close> from \<open>SetControllerReference\<close>; \<open>Panic\<close> is a Go run-time panic.
\<close>

datatype error =
    NotFound | Conflict | AlreadyExists | ApiOther string
  | ParseError string | MarshalError string
  | RandError | CryptoError string | OwnerError string | Panic string

type_synonym 'a result = "error + 'a"

type_synonym ('s, 'a) act = "'s \<Rightarrow> 'a result \<times> 's"

section \<open>Results and sequencing\<close>

definition bindR :: "'a result \<Rightarrow> ('a \<Rightarrow> 'b result) \<Rightarrow> 'b result" where
  "bindR r f = (case r of Inl e \<Rightarrow> Inl e | Inr x \<Rightarrow> f x)"

text \<open>
  A Go loop that appends to a slice: each iteration appends one element (\<open>Some\<close>), or
  continues without one (\<open>None\<close>), or leaves the function with an error.
\<close>

fun collectR :: "('a \<Rightarrow> 'b option result) \<Rightarrow> 'a list \<Rightarrow> 'b list result" where
  "collectR f [] = Inr []"
| "collectR f (x # xs) =
     bindR (f x) (\<lambda>y. bindR (collectR f xs) (\<lambda>ys. Inr (case y of None \<Rightarrow> ys | Some z \<Rightarrow> z # ys)))"

definition returnA :: "'a \<Rightarrow> ('s, 'a) act" where
  "returnA x s = (Inr x, s)"

definition failA :: "error \<Rightarrow> ('s, 'a) act" where
  "failA e s = (Inl e, s)"

definition liftR :: "'a result \<Rightarrow> ('s, 'a) act" where
  "liftR r s = (r, s)"

definition bindA :: "('s, 'a) act \<Rightarrow> ('a \<Rightarrow> ('s, 'b) act) \<Rightarrow> ('s, 'b) act" where
  "bindA m f s = (case m s of (Inl e, s') \<Rightarrow> (Inl e, s') | (Inr x, s') \<Rightarrow> f x s')"

section \<open>Sorting by a comparison function\<close>

text \<open>
  \<open>sort.SliceStable\<close>: the result is the unique stable arrangement, so an insertion
  that stops in front of the first element it is not greater than computes it.
\<close>

fun insert_stable :: "('a \<Rightarrow> 'a \<Rightarrow> bool) \<Rightarrow> 'a \<Rightarrow> 'a list \<Rightarrow> 'a list" where
  "insert_stable lt x [] = [x]"
| "insert_stable lt x (y # ys) =
     (if lt y x then y # insert_stable lt x ys else x # y # ys)"

fun stable_sort :: "('a \<Rightarrow> 'a \<Rightarrow> bool) \<Rightarrow> 'a list \<Rightarrow> 'a list" where
  "stable_sort lt [] = []"
| "stable_sort lt (x # xs) = insert_stable lt x (stable_sort lt xs)"

text \<open>A list is in order when no later element is less than an earlier one.\<close>

definition ordered_by :: "('a \<Rightarrow> 'a \<Rightarrow> bool) \<Rightarrow> 'a list \<Rightarrow> bool" where
  "ordered_by lt xs \<longleftrightarrow> sorted_wrt (\<lambda>x y. \<not> lt y x) xs"

named_theorems act_simps \<open>unfolding of the result and action combinators\<close>

lemma bindR_simps [simp]:
  "bindR (Inl e) f = Inl e"
  "bindR (Inr x) f = f x"
  by (simp_all add: bindR_def)

lemma bindR_eq_Inr [simp]: "bindR r f = Inr y \<longleftrightarrow> (\<exists>x. r = Inr x \<and> f x = Inr y)"
  by (cases r) simp_all

lemma set_map_filter_iff: "y \<in> set (List.map_filter f xs) \<longleftrightarrow> (\<exists>x \<in> set xs. f x = Some y)"
  by (induction xs) (auto simp: List.map_filter_simps split: option.splits)

lemma collectR_total:
  "(\<And>x. x \<in> set xs \<Longrightarrow> f x = Inr (g x)) \<Longrightarrow> collectR f xs = Inr (List.map_filter g xs)"
  by (induction xs) (auto simp: List.map_filter_simps split: option.splits)

lemma act_run [simp, act_simps]:
  "returnA x s = (Inr x, s)" "failA e s = (Inl e, s)" "liftR r s = (r, s)"
  by (simp_all add: returnA_def failA_def liftR_def)

lemma bindA_run [act_simps]:
  "bindA m f s = (case fst (m s) of Inl e \<Rightarrow> (Inl e, snd (m s)) | Inr x \<Rightarrow> f x (snd (m s)))"
  by (simp add: bindA_def case_prod_unfold)

lemma bindA_step:
  "m s = (Inr x, s') \<Longrightarrow> bindA m f s = f x s'"
  "m s = (Inl e, s') \<Longrightarrow> bindA m f s = (Inl e, s')"
  by (simp_all add: bindA_def)

lemma bindA_Inr:
  assumes "bindA m f s = (Inr y, s'')"
  obtains x s' where "m s = (Inr x, s')" and "f x s' = (Inr y, s'')"
  using assms by (auto simp: bindA_def split: prod.splits sum.splits)

lemma bindA_cases:
  assumes "bindA m f s = (r, s'')"
  obtains (failed) e where "m s = (Inl e, s'')" and "r = Inl e"
    | (passed) x s' where "m s = (Inr x, s')" and "f x s' = (r, s'')"
  using assms by (auto simp: bindA_def split: prod.splits sum.splits)

lemma mset_insert_stable [simp]: "mset (insert_stable lt x ys) = add_mset x (mset ys)"
  by (induction ys) auto

lemma mset_stable_sort [simp]: "mset (stable_sort lt xs) = mset xs"
  by (induction xs) auto

lemma set_stable_sort [simp]: "set (stable_sort lt xs) = set xs"
  by (metis mset_stable_sort set_mset_mset)

lemma set_insert_stable [simp]: "set (insert_stable lt x ys) = insert x (set ys)"
  by (metis mset_insert_stable set_mset_add_mset_insert set_mset_mset)

lemma length_stable_sort [simp]: "length (stable_sort lt xs) = length xs"
  by (metis mset_stable_sort size_mset)

lemma stable_sort_eq_Nil [simp]: "stable_sort lt xs = [] \<longleftrightarrow> xs = []"
  by (metis length_0_conv length_stable_sort)

text \<open>
  The laws of a Go comparison function \<open>less(i, j)\<close>: what package \<open>sort\<close> calls a strict
  weak ordering.
\<close>

locale less_order =
  fixes lt :: "'a \<Rightarrow> 'a \<Rightarrow> bool"
  assumes asym: "lt x y \<Longrightarrow> \<not> lt y x"
    and negtrans: "lt x z \<Longrightarrow> lt x y \<or> lt y z"
begin

lemma not_lt_trans: "\<not> lt y x \<Longrightarrow> \<not> lt z y \<Longrightarrow> \<not> lt z x"
  using negtrans by blast

lemma ordered_insert_stable:
  "ordered_by lt ys \<Longrightarrow> ordered_by lt (insert_stable lt x ys)"
proof (induction ys)
  case Nil
  then show ?case by (simp add: ordered_by_def)
next
  case (Cons y ys)
  then have tail: "ordered_by lt ys" and y: "\<And>z. z \<in> set ys \<Longrightarrow> \<not> lt z y"
    by (simp_all add: ordered_by_def)
  show ?case
  proof (cases "lt y x")
    case True
    with Cons.IH[OF tail] y asym[OF True] show ?thesis by (auto simp: ordered_by_def)
  next
    case False
    then have "\<not> lt z x" if "z \<in> set ys" for z
      using y[OF that] by (rule not_lt_trans)
    with False tail y show ?thesis by (simp add: ordered_by_def)
  qed
qed

lemma ordered_stable_sort: "ordered_by lt (stable_sort lt xs)"
  by (induction xs) (auto simp: ordered_insert_stable, simp add: ordered_by_def)

text \<open>Stability: elements that compare equal to \<open>x\<close> keep their order.\<close>

lemma insert_stable_equiv:
  assumes "\<And>y. P y \<Longrightarrow> P x \<Longrightarrow> \<not> lt y x"
  shows "filter P (insert_stable lt x ys) = filter P (x # ys)"
  using assms by (induction ys) auto

lemma stable_sort_stable:
  "filter (\<lambda>y. \<not> lt x y \<and> \<not> lt y x) (stable_sort lt xs) =
   filter (\<lambda>y. \<not> lt x y \<and> \<not> lt y x) xs"
proof (induction xs)
  case (Cons a xs)
  have "filter (\<lambda>y. \<not> lt x y \<and> \<not> lt y x) (insert_stable lt a (stable_sort lt xs)) =
        filter (\<lambda>y. \<not> lt x y \<and> \<not> lt y x) (a # stable_sort lt xs)"
    by (rule insert_stable_equiv) (use negtrans in blast)
  with Cons.IH show ?case by simp
qed simp

text \<open>
  When no two distinct elements compare equal, there is only one ordered arrangement:
  the order of the input does not matter.
\<close>

lemma ordered_unique:
  assumes "ordered_by lt xs" and "ordered_by lt ys" and "mset xs = mset ys"
    and total: "\<And>x y. x \<in> set xs \<Longrightarrow> y \<in> set xs \<Longrightarrow> x \<noteq> y \<Longrightarrow> lt x y \<or> lt y x"
  shows "xs = ys"
  using assms
proof (induction xs arbitrary: ys)
  case Nil
  then show ?case by simp
next
  case (Cons x xs)
  from Cons.prems(3) obtain y ys' where ys: "ys = y # ys'" by (cases ys) auto
  from Cons.prems(3) have sets: "insert x (set xs) = set ys"
    by (metis list.simps(15) set_mset_mset)
  have "x = y"
  proof (rule ccontr)
    assume ne: "x \<noteq> y"
    have "y \<in> set xs" and "x \<in> set ys'" using sets ne ys by auto
    then have "\<not> lt y x" and "\<not> lt x y"
      using Cons.prems(1,2) ys by (auto simp: ordered_by_def)
    with Cons.prems(4)[of x y] \<open>y \<in> set xs\<close> ne show False by auto
  qed
  moreover have "xs = ys'"
    using Cons.prems \<open>x = y\<close> ys by (intro Cons.IH) (auto simp: ordered_by_def)
  ultimately show ?case using ys by simp
qed

text \<open>The first element of an ordered list that satisfies a test is a least one.\<close>

lemma find_least:
  "ordered_by lt xs \<Longrightarrow> find P xs = Some r \<Longrightarrow> r' \<in> set xs \<Longrightarrow> P r' \<Longrightarrow> \<not> lt r' r"
  using asym by (induction xs) (auto simp: ordered_by_def split: if_splits)

lemma stable_sort_mset_cong:
  assumes "mset xs = mset ys"
    and "\<And>x y. x \<in> set xs \<Longrightarrow> y \<in> set xs \<Longrightarrow> x \<noteq> y \<Longrightarrow> lt x y \<or> lt y x"
  shows "stable_sort lt xs = stable_sort lt ys"
  using assms by (intro ordered_unique) (auto simp: ordered_stable_sort)

end

section \<open>Reachability\<close>

lemma rtranclp_weaken: "R\<^sup>*\<^sup>* x y \<Longrightarrow> (\<And>a b. R a b \<Longrightarrow> S a b) \<Longrightarrow> S\<^sup>*\<^sup>* x y"
  by (induction rule: rtranclp_induct) (auto intro: rtranclp.rtrancl_into_rtrancl)

text \<open>What every step keeps, every run keeps.\<close>

lemma rtranclp_keeps: "R\<^sup>*\<^sup>* x y \<Longrightarrow> P x \<Longrightarrow> (\<And>a b. R a b \<Longrightarrow> P a \<Longrightarrow> P b) \<Longrightarrow> P y"
  by (induction rule: rtranclp_induct) auto

section \<open>Lists and strings\<close>

lemma split_at_first:
  assumes "c \<notin> set xs" and "c \<notin> set xs'" and "xs @ c # ys = xs' @ c # ys'"
  shows "xs = xs' \<and> ys = ys'"
  using assms
proof (induction xs arbitrary: xs')
  case Nil
  then show ?case by (cases xs') auto
next
  case (Cons x xs)
  then show ?case by (cases xs') auto
qed

end
