(* ===== verification/GoMap.thy ===== *)
theory GoMap
  imports Prelude
begin

text \<open>
  Go maps with string keys. A map value is an association list that is kept strictly
  sorted by key, so two maps with the same entries are the same HOL value and every
  operation computes. Go's map iteration order is not part of such a value; where the
  operator iterates over a map (Ingress annotations), the model takes the iteration
  order as an explicit list instead.

  The locale \<open>string_map\<close> is the interface the rest of the development uses: lookup after
  store, lookup after delete, and the invariant both keep; it is interpreted on the three
  operations below.
\<close>

type_synonym 'v smap = "(string \<times> 'v) list"

definition sm_lookup :: "'v smap \<Rightarrow> string \<Rightarrow> 'v option" where
  "sm_lookup m k = map_of m k"

fun sm_update :: "string \<Rightarrow> 'v \<Rightarrow> 'v smap \<Rightarrow> 'v smap" where
  "sm_update k v [] = [(k, v)]"
| "sm_update k v ((k', v') # m) =
     (if k = k' then (k, v) # m
      else if k < k' then (k, v) # (k', v') # m
      else (k', v') # sm_update k v m)"

fun sm_delete :: "string \<Rightarrow> 'v smap \<Rightarrow> 'v smap" where
  "sm_delete k [] = []"
| "sm_delete k ((k', v') # m) = (if k = k' then m else (k', v') # sm_delete k m)"

text \<open>A map built entry by entry: a repeated key keeps the last value.\<close>

definition sm_of_list :: "(string \<times> 'v) list \<Rightarrow> 'v smap" where
  "sm_of_list kvs = fold (\<lambda>(k, v). sm_update k v) kvs []"

definition sm_wf :: "'v smap \<Rightarrow> bool" where
  "sm_wf m \<longleftrightarrow> sorted_wrt (<) (map fst m)"

section \<open>The interface\<close>

locale string_map =
  fixes lookup :: "'m \<Rightarrow> string \<Rightarrow> 'v option"
    and update :: "string \<Rightarrow> 'v \<Rightarrow> 'm \<Rightarrow> 'm"
    and delete :: "string \<Rightarrow> 'm \<Rightarrow> 'm"
    and wf :: "'m \<Rightarrow> bool"
  assumes lookup_update: "lookup (update k v m) k' = (if k' = k then Some v else lookup m k')"
    and lookup_delete: "wf m \<Longrightarrow> lookup (delete k m) k' = (if k' = k then None else lookup m k')"
    and wf_update: "wf m \<Longrightarrow> wf (update k v m)"
    and wf_delete: "wf m \<Longrightarrow> wf (delete k m)"
    and ext: "wf m \<Longrightarrow> wf m' \<Longrightarrow> (\<And>k. lookup m k = lookup m' k) \<Longrightarrow> m = m'"
begin

lemma update_update: "wf m \<Longrightarrow> update k v (update k v' m) = update k v m"
  by (rule ext) (simp_all add: lookup_update wf_update)

lemma update_commute: "wf m \<Longrightarrow> k \<noteq> k' \<Longrightarrow> update k v (update k' v' m) = update k' v' (update k v m)"
  by (rule ext) (simp_all add: lookup_update wf_update)

lemma update_idem: "wf m \<Longrightarrow> lookup m k = Some v \<Longrightarrow> update k v m = m"
  by (rule ext) (auto simp: lookup_update wf_update)

end

section \<open>The sorted association list implements it\<close>

lemma sm_lookup_Nil [simp]: "sm_lookup [] k = None"
  by (simp add: sm_lookup_def)

lemma sm_lookup_Cons [simp]:
  "sm_lookup ((k', v) # m) k = (if k = k' then Some v else sm_lookup m k)"
  by (simp add: sm_lookup_def)

lemma sm_wf_Nil [simp]: "sm_wf []"
  by (simp add: sm_wf_def)

lemma sm_wf_Cons [simp]: "sm_wf ((k, v) # m) \<longleftrightarrow> (\<forall>x \<in> set m. k < fst x) \<and> sm_wf m"
  by (simp add: sm_wf_def)

lemma sm_lookup_update [simp]:
  "sm_lookup (sm_update k v m) k' = (if k' = k then Some v else sm_lookup m k')"
  by (induction m) auto

lemma set_sm_update: "set (sm_update k v m) \<subseteq> insert (k, v) (set m)"
  by (induction m) (auto split: if_splits)

lemma sm_wf_update [simp]: "sm_wf m \<Longrightarrow> sm_wf (sm_update k v m)"
proof (induction m)
  case (Cons x m)
  obtain k' v' where x: "x = (k', v')" by (cases x)
  show ?case
  proof (cases k k' rule: linorder_cases)
    case greater
    with Cons x have "k' < fst z" if "z \<in> set (sm_update k v m)" for z
      using that set_sm_update[of k v m] by auto
    with Cons x greater show ?thesis by auto
  qed (use Cons x in auto)
qed simp

lemma sm_lookup_None: "(\<And>x. x \<in> set m \<Longrightarrow> k < fst x) \<Longrightarrow> sm_lookup m k = None"
  by (induction m) fastforce+

lemma sm_lookup_delete:
  "sm_wf m \<Longrightarrow> sm_lookup (sm_delete k m) k' = (if k' = k then None else sm_lookup m k')"
  by (induction m) (auto simp: sm_lookup_None)

lemma set_sm_delete: "set (sm_delete k m) \<subseteq> set m"
  by (induction m) (auto split: if_splits)

lemma sm_wf_delete: "sm_wf m \<Longrightarrow> sm_wf (sm_delete k m)"
  by (induction m) (use set_sm_delete in fastforce)+

lemma sm_ext: "sm_wf m \<Longrightarrow> sm_wf m' \<Longrightarrow> (\<And>k. sm_lookup m k = sm_lookup m' k) \<Longrightarrow> m = m'"
proof (induction m arbitrary: m')
  case Nil
  show ?case
  proof (cases m')
    case (Cons x xs)
    with Nil.prems(3)[of "fst x"] show ?thesis by (cases x) auto
  qed simp
next
  case (Cons x m)
  obtain k v where x: "x = (k, v)" by (cases x)
  from Cons.prems(3)[of k] x obtain k' v' t where m': "m' = (k', v') # t"
    by (cases m') auto
  have below: "sm_lookup m k = None" "sm_lookup t k' = None"
    using Cons.prems(1,2) x m' by (auto intro: sm_lookup_None)
  have "k = k'"
  proof (rule linorder_cases[of k k'])
    assume "k < k'"
    with m' Cons.prems(2) have "sm_lookup m' k = None"
      by (auto intro!: sm_lookup_None)
    with Cons.prems(3)[of k] x show ?thesis by simp
  next
    assume "k' < k"
    with x Cons.prems(1) have "sm_lookup (x # m) k' = None"
      by (auto intro!: sm_lookup_None)
    with Cons.prems(3)[of k'] m' show ?thesis by simp
  qed
  moreover have "v = v'" using Cons.prems(3)[of k] x m' \<open>k = k'\<close> by simp
  moreover have "m = t"
  proof (rule Cons.IH)
    show "sm_wf m" "sm_wf t" using Cons.prems x m' by auto
    show "sm_lookup m l = sm_lookup t l" for l
      using Cons.prems(3)[of l] x m' below \<open>k = k'\<close> by (cases "l = k") auto
  qed
  ultimately show ?case using x m' by simp
qed

interpretation sm: string_map sm_lookup sm_update sm_delete sm_wf
  by unfold_locales (auto simp: sm_lookup_delete sm_wf_delete intro: sm_ext)

lemma sm_wf_of_list [simp]: "sm_wf (sm_of_list kvs)"
proof -
  have "sm_wf m \<Longrightarrow> sm_wf (fold (\<lambda>(k, v). sm_update k v) kvs m)" for m
    by (induction kvs arbitrary: m) auto
  then show ?thesis by (simp add: sm_of_list_def)
qed

lemma set_sm_update_values:
  "sm_lookup m k = Some v \<Longrightarrow> (k, v) \<in> set m"
  by (simp add: sm_lookup_def map_of_SomeD)

end
