(* ===== verification/GoStrings.thy ===== *)
theory GoStrings
  imports Prelude
begin

text \<open>
  What the operator uses of Go's \<open>strings\<close>, \<open>unicode/utf8\<close>, \<open>encoding/hex\<close>,
  \<open>encoding/base64\<close> and \<open>encoding/pem\<close> packages, on byte strings.

  Runes are natural numbers (code points). \<open>decode_rune\<close> is \<open>utf8.DecodeRuneInString\<close>,
  the decoding a Go \<open>for range\<close> over a string performs, with U+FFFD and width 1 for
  an invalid byte. \<open>lower_rune\<close> is \<open>unicode.ToLower\<close> as far as the operator can observe
  it: exact on ASCII and on the two other code points whose lower case is an ASCII
  letter (U+0130 and U+212A); every other code point maps to a non-ASCII one, and the
  operator treats all of these alike.
\<close>

section \<open>Package strings\<close>

definition HasPrefix :: "string \<Rightarrow> string \<Rightarrow> bool" where
  "HasPrefix s p \<longleftrightarrow> take (length p) s = p"

definition HasSuffix :: "string \<Rightarrow> string \<Rightarrow> bool" where
  "HasSuffix s p \<longleftrightarrow> length p \<le> length s \<and> drop (length s - length p) s = p"

text \<open>\<open>strings.IndexByte\<close>: \<open>None\<close> stands for -1.\<close>

fun IndexByte :: "string \<Rightarrow> char \<Rightarrow> nat option" where
  "IndexByte [] c = None"
| "IndexByte (x # xs) c = (if x = c then Some 0 else map_option Suc (IndexByte xs c))"

text \<open>\<open>strings.Trim\<close> with a cutset of one character.\<close>

definition Trim1 :: "string \<Rightarrow> char \<Rightarrow> string" where
  "Trim1 s c = rev (dropWhile (\<lambda>x. x = c) (rev (dropWhile (\<lambda>x. x = c) s)))"

section \<open>UTF-8\<close>

abbreviation byte_of :: "char \<Rightarrow> nat" where
  "byte_of c \<equiv> of_char c"

abbreviation char_of_nat :: "nat \<Rightarrow> char" where
  "char_of_nat n \<equiv> char_of n"

definition RuneError :: nat where
  "RuneError = 65533"

definition cont_byte :: "nat \<Rightarrow> bool" where
  "cont_byte b \<longleftrightarrow> 128 \<le> b \<and> b < 192"

text \<open>The range the second byte must lie in, by the first byte (Go's accept ranges).\<close>

definition second_ok :: "nat \<Rightarrow> nat \<Rightarrow> bool" where
  "second_ok b0 b1 \<longleftrightarrow>
     (if b0 = 224 then 160 \<le> b1 \<and> b1 < 192
      else if b0 = 237 then 128 \<le> b1 \<and> b1 < 160
      else if b0 = 240 then 144 \<le> b1 \<and> b1 < 192
      else if b0 = 244 then 128 \<le> b1 \<and> b1 < 144
      else cont_byte b1)"

definition at_byte :: "string \<Rightarrow> nat \<Rightarrow> nat" where
  "at_byte s i = (if i < length s then byte_of (s ! i) else 0)"

definition decode_rune :: "string \<Rightarrow> nat \<times> nat" where
  "decode_rune s =
     (let b0 = at_byte s 0; b1 = at_byte s 1; b2 = at_byte s 2; b3 = at_byte s 3 in
      if b0 < 128 then (b0, 1)
      else if 194 \<le> b0 \<and> b0 < 224 \<and> cont_byte b1
        then ((b0 - 192) * 64 + (b1 - 128), 2)
      else if 224 \<le> b0 \<and> b0 < 240 \<and> second_ok b0 b1 \<and> cont_byte b2
        then ((b0 - 224) * 4096 + (b1 - 128) * 64 + (b2 - 128), 3)
      else if 240 \<le> b0 \<and> b0 < 245 \<and> second_ok b0 b1 \<and> cont_byte b2 \<and> cont_byte b3
        then ((b0 - 240) * 262144 + (b1 - 128) * 4096 + (b2 - 128) * 64 + (b3 - 128), 4)
      else (RuneError, 1))"

definition valid_rune :: "nat \<Rightarrow> bool" where
  "valid_rune r \<longleftrightarrow> r < 55296 \<or> 57344 \<le> r \<and> r < 1114112"

text \<open>\<open>utf8.AppendRune\<close>: surrogates and out-of-range values are encoded as U+FFFD.\<close>

definition encode_rune :: "nat \<Rightarrow> string" where
  "encode_rune r0 =
     (let r = (if valid_rune r0 then r0 else RuneError) in
      map char_of_nat
       (if r < 128 then [r]
        else if r < 2048 then [192 + r div 64, 128 + r mod 64]
        else if r < 65536 then [224 + r div 4096, 128 + r div 64 mod 64, 128 + r mod 64]
        else [240 + r div 262144, 128 + r div 4096 mod 64, 128 + r div 64 mod 64,
              128 + r mod 64]))"

text \<open>The runes a \<open>for range\<close> over the string visits.\<close>

fun runes :: "string \<Rightarrow> nat list" where
  "runes [] = []"
| "runes (c # cs) =
     (let (r, w) = decode_rune (c # cs) in r # runes (drop (w - 1) cs))"

definition lower_rune :: "nat \<Rightarrow> nat" where
  "lower_rune r =
     (if 65 \<le> r \<and> r \<le> 90 then r + 32
      else if r = 304 then 105
      else if r = 8490 then 107
      else r)"

text \<open>\<open>strings.ToLower\<close>, rune by rune.\<close>

definition ToLower_runes :: "string \<Rightarrow> nat list" where
  "ToLower_runes s = map lower_rune (runes s)"

section \<open>Hexadecimal, base64 and PEM\<close>

definition hex_digits :: string where
  "hex_digits = ''0123456789abcdef''"

definition hex_EncodeToString :: "bytes \<Rightarrow> string" where
  "hex_EncodeToString bs =
     concat (map (\<lambda>b. [hex_digits ! (byte_of b div 16), hex_digits ! (byte_of b mod 16)]) bs)"

definition base64_letters :: string where
  "base64_letters = ''ABCDEFGHIJKLMNOPQRSTUVWXYZabcdefghijklmnopqrstuvwxyz0123456789''"

text \<open>
  \<open>Encoding.EncodeToString\<close> without padding, for a 64-character alphabet. The last
  equations are the trailing one or two bytes.
\<close>

fun base64_raw :: "string \<Rightarrow> bytes \<Rightarrow> string" where
  "base64_raw abc (b0 # b1 # b2 # bs) =
     (let v = byte_of b0 * 65536 + byte_of b1 * 256 + byte_of b2 in
      [abc ! (v div 262144 mod 64), abc ! (v div 4096 mod 64),
       abc ! (v div 64 mod 64), abc ! (v mod 64)] @ base64_raw abc bs)"
| "base64_raw abc [b0, b1] =
     (let v = byte_of b0 * 65536 + byte_of b1 * 256 in
      [abc ! (v div 262144 mod 64), abc ! (v div 4096 mod 64), abc ! (v div 64 mod 64)])"
| "base64_raw abc [b0] =
     (let v = byte_of b0 * 65536 in [abc ! (v div 262144 mod 64), abc ! (v div 4096 mod 64)])"
| "base64_raw abc [] = []"

text \<open>\<open>base64.RawURLEncoding\<close> and \<open>base64.StdEncoding\<close>.\<close>

definition RawURLEncoding :: "bytes \<Rightarrow> string" where
  "RawURLEncoding bs = base64_raw (base64_letters @ ''-_'') bs"

definition StdEncoding :: "bytes \<Rightarrow> string" where
  "StdEncoding bs =
     base64_raw (base64_letters @ ''+/'') bs @
     (if length bs mod 3 = 1 then ''=='' else if length bs mod 3 = 2 then ''='' else [])"

fun lines64 :: "string \<Rightarrow> string" where
  "lines64 s = (if s = [] then [] else take 64 s @ [CHR 0x0A] @ lines64 (drop 64 s))"

declare lines64.simps [simp del]

text \<open>\<open>pem.EncodeToMemory\<close> for a block without headers.\<close>

definition pem_EncodeToMemory :: "string \<Rightarrow> bytes \<Rightarrow> bytes" where
  "pem_EncodeToMemory ty bs =
     ''-----BEGIN '' @ ty @ ''-----'' @ [CHR 0x0A] @ lines64 (StdEncoding bs) @
     ''-----END '' @ ty @ ''-----'' @ [CHR 0x0A]"

text \<open>\<open>fmt\<close>'s verb \<open>%d\<close> for a number that is not negative.\<close>

fun show_nat :: "nat \<Rightarrow> string" where
  "show_nat n =
     (if n < 10 then [char_of_nat (48 + n)]
      else show_nat (n div 10) @ [char_of_nat (48 + n mod 10)])"

declare show_nat.simps [simp del]

section \<open>Lemmas\<close>

named_theorems go_string_simps \<open>prefix and suffix tests as library relations\<close>

lemma HasPrefix_prefix [go_string_simps]: "HasPrefix s p \<longleftrightarrow> prefix p s"
  by (metis HasPrefix_def append_eq_conv_conj prefix_def)

lemma HasSuffix_suffix [go_string_simps]: "HasSuffix s p \<longleftrightarrow> suffix p s"
  by (metis HasSuffix_def append_eq_conv_conj append_take_drop_id diff_diff_cancel length_append
      length_drop suffix_def suffix_length_le add_diff_cancel_right')

lemma IndexByte_None: "IndexByte s c = None \<longleftrightarrow> c \<notin> set s"
  by (induction s) auto

lemma IndexByte_Some:
  "IndexByte s c = Some i \<Longrightarrow> i < length s \<and> s ! i = c \<and> c \<notin> set (take i s)"
proof (induction s arbitrary: i)
  case (Cons x s)
  then show ?case by (cases i) (auto split: if_splits)
qed simp

text \<open>The remainder after the first occurrence: Go's \<open>s[i+1:]\<close>.\<close>

lemma IndexByte_split:
  "IndexByte s c = Some i \<Longrightarrow> s = take i s @ c # drop (Suc i) s"
  using IndexByte_Some[of s c i] id_take_nth_drop[of i s] by simp

lemma dropWhile_hd: "dropWhile P xs \<noteq> [] \<Longrightarrow> \<not> P (hd (dropWhile P xs))"
  by (induction xs) auto

lemma set_dropWhile: "set (dropWhile P xs) \<subseteq> set xs"
  by (induction xs) auto

lemma Trim1_set: "set (Trim1 s c) \<subseteq> set s"
  using set_dropWhile[of "\<lambda>x. x = c" s] set_dropWhile[of "\<lambda>x. x = c" "rev (dropWhile (\<lambda>x. x = c) s)"]
  by (simp add: Trim1_def)

lemma Trim1_length: "length (Trim1 s c) \<le> length s"
  using length_dropWhile_le[of "\<lambda>x. x = c" s]
    length_dropWhile_le[of "\<lambda>x. x = c" "rev (dropWhile (\<lambda>x. x = c) s)"]
  unfolding Trim1_def by (simp only: length_rev)

lemma Trim1_empty: "Trim1 s c = [] \<longleftrightarrow> set s \<subseteq> {c}"
proof
  assume "Trim1 s c = []"
  then have all: "\<forall>x \<in> set (dropWhile (\<lambda>x. x = c) s). x = c"
    unfolding Trim1_def by (simp only: rev_is_Nil_conv dropWhile_eq_Nil_conv set_rev)
  have "dropWhile (\<lambda>x. x = c) s = []"
  proof (rule ccontr)
    assume ne: "dropWhile (\<lambda>x. x = c) s \<noteq> []"
    from dropWhile_hd[OF ne] all hd_in_set[OF ne] show False by blast
  qed
  then show "set s \<subseteq> {c}" by auto
next
  assume "set s \<subseteq> {c}"
  then have "dropWhile (\<lambda>x. x = c) s = []" by auto
  then show "Trim1 s c = []" unfolding Trim1_def by (simp only: rev.simps dropWhile.simps)
qed

lemma rev_dropWhile_hd:
  "dropWhile P (rev xs) \<noteq> [] \<Longrightarrow> hd (rev (dropWhile P (rev xs))) = hd xs"
proof -
  assume ne: "dropWhile P (rev xs) \<noteq> []"
  have "rev (dropWhile P (rev xs)) @ rev (takeWhile P (rev xs)) = xs"
    by (metis rev_append rev_rev_ident takeWhile_dropWhile_id)
  with ne show ?thesis by (metis hd_append2 rev_is_Nil_conv)
qed

lemma Trim1_ends:
  assumes "Trim1 s c \<noteq> []"
  shows "hd (Trim1 s c) \<noteq> c" and "last (Trim1 s c) \<noteq> c"
proof -
  let ?t = "dropWhile (\<lambda>x. x = c) s"
  have ne: "dropWhile (\<lambda>x. x = c) (rev ?t) \<noteq> []" using assms unfolding Trim1_def by blast
  then have "?t \<noteq> []" by (metis dropWhile.simps(1) rev.simps(1))
  then have "hd ?t \<noteq> c" by (rule dropWhile_hd)
  with ne show "hd (Trim1 s c) \<noteq> c" by (simp add: Trim1_def rev_dropWhile_hd)
  show "last (Trim1 s c) \<noteq> c"
    using dropWhile_hd[OF ne] by (simp add: Trim1_def last_rev)
qed

lemma Trim1_id:
  assumes "s \<noteq> []" and "hd s \<noteq> c" and "last s \<noteq> c"
  shows "Trim1 s c = s"
proof -
  have "dropWhile (\<lambda>x. x = c) s = s" using assms(1,2) by (cases s) auto
  moreover have "dropWhile (\<lambda>x. x = c) (rev s) = rev s"
    using assms(1,3) by (cases s rule: rev_cases) auto
  ultimately show ?thesis unfolding Trim1_def by (simp only: rev_rev_ident)
qed

subsection \<open>UTF-8\<close>

lemma decode_rune_width: "1 \<le> snd (decode_rune s) \<and> snd (decode_rune s) \<le> 4"
  by (simp add: decode_rune_def Let_def)

lemma decode_rune_ascii: "byte_of c < (128 :: nat) \<Longrightarrow> decode_rune (c # s) = (byte_of c, 1)"
  by (simp add: decode_rune_def Let_def at_byte_def)

text \<open>A decoded sequence of several bytes holds no ASCII byte.\<close>

lemma decode_rune_bytes:
  assumes "decode_rune s = (r, w)" and "1 < w"
  shows "128 \<le> at_byte s 0" and "128 \<le> at_byte s 1"
    and "3 \<le> w \<Longrightarrow> 128 \<le> at_byte s 2" and "4 \<le> w \<Longrightarrow> 128 \<le> at_byte s 3" and "w \<le> 4"
  using assms by (auto simp: decode_rune_def Let_def cont_byte_def second_ok_def split: if_splits)

lemma decode_rune_wide:
  assumes "decode_rune s = (r, w)" and "i < w" and "i < length s" and "1 < w"
  shows "128 \<le> (byte_of (s ! i) :: nat)"
proof -
  from assms(2) decode_rune_bytes(5)[OF assms(1,4)] have "i = 0 \<or> i = 1 \<or> i = 2 \<or> i = 3" by auto
  then have "at_byte s i \<ge> 128"
    using decode_rune_bytes(1-4)[OF assms(1,4)] assms(2) by auto
  with assms(3) show ?thesis by (simp add: at_byte_def)
qed

lemma ascii_in_runes:
  "c \<in> set s \<Longrightarrow> byte_of c < (128 :: nat) \<Longrightarrow> byte_of c \<in> set (runes s)"
proof (induction s rule: runes.induct)
  case (2 x xs)
  obtain r w where rw: "decode_rune (x # xs) = (r, w)" by (cases "decode_rune (x # xs)")
  show ?case
  proof (cases "c = x")
    case True
    with "2.prems" rw show ?thesis by (simp add: decode_rune_ascii)
  next
    case False
    with "2.prems"(1) have "c \<in> set xs" by simp
    moreover have "c \<notin> set (take (w - 1) xs)"
    proof
      assume "c \<in> set (take (w - 1) xs)"
      then obtain i where "i < length xs" "i < w - 1" "xs ! i = c"
        by (auto simp: in_set_conv_nth)
      then have "(128 :: nat) \<le> byte_of c"
        using decode_rune_wide[OF rw, of "Suc i"] by simp
      with "2.prems"(2) show False by simp
    qed
    ultimately have "c \<in> set (drop (w - 1) xs)"
      by (metis Un_iff append_take_drop_id set_append)
    with "2.IH"[OF rw[symmetric] refl] "2.prems"(2) rw show ?thesis by simp
  qed
qed simp

lemma runes_ascii: "(\<And>c. c \<in> set s \<Longrightarrow> byte_of c < (128 :: nat)) \<Longrightarrow> runes s = map byte_of s"
  by (induction s) (simp_all add: decode_rune_ascii)

subsection \<open>Encodings\<close>

lemma length_base64_raw: "length (base64_raw abc bs) = (4 * length bs + 2) div 3"
proof (induction abc bs rule: base64_raw.induct)
  case (1 abc b0 b1 b2 bs)
  have "(4 * (length bs + 3) + 2) div 3 = (4 * length bs + 2) div 3 + 4" by simp
  with 1 show ?case by (simp add: Let_def)
qed (simp_all add: Let_def)

lemma set_base64_raw: "64 \<le> length abc \<Longrightarrow> set (base64_raw abc bs) \<subseteq> set abc"
proof (induction abc bs rule: base64_raw.induct)
  case (1 abc b0 b1 b2 bs)
  have "abc ! (n mod 64) \<in> set abc" for n
    by (rule nth_mem) (use "1.prems" mod_less_divisor[of 64 n] in linarith)
  with 1 show ?case by (simp add: Let_def)
next
  case (2 abc b0 b1)
  have "abc ! (n mod 64) \<in> set abc" for n
    by (rule nth_mem) (use "2.prems" mod_less_divisor[of 64 n] in linarith)
  then show ?case by (simp add: Let_def)
next
  case (3 abc b0)
  have "abc ! (n mod 64) \<in> set abc" for n
    by (rule nth_mem) (use "3.prems" mod_less_divisor[of 64 n] in linarith)
  then show ?case by (simp add: Let_def)
qed simp

lemma length_hex: "length (hex_EncodeToString bs) = 2 * length bs"
  by (induction bs) (simp_all add: hex_EncodeToString_def)

lemma hex_digits_facts: "length hex_digits = 16" "distinct hex_digits"
  by (simp_all add: hex_digits_def)

lemma byte_nibbles: "byte_of c div 16 < (16 :: nat)" "byte_of c mod 16 < (16 :: nat)" for c :: char
  using nat_of_char_less_256[of c] by (simp_all add: less_mult_imp_div_less)

lemma set_hex: "set (hex_EncodeToString bs) \<subseteq> set hex_digits"
  using byte_nibbles by (auto simp: hex_EncodeToString_def hex_digits_facts intro!: nth_mem)

lemma hex_inj: "hex_EncodeToString xs = hex_EncodeToString ys \<Longrightarrow> xs = ys"
proof (induction xs arbitrary: ys)
  case Nil
  then show ?case using length_hex[of ys] by (simp add: hex_EncodeToString_def)
next
  case (Cons x xs)
  obtain y zs where ys: "ys = y # zs"
    using Cons.prems length_hex[of ys] length_hex[of "x # xs"] by (cases ys) auto
  from Cons.prems ys have
    eq: "hex_digits ! (byte_of x div 16) = hex_digits ! (byte_of y div 16)"
        "hex_digits ! (byte_of x mod 16) = hex_digits ! (byte_of y mod 16)"
    and tl: "hex_EncodeToString xs = hex_EncodeToString zs"
    by (simp_all add: hex_EncodeToString_def)
  from eq have "byte_of x div 16 = (byte_of y div 16 :: nat)" "byte_of x mod 16 = (byte_of y mod 16 :: nat)"
    using byte_nibbles[of x] byte_nibbles[of y]
    by (simp_all add: nth_eq_iff_index_eq[OF hex_digits_facts(2)] hex_digits_facts(1))
  then have "byte_of x = (byte_of y :: nat)" by (metis div_mult_mod_eq)
  then show ?case using Cons.IH[OF tl] ys by simp
qed

end
