(* ===== verification/Json.thy ===== *)
theory Json
  imports GoMap GoStrings
begin

text \<open>
  Values of Go type \<open>any\<close> as \<open>encoding/json\<close> builds them, and \<open>json.Unmarshal\<close> into a
  \<open>map[string]any\<close>.

  \<open>json\<close> has one constructor per dynamic type: \<open>nil\<close>, \<open>bool\<close>, \<open>float64\<close>, \<open>string\<close>,
  \<open>[]any\<close> and \<open>map[string]any\<close>. A number is kept as its literal: nothing in the operator
  computes with numbers, and the conversion to \<open>float64\<close> matters only where it fails,
  which \<open>number_in_range\<close> decides (the literal is not below the midpoint above the
  largest finite double). \<open>parse_value\<close> follows the grammar of the package's scanner:
  white space, literals, numbers without leading zeros, strings without control
  characters, escapes with surrogate pairs, U+FFFD for invalid UTF-8 and for unpaired
  surrogates, at most 10000 levels of nesting, and the last value for a repeated key.

  The parser recurses on fuel. \<open>fuel_for\<close> gives twice the length of the input plus two;
  \<open>parse_value_fuel\<close> shows that more fuel never changes the result, so \<open>None\<close> always means
  a syntax or range error and never exhausted fuel.
\<close>

datatype json =
    JNull
  | JBool bool
  | JNum string
  | JStr string
  | JArr "json list"
  | JObj "(string \<times> json) list"

section \<open>Lexical level\<close>

abbreviation ch_quote :: char where "ch_quote \<equiv> CHR 0x22"
abbreviation ch_backslash :: char where "ch_backslash \<equiv> CHR 0x5C"

definition is_ws :: "char \<Rightarrow> bool" where
  "is_ws c \<longleftrightarrow> c = CHR '' '' \<or> c = CHR 0x09 \<or> c = CHR 0x0A \<or> c = CHR 0x0D"

definition skip_ws :: "string \<Rightarrow> string" where
  "skip_ws s = dropWhile is_ws s"

definition is_digit :: "char \<Rightarrow> bool" where
  "is_digit c \<longleftrightarrow> 48 \<le> byte_of c \<and> byte_of c \<le> 57"

definition hex_val :: "char \<Rightarrow> nat option" where
  "hex_val c =
     (let b = byte_of c in
      if 48 \<le> b \<and> b \<le> 57 then Some (b - 48)
      else if 97 \<le> b \<and> b \<le> 102 then Some (b - 87)
      else if 65 \<le> b \<and> b \<le> 70 then Some (b - 55)
      else None)"

text \<open>\<open>getu4\<close>: the value of a \<open>\uXXXX\<close> escape at the start of the string.\<close>

fun getu4 :: "string \<Rightarrow> nat option" where
  "getu4 (c0 # c1 # h1 # h2 # h3 # h4 # s) =
     (if c0 = ch_backslash \<and> c1 = CHR ''u'' then
        (case (hex_val h1, hex_val h2, hex_val h3, hex_val h4) of
           (Some a, Some b, Some c, Some d) \<Rightarrow> Some (a * 4096 + b * 256 + c * 16 + d)
         | _ \<Rightarrow> None)
      else None)"
| "getu4 s = None"

text \<open>\<open>utf16.DecodeRune\<close>: \<open>None\<close> when the two values are not a surrogate pair.\<close>

definition utf16_pair :: "nat \<Rightarrow> nat option \<Rightarrow> nat option" where
  "utf16_pair r1 r2 =
     (case r2 of
        None \<Rightarrow> None
      | Some r2 \<Rightarrow>
          if 55296 \<le> r1 \<and> r1 < 56320 \<and> 56320 \<le> r2 \<and> r2 < 57344
          then Some ((r1 - 55296) * 1024 + (r2 - 56320) + 65536) else None)"

definition is_surrogate :: "nat \<Rightarrow> bool" where
  "is_surrogate r \<longleftrightarrow> 55296 \<le> r \<and> r < 57344"

definition simple_escape :: "char \<Rightarrow> char option" where
  "simple_escape c =
     (if c = ch_quote \<or> c = ch_backslash \<or> c = CHR ''/'' then Some c
      else if c = CHR ''b'' then Some (CHR 0x08)
      else if c = CHR ''f'' then Some (CHR 0x0C)
      else if c = CHR ''n'' then Some (CHR 0x0A)
      else if c = CHR ''r'' then Some (CHR 0x0D)
      else if c = CHR ''t'' then Some (CHR 0x09)
      else None)"

text \<open>
  The body of a string literal, after its opening quote: the decoded value and the
  input after the closing quote.
\<close>

fun parse_string :: "string \<Rightarrow> (string \<times> string) option" where
  "parse_string [] = None"
| "parse_string (c # cs) =
     (if c = ch_quote then Some ([], cs)
      else if byte_of c < 32 then None
      else if c = ch_backslash then
        (case cs of
           [] \<Rightarrow> None
         | e # es \<Rightarrow>
             (if e = CHR ''u'' then
                (case getu4 (c # cs) of
                   None \<Rightarrow> None
                 | Some r \<Rightarrow>
                     (if is_surrogate r then
                        (case utf16_pair r (getu4 (drop 4 es)) of
                           Some r' \<Rightarrow>
                             map_option (apfst ((@) (encode_rune r'))) (parse_string (drop 10 es))
                         | None \<Rightarrow>
                             map_option (apfst ((@) (encode_rune RuneError)))
                               (parse_string (drop 4 es)))
                      else map_option (apfst ((@) (encode_rune r))) (parse_string (drop 4 es))))
              else
                (case simple_escape e of
                   None \<Rightarrow> None
                 | Some x \<Rightarrow> map_option (apfst ((#) x)) (parse_string es))))
      else
        (let (r, w) = decode_rune (c # cs) in
         map_option (apfst ((@) (encode_rune r))) (parse_string (drop (w - 1) cs))))"

fun nat_of_digits :: "nat \<Rightarrow> string \<Rightarrow> nat" where
  "nat_of_digits n [] = n"
| "nat_of_digits n (c # cs) = nat_of_digits (n * 10 + (byte_of c - 48)) cs"

text \<open>
  \<open>strconv.ParseFloat\<close> succeeds on the literal with integer digits \<open>i\<close>, fraction digits
  \<open>f\<close> and decimal exponent \<open>e\<close>: the decimal value is below the midpoint between the
  largest finite double and \<open>2 ^ 1024\<close>. A value below \<open>10 ^ 308\<close> is accepted without
  computing the bound.
\<close>

definition float64_limit :: int where
  "float64_limit = 2 ^ 1024 - 2 ^ 970"

definition number_in_range :: "string \<Rightarrow> string \<Rightarrow> int \<Rightarrow> bool" where
  "number_in_range i f e =
     (let m = nat_of_digits 0 (i @ f); x = e - int (length f) in
      if m = 0 \<or> int (length (i @ f)) + x \<le> 308 then True
      else if 0 \<le> x then int m * 10 ^ nat x < float64_limit
      else int m < float64_limit * 10 ^ nat (- x))"

definition parse_frac :: "string \<Rightarrow> (string \<times> string \<times> string) option" where
  "parse_frac s =
     (case s of
        c # cs \<Rightarrow>
          (if c = CHR ''.'' then
             (let ds = takeWhile is_digit cs in
              if ds = [] then None else Some (ds, c # ds, dropWhile is_digit cs))
           else Some ([], [], s))
      | [] \<Rightarrow> Some ([], [], s))"

definition parse_sign :: "string \<Rightarrow> bool \<times> string \<times> string" where
  "parse_sign s =
     (case s of
        c # cs \<Rightarrow>
          (if c = CHR ''-'' then (True, [c], cs)
           else if c = CHR ''+'' then (False, [c], cs)
           else (False, [], s))
      | [] \<Rightarrow> (False, [], s))"

definition parse_exp :: "string \<Rightarrow> (int \<times> string \<times> string) option" where
  "parse_exp s =
     (case s of
        c # cs \<Rightarrow>
          (if c = CHR ''e'' \<or> c = CHR ''E'' then
             (case parse_sign cs of (neg, sg, r) \<Rightarrow>
                (let ds = takeWhile is_digit r; n = int (nat_of_digits 0 ds) in
                 if ds = [] then None
                 else Some (if neg then - n else n, c # sg @ ds, dropWhile is_digit r)))
           else Some (0, [], s))
      | [] \<Rightarrow> Some (0, [], s))"

definition parse_number :: "string \<Rightarrow> (json \<times> string) option" where
  "parse_number s =
     (let (sg, s1) = (case s of c # cs \<Rightarrow> if c = CHR ''-'' then ([c], cs) else ([], s)
                      | [] \<Rightarrow> ([], s));
          ds = takeWhile is_digit s1;
          (i, s2) = (if ds \<noteq> [] \<and> hd ds = CHR ''0'' then ([CHR ''0''], tl s1)
                     else (ds, dropWhile is_digit s1)) in
      if ds = [] then None
      else (case parse_frac s2 of
              None \<Rightarrow> None
            | Some (f, flit, s3) \<Rightarrow>
                (case parse_exp s3 of
                   None \<Rightarrow> None
                 | Some (e, elit, s4) \<Rightarrow>
                     (if number_in_range i f e then Some (JNum (sg @ i @ flit @ elit), s4)
                      else None))))"

definition parse_literal :: "string \<Rightarrow> json \<Rightarrow> string \<Rightarrow> (json \<times> string) option" where
  "parse_literal lit v s =
     (if take (length lit) s = lit then Some (v, drop (length lit) s) else None)"

section \<open>Values\<close>

definition maxNestingDepth :: nat where
  "maxNestingDepth = 10000"

fun parse_value :: "nat \<Rightarrow> nat \<Rightarrow> string \<Rightarrow> (json \<times> string) option"
  and parse_elems :: "nat \<Rightarrow> nat \<Rightarrow> string \<Rightarrow> (json list \<times> string) option"
  and parse_members :: "nat \<Rightarrow> nat \<Rightarrow> string \<Rightarrow> ((string \<times> json) list \<times> string) option"
where
  "parse_value 0 d s = None"
| "parse_value (Suc n) d s =
     (case s of
        [] \<Rightarrow> None
      | c # cs \<Rightarrow>
          (if c = ch_quote then map_option (apfst JStr) (parse_string cs)
           else if c = CHR ''{'' then
             (if maxNestingDepth \<le> d then None
              else case skip_ws cs of
                     c' # cs' \<Rightarrow>
                       (if c' = CHR ''}'' then Some (JObj [], cs')
                        else map_option (apfst (\<lambda>kvs. JObj (sm_of_list kvs)))
                               (parse_members n (Suc d) (c' # cs')))
                   | [] \<Rightarrow> None)
           else if c = CHR ''['' then
             (if maxNestingDepth \<le> d then None
              else case skip_ws cs of
                     c' # cs' \<Rightarrow>
                       (if c' = CHR '']'' then Some (JArr [], cs')
                        else map_option (apfst JArr) (parse_elems n (Suc d) (c' # cs')))
                   | [] \<Rightarrow> None)
           else if c = CHR ''t'' then parse_literal ''true'' (JBool True) s
           else if c = CHR ''f'' then parse_literal ''false'' (JBool False) s
           else if c = CHR ''n'' then parse_literal ''null'' JNull s
           else parse_number s))"
| "parse_elems 0 d s = None"
| "parse_elems (Suc n) d s =
     (case parse_value n d s of
        None \<Rightarrow> None
      | Some (v, s1) \<Rightarrow>
          (case skip_ws s1 of
             [] \<Rightarrow> None
           | c # cs \<Rightarrow>
               (if c = CHR '']'' then Some ([v], cs)
                else if c = CHR '','' then
                  map_option (apfst ((#) v)) (parse_elems n d (skip_ws cs))
                else None)))"
| "parse_members 0 d s = None"
| "parse_members (Suc n) d s =
     (case s of
        [] \<Rightarrow> None
      | q # qs \<Rightarrow>
          (if q \<noteq> ch_quote then None
           else case parse_string qs of
             None \<Rightarrow> None
           | Some (k, s1) \<Rightarrow>
               (case skip_ws s1 of
                  [] \<Rightarrow> None
                | c # cs \<Rightarrow>
                    (if c \<noteq> CHR '':'' then None
                     else case parse_value n d (skip_ws cs) of
                       None \<Rightarrow> None
                     | Some (v, s2) \<Rightarrow>
                         (case skip_ws s2 of
                            [] \<Rightarrow> None
                          | c' # cs' \<Rightarrow>
                              (if c' = CHR ''}'' then Some ([(k, v)], cs')
                               else if c' = CHR '','' then
                                 map_option (apfst ((#) (k, v)))
                                   (parse_members n d (skip_ws cs'))
                               else None))))))"

definition fuel_for :: "string \<Rightarrow> nat" where
  "fuel_for s = 2 * length s + 2"

text \<open>\<open>json.Unmarshal\<close> into an \<open>any\<close>.\<close>

definition json_parse :: "string \<Rightarrow> json option" where
  "json_parse s =
     (case parse_value (fuel_for s) 0 (skip_ws s) of
        Some (v, rest) \<Rightarrow> if skip_ws rest = [] then Some v else None
      | None \<Rightarrow> None)"

text \<open>
  A variable of type \<open>map[string]any\<close>: \<open>None\<close> is the nil map. Reading a nil map finds no
  key; writing to one panics.
\<close>

type_synonym gomap = "json smap option"

text \<open>
  \<open>json.Unmarshal\<close> into a \<open>map[string]any\<close>: an object fills the map, \<open>null\<close> sets it to
  nil, any other value is an error.
\<close>

definition json_Unmarshal :: "string \<Rightarrow> gomap option" where
  "json_Unmarshal s =
     (case json_parse s of
        Some (JObj m) \<Rightarrow> Some (Some m)
      | Some JNull \<Rightarrow> Some None
      | _ \<Rightarrow> None)"

definition gm_lookup :: "gomap \<Rightarrow> string \<Rightarrow> json option" where
  "gm_lookup m k = (case m of None \<Rightarrow> None | Some kvs \<Rightarrow> sm_lookup kvs k)"

text \<open>Well-formed values: every object, at any depth, is a sorted map.\<close>

fun json_wf :: "json \<Rightarrow> bool" where
  "json_wf (JArr xs) \<longleftrightarrow> list_all json_wf xs"
| "json_wf (JObj kvs) \<longleftrightarrow> sm_wf kvs \<and> list_all (\<lambda>kv. json_wf (snd kv)) kvs"
| "json_wf _ \<longleftrightarrow> True"

section \<open>Fuel\<close>

lemma apfst_Some: "map_option (apfst f) m = Some (x, r) \<longleftrightarrow> (\<exists>y. m = Some (y, r) \<and> x = f y)"
  by (cases m) auto

lemma parse_string_shorter: "parse_string s = Some (x, r) \<Longrightarrow> length r < length s"
proof (induction "length s" arbitrary: s x r rule: less_induct)
  case less
  show ?case
  proof (cases s)
    case (Cons c cs)
    have IH: "parse_string t = Some (y, r) \<Longrightarrow> length t \<le> length cs \<Longrightarrow> length r < Suc (length cs)" for t y
      using less.hyps[of t y r] Cons by simp
    from less.prems[unfolded Cons] show ?thesis
      unfolding Cons parse_string.simps
      by (auto simp: apfst_Some less_Suc_eq_le split: if_splits option.splits list.splits prod.splits dest!: IH)
  qed (use less.prems in simp)
qed

lemma skip_ws_length: "length (skip_ws s) \<le> length s"
  by (simp add: skip_ws_def length_dropWhile_le)

lemma skip_ws_Cons: "skip_ws s = c # cs \<Longrightarrow> length cs < length s"
  using skip_ws_length[of s] by simp

lemma skip_ws_less: "n < length (skip_ws s) \<Longrightarrow> n < length s"
  using skip_ws_length[of s] by simp

lemma parse_frac_shorter: "parse_frac s = Some (f, l, r) \<Longrightarrow> length r \<le> length s"
  by (auto simp: parse_frac_def Let_def split: list.splits if_splits
      intro: le_SucI order_trans[OF length_dropWhile_le])

lemma parse_sign_shorter: "parse_sign s = (n, l, r) \<Longrightarrow> length r \<le> length s"
  by (auto simp: parse_sign_def split: list.splits if_splits)

lemma parse_exp_shorter: "parse_exp s = Some (e, l, r) \<Longrightarrow> length r \<le> length s"
  by (auto simp: parse_exp_def Let_def split: list.splits if_splits prod.splits
      dest!: parse_sign_shorter intro: le_SucI order_trans[OF length_dropWhile_le])

lemma parse_number_shorter:
  assumes "parse_number s = Some (v, r)"
  shows "length r < length s"
proof -
  obtain sg s1 where s1: "(case s of c # cs \<Rightarrow> if c = CHR ''-'' then ([c], cs) else ([], s)
      | [] \<Rightarrow> ([], s)) = (sg, s1)" by (rule prod.exhaust)
  define ds where "ds = takeWhile is_digit s1"
  obtain i s2 where s2: "(if ds \<noteq> [] \<and> hd ds = CHR ''0'' then ([CHR ''0''], tl s1)
      else (ds, dropWhile is_digit s1)) = (i, s2)" by (rule prod.exhaust)
  have "ds \<noteq> []" and "length r \<le> length s2"
    using assms unfolding parse_number_def s1 prod.case Let_def ds_def[symmetric] s2
    by (auto split: if_splits option.splits prod.splits dest!: parse_frac_shorter parse_exp_shorter)
  moreover have "length s1 \<le> length s" using s1 by (auto split: list.splits if_splits)
  moreover have "length s2 < length s1"
  proof -
    have "length ds + length (dropWhile is_digit s1) = length s1"
      unfolding ds_def by (metis length_append takeWhile_dropWhile_id)
    moreover have "s1 \<noteq> []" using \<open>ds \<noteq> []\<close> ds_def by auto
    moreover have "0 < length ds" using \<open>ds \<noteq> []\<close> by simp
    ultimately show ?thesis using s2
      by (cases s1) (auto split: if_splits simp: less_Suc_eq_le length_dropWhile_le)
  qed
  ultimately show ?thesis by simp
qed

lemma parse_literal_shorter: "parse_literal lit v s = Some (w, r) \<Longrightarrow> lit \<noteq> [] \<Longrightarrow> length r < length s"
  by (auto simp: parse_literal_def split: if_splits)
     (metis diff_less length_drop length_greater_0_conv take_eq_Nil)


definition shorter :: "('a \<times> string) option \<Rightarrow> string \<Rightarrow> bool" where
  "shorter p s \<longleftrightarrow> (\<forall>v r. p = Some (v, r) \<longrightarrow> length r < length s)"

lemma parse_shorter:
  "(\<forall>d s. shorter (parse_value n d s) s) \<and> (\<forall>d s. shorter (parse_elems n d s) s) \<and>
   (\<forall>d s. shorter (parse_members n d s) s)"
proof (induction n)
  case 0
  show ?case by (simp add: shorter_def)
next
  case (Suc n)
  then have IH: "parse_value n d s = Some (v, r) \<Longrightarrow> length r < length s"
    "parse_elems n d s = Some (vs, r) \<Longrightarrow> length r < length s"
    "parse_members n d s = Some (kvs, r) \<Longrightarrow> length r < length s" for d s v vs kvs r
    by (simp_all add: shorter_def)
  have "length r < length s" if "parse_value (Suc n) d s = Some (v, r)" for d s v r
  proof (cases s)
    case (Cons c cs)
    with that show ?thesis
      by (auto simp: apfst_Some split: if_splits list.splits
          dest!: parse_string_shorter parse_literal_shorter parse_number_shorter IH skip_ws_Cons)
  qed (use that in simp)
  moreover have "length r < length s" if "parse_elems (Suc n) d s = Some (v, r)" for d s v r
    using that by (auto simp: apfst_Some split: if_splits list.splits option.splits
        dest!: IH skip_ws_Cons skip_ws_less)
  moreover have "length r < length s" if "parse_members (Suc n) d s = Some (v, r)" for d s v r
    using that by (auto simp: apfst_Some split: if_splits list.splits option.splits
        dest!: IH parse_string_shorter skip_ws_Cons skip_ws_less)
  ultimately show ?case by (simp add: shorter_def)
qed


lemmas parse_value_shorter = parse_shorter[THEN conjunct1, rule_format, unfolded shorter_def, rule_format]

text \<open>
  Fuel: a value at \<open>s\<close> needs at most \<open>2 * length s + 1\<close>, a list of elements or members one more.
\<close>

lemma parse_fuel:
  "(\<forall>d s m. 2 * length s + 1 \<le> n \<longrightarrow> n \<le> m \<longrightarrow> parse_value m d s = parse_value n d s) \<and>
   (\<forall>d s m. 2 * length s + 2 \<le> n \<longrightarrow> n \<le> m \<longrightarrow> parse_elems m d s = parse_elems n d s) \<and>
   (\<forall>d s m. 2 * length s + 2 \<le> n \<longrightarrow> n \<le> m \<longrightarrow> parse_members m d s = parse_members n d s)"
proof (induction n)
  case 0
  show ?case by simp
next
  case (Suc n)
  then have IH:
    "2 * length s + 1 \<le> n \<Longrightarrow> n \<le> m \<Longrightarrow> parse_value m d s = parse_value n d s"
    "2 * length s + 2 \<le> n \<Longrightarrow> n \<le> m \<Longrightarrow> parse_elems m d s = parse_elems n d s"
    "2 * length s + 2 \<le> n \<Longrightarrow> n \<le> m \<Longrightarrow> parse_members m d s = parse_members n d s" for m d s
    by blast+
  have "parse_value (Suc m) d s = parse_value (Suc n) d s"
    if "2 * length s + 1 \<le> Suc n" and "n \<le> m" for m d s
  proof -
    have "parse_members m (Suc d) (c' # cs') = parse_members n (Suc d) (c' # cs')"
      "parse_elems m (Suc d) (c' # cs') = parse_elems n (Suc d) (c' # cs')"
      if "s = c # cs" and "skip_ws cs = c' # cs'" for c cs c' cs'
      using that \<open>2 * length s + 1 \<le> Suc n\<close> \<open>n \<le> m\<close> skip_ws_length[of cs] by (auto intro!: IH)
    then show ?thesis by (auto split: list.splits)
  qed
  moreover have "parse_elems (Suc m) d s = parse_elems (Suc n) d s"
    if "2 * length s + 2 \<le> Suc n" and "n \<le> m" for m d s
  proof -
    have "parse_value m d s = parse_value n d s" using that by (intro IH) simp_all
    moreover have "parse_elems m d (skip_ws cs) = parse_elems n d (skip_ws cs)"
      if "parse_value n d s = Some (v, s1)" and "skip_ws s1 = c # cs" for v s1 c cs
      using parse_value_shorter[OF that(1)] skip_ws_Cons[OF that(2)] skip_ws_length[of cs]
        \<open>2 * length s + 2 \<le> Suc n\<close> \<open>n \<le> m\<close> by (intro IH) simp_all
    ultimately show ?thesis by (auto split: list.splits option.splits)
  qed
  moreover have "parse_members (Suc m) d s = parse_members (Suc n) d s"
    if "2 * length s + 2 \<le> Suc n" and "n \<le> m" for m d s
  proof -
    have v: "parse_value m d (skip_ws cs) = parse_value n d (skip_ws cs)" 
      if "s = q # qs" and "parse_string qs = Some (k, s1)" and "skip_ws s1 = c # cs" for q qs k s1 c cs
      using parse_string_shorter[OF that(2)] skip_ws_Cons[OF that(3)] skip_ws_length[of cs] that(1)
        \<open>2 * length s + 2 \<le> Suc n\<close> \<open>n \<le> m\<close> by (intro IH) simp_all
    moreover have "parse_members m d (skip_ws cs') = parse_members n d (skip_ws cs')"
      if "s = q # qs" and "parse_string qs = Some (k, s1)" and "skip_ws s1 = c # cs"
        and "parse_value n d (skip_ws cs) = Some (v, s2)" and "skip_ws s2 = c' # cs'"
      for q qs k s1 c cs v s2 c' cs'
      using parse_string_shorter[OF that(2)] skip_ws_Cons[OF that(3)] skip_ws_length[of cs] that(1)
        parse_value_shorter[OF that(4)] skip_ws_Cons[OF that(5)] skip_ws_length[of cs']
        \<open>2 * length s + 2 \<le> Suc n\<close> \<open>n \<le> m\<close> by (intro IH) simp_all
    ultimately show ?thesis by (auto split: list.splits option.splits)
  qed
  ultimately show ?case using Suc_le_D by blast
qed

lemma parse_value_fuel:
  assumes "fuel_for s \<le> n"
  shows "parse_value n d (skip_ws s) = parse_value (fuel_for s) d (skip_ws s)"
  using parse_fuel[of "fuel_for s"] assms skip_ws_length[of s] by (simp add: fuel_for_def)

section \<open>Well-formed values\<close>

text \<open>Every object of a parsed value, at any depth, is a sorted map.\<close>

lemma sm_values_of_list:
  assumes "list_all (\<lambda>kv. P (snd kv)) kvs"
  shows "list_all (\<lambda>kv. P (snd kv)) (sm_of_list kvs)"
proof -
  have "list_all (\<lambda>kv. P (snd kv)) (fold (\<lambda>(k, v). sm_update k v) kvs m)"
    if "list_all (\<lambda>kv. P (snd kv)) m" for m
    using assms that
    by (induction kvs arbitrary: m) (auto simp: list_all_iff dest!: set_sm_update[THEN subsetD])
  then show ?thesis by (simp add: sm_of_list_def)
qed

definition all_wf :: "('a \<Rightarrow> bool) \<Rightarrow> ('a \<times> string) option \<Rightarrow> bool" where
  "all_wf P p \<longleftrightarrow> (\<forall>v r. p = Some (v, r) \<longrightarrow> P v)"

lemma parse_wf:
  "(\<forall>d s. all_wf json_wf (parse_value n d s)) \<and>
   (\<forall>d s. all_wf (list_all json_wf) (parse_elems n d s)) \<and>
   (\<forall>d s. all_wf (list_all (\<lambda>kv. json_wf (snd kv))) (parse_members n d s))"
proof (induction n)
  case 0
  show ?case by (simp add: all_wf_def)
next
  case (Suc n)
  then have IH: "parse_value n d s = Some (v, r) \<Longrightarrow> json_wf v"
    "parse_elems n d s = Some (vs, r) \<Longrightarrow> list_all json_wf vs"
    "parse_members n d s = Some (kvs, r) \<Longrightarrow> list_all (\<lambda>kv. json_wf (snd kv)) kvs" for d s v vs kvs r
    unfolding all_wf_def by blast+
  note members = sm_values_of_list[of json_wf, OF IH(3)]
  have number: "json_wf v" if "parse_number s = Some (v, r)" for s v r
    using that by (auto simp: parse_number_def Let_def split: if_splits option.splits prod.splits)
  have literal: "json_wf v" if "parse_literal l u s = Some (v, r)" and "json_wf u" for l u s v r
    using that by (simp add: parse_literal_def split: if_splits)
  have "json_wf v" if "parse_value (Suc n) d s = Some (v, r)" for d s v r
    using that by (auto simp: apfst_Some split: if_splits list.splits
        intro: IH number literal members)
  moreover have "list_all json_wf v" if "parse_elems (Suc n) d s = Some (v, r)" for d s v r
    using that IH(1)[of d s] IH(2)[of d]
    by (auto simp: apfst_Some split: if_splits list.splits option.splits)
  moreover have "list_all (\<lambda>kv. json_wf (snd kv)) v"
    if "parse_members (Suc n) d s = Some (v, r)" for d s v r
    using that IH(1)[of d] IH(3)[of d]
    by (auto simp: apfst_Some split: if_splits list.splits option.splits)
  ultimately show ?case by (simp add: all_wf_def)
qed

lemma json_parse_wf: "json_parse s = Some v \<Longrightarrow> json_wf v"
  using parse_wf[of "fuel_for s", THEN conjunct1, unfolded all_wf_def]
  by (force simp: json_parse_def split: option.splits if_splits)

lemma json_Unmarshal_wf: "json_Unmarshal s = Some (Some m) \<Longrightarrow> json_wf (JObj m)"
  by (auto simp: json_Unmarshal_def split: option.splits json.splits dest: json_parse_wf)

end
