(* ===== verification/ApiTypes.thy ===== *)
theory ApiTypes
  imports Json
begin

text \<open>
  The data the operator works on.

  The first part is \<open>api/v1alpha1\<close>: the two custom resources, one record per Go struct,
  one field per struct field. A pointer field is an \<open>option\<close>; a raw JSON extension is
  its bytes; a \<open>PersistentVolumeClaimSpec\<close> and a status condition, which the operator
  only copies, are their JSON value; a resource quantity is its text. The record
  \<open>valid_deployment\<close> states the CEL rule the CRD attaches to the deployment section.

  The second part is the Kubernetes objects the operator reads and writes, with the fields
  it sets or inspects. Metadata maps are partial functions, \<open>None\<close> being the nil map.
  Ingress annotations are a list of entries: the list order is the order in which a Go
  \<open>for range\<close> happens to visit them.
\<close>

section \<open>Object metadata\<close>

type_synonym strmap = "string \<Rightarrow> string option"

text \<open>\<open>or_Kind\<close> stands for the API group together with the kind.\<close>

record OwnerReference =
  or_Kind :: string
  or_Name :: string
  or_UID :: string

record ObjectMeta =
  Name :: string
  Namespace :: string
  UID :: string
  Labels :: "strmap option"
  Annotations :: "(string \<times> string) list"
  ControllerRef :: "OwnerReference option"

definition meta_key :: "ObjectMeta \<Rightarrow> nsname" where
  "meta_key m = (Namespace m, Name m)"

text \<open>\<open>metav1.ObjectMeta{Name: n, Namespace: ns}\<close>.\<close>

definition new_meta :: "string \<Rightarrow> string \<Rightarrow> ObjectMeta" where
  "new_meta n ns = \<lparr>Name = n, Namespace = ns, UID = [], Labels = None, Annotations = [],
     ControllerRef = None\<rparr>"

lemma new_meta_sel [simp]:
  "Name (new_meta n ns) = n" "Namespace (new_meta n ns) = ns" "UID (new_meta n ns) = []"
  "Labels (new_meta n ns) = None" "ControllerRef (new_meta n ns) = None"
  by (simp_all add: new_meta_def)

section \<open>The Authelia resource\<close>

record SecretKeyRef =
  ref_Name :: string
  ref_Key :: string

record AutheliaSecret =
  env_Name :: string
  env_Secret :: "SecretKeyRef option"

record AutheliaSettings =
  AdditionalConfig :: "bytes option"
  FileUsersSecret :: "SecretKeyRef option"
  Secrets :: "AutheliaSecret list"

record ResourceRequirements =
  Requests :: "strmap option"
  Limits :: "strmap option"

record AutheliaDeploymentSpec =
  Replicas :: "int32 option"
  Image :: string
  ImagePullPolicy :: string
  Resources :: ResourceRequirements
  ExistingSecret :: string
  VolumeClaimTemplate :: "json option"

text \<open>
  The validation rule of \<open>AutheliaDeploymentSpec\<close>: a volume claim template needs
  \<open>replicas\<close> to be present and 1.
\<close>

definition valid_deployment :: "AutheliaDeploymentSpec \<Rightarrow> bool" where
  "valid_deployment d \<longleftrightarrow>
     VolumeClaimTemplate d = None \<or> (Replicas d \<noteq> None \<and> Replicas d = Some 1)"

record AutheliaSpec =
  Hostname :: string
  Deployment :: AutheliaDeploymentSpec
  Settings :: AutheliaSettings

record AutheliaStatus =
  Conditions :: "json list"
  ReadyReplicas :: int32
  OIDCClients :: "string list"
  AccessControlRules :: "string list"

record Authelia =
  a_Meta :: ObjectMeta
  a_Spec :: AutheliaSpec
  a_Status :: AutheliaStatus

section \<open>The AutheliaOAuthClient resource\<close>

record AutheliaReference =
  aref_Name :: string
  aref_Namespace :: string

record AutheliaOAuthClientSpec =
  AutheliaRef :: AutheliaReference
  ClientID :: string
  ClientName :: string
  Public :: bool
  AuthorizationPolicy :: string
  ConsentMode :: string
  ClaimsPolicy :: string
  Lifespan :: string
  RedirectURIs :: "string list"
  Scopes :: "string list"
  GrantTypes :: "string list"
  ResponseTypes :: "string list"
  TokenEndpointAuthMethod :: string
  UserinfoSignedResponseAlg :: string

record AutheliaOAuthClientStatus =
  c_Conditions :: "json list"
  SecretName :: string

record AutheliaOAuthClient =
  c_Meta :: ObjectMeta
  c_Spec :: AutheliaOAuthClientSpec
  c_Status :: AutheliaOAuthClientStatus

section \<open>Kubernetes objects\<close>

record Secret =
  s_Meta :: ObjectMeta
  s_Type :: string
  s_Data :: "(string \<Rightarrow> bytes option) option"

record ConfigMap =
  cm_Meta :: ObjectMeta
  cm_Data :: strmap

record ServicePort =
  sp_Name :: string
  sp_Protocol :: string
  sp_Port :: int32
  sp_TargetPort :: string

text \<open>\<open>svc_ClusterIP\<close> stands for the part of the spec the API server assigns.\<close>

record Service =
  svc_Meta :: ObjectMeta
  svc_Type :: string
  svc_Selector :: strmap
  svc_Ports :: "ServicePort list"
  svc_ClusterIP :: string

record PersistentVolumeClaim =
  pvc_Meta :: ObjectMeta
  pvc_Spec :: json

record EnvVarSource =
  evs_Name :: string
  evs_Key :: string

record EnvVar =
  ev_Name :: string
  ev_Value :: string
  ev_ValueFrom :: "EnvVarSource option"

record VolumeMount =
  vm_Name :: string
  vm_MountPath :: string
  vm_SubPath :: string
  vm_ReadOnly :: bool

datatype VolumeSource =
    SecretVolume string
  | ConfigMapVolume string
  | ClaimVolume string
  | EmptyDir

record Volume =
  vol_Name :: string
  vol_Source :: VolumeSource

record Probe =
  pr_Path :: string
  pr_Port :: string
  pr_Scheme :: string
  pr_InitialDelaySeconds :: int32
  pr_PeriodSeconds :: int32
  pr_TimeoutSeconds :: int32
  pr_SuccessThreshold :: int32
  pr_FailureThreshold :: int32

record ContainerPort =
  cp_Name :: string
  cp_ContainerPort :: int32
  cp_Protocol :: string

record Container =
  ct_Name :: string
  ct_Image :: string
  ct_ImagePullPolicy :: string
  ct_Command :: "string list"
  ct_Args :: "string list"
  ct_Env :: "EnvVar list"
  ct_Resources :: ResourceRequirements
  ct_Ports :: "ContainerPort list"
  ct_StartupProbe :: Probe
  ct_LivenessProbe :: Probe
  ct_ReadinessProbe :: Probe
  ct_VolumeMounts :: "VolumeMount list"

record PodTemplateSpec =
  pod_Labels :: strmap
  pod_Annotations :: strmap
  pod_EnableServiceLinks :: "bool option"
  pod_Containers :: "Container list"
  pod_Volumes :: "Volume list"

record DeploymentSpec =
  ds_Replicas :: "int32 option"
  ds_RevisionHistoryLimit :: "int32 option"
  ds_Selector :: strmap
  ds_Template :: PodTemplateSpec

record DeploymentObj =
  d_Meta :: ObjectMeta
  d_Spec :: DeploymentSpec
  d_ReadyReplicas :: int32

record IngressRule =
  Host :: string

record IngressTLS =
  Hosts :: "string list"

record Ingress =
  ing_Meta :: ObjectMeta
  ing_Rules :: "IngressRule list"
  ing_TLS :: "IngressTLS list"

text \<open>A confidential client, for the witnesses.\<close>

definition sample_spec :: AutheliaOAuthClientSpec where
  "sample_spec =
     \<lparr>AutheliaRef = \<lparr>aref_Name = ''sso'', aref_Namespace = ''auth''\<rparr>, ClientID = ''grafana'',
      ClientName = [], Public = False, AuthorizationPolicy = ''two_factor'', ConsentMode = [],
      ClaimsPolicy = [], Lifespan = [], RedirectURIs = [''https://g.example/cb''], Scopes = [],
      GrantTypes = [], ResponseTypes = [], TokenEndpointAuthMethod = [],
      UserinfoSignedResponseAlg = []\<rparr>"

definition sample_oauth :: AutheliaOAuthClient where
  "sample_oauth =
     \<lparr>c_Meta = (new_meta ''grafana'' ''web'')\<lparr>UID := ''u1''\<rparr>, c_Spec = sample_spec,
      c_Status = \<lparr>c_Conditions = [], SecretName = []\<rparr>\<rparr>"

end
