(* ===== verification/Ingress.thy ===== *)
theory Ingress
  imports ApiTypes
begin

text \<open>
  \<open>internal/controller/ingress.go\<close>: access-control rules from Ingress annotations.

  Definitions follow the file from top to bottom. The access rules come out of
  \<open>ingressAccessRules\<close> in annotation-key order and \<open>sortAccessRules\<close> arranges all of them
  by specificity. The lemmas show that a generated rule always names exactly the Ingress
  hosts and an admissible policy, keeps every other field of the annotation, that the
  comparison function is a strict weak ordering (the interpretation \<open>access\<close> of
  \<open>less_order\<close>), and that the final rule list does not depend on the order in which the
  API server lists Ingresses or Go iterates over annotations.
\<close>

definition ruleAnnotation :: string where
  "ruleAnnotation = ''heliop/rule''"

definition validPolicies :: "string \<Rightarrow> bool" where
  "validPolicies p \<longleftrightarrow>
     p = ''bypass'' \<or> p = ''one_factor'' \<or> p = ''two_factor'' \<or> p = ''deny''"

record accessRule =
  ar_resourceLen :: nat
  ar_wildcard :: bool
  ar_key :: string
  ar_rule :: "json smap"

definition isRuleAnnotation :: "string \<Rightarrow> bool" where
  "isRuleAnnotation key \<longleftrightarrow> key = ruleAnnotation \<or> HasPrefix key (ruleAnnotation @ ''-'')"

definition hasRuleAnnotations :: "Ingress \<Rightarrow> bool" where
  "hasRuleAnnotations ing \<longleftrightarrow> list_ex (\<lambda>(k, v). isRuleAnnotation k) (Annotations (ing_Meta ing))"

text \<open>The closure \<open>add\<close> of \<open>ingressDomains\<close>; the list doubles as the \<open>seen\<close> set.\<close>

definition add_domain :: "string list \<Rightarrow> string \<Rightarrow> string list" where
  "add_domain ds h = (if h \<noteq> [] \<and> h \<notin> set ds then ds @ [h] else ds)"

definition ingressDomains :: "Ingress \<Rightarrow> string list" where
  "ingressDomains ing =
     (let ds = foldl add_domain [] (map Host (ing_Rules ing));
          ds' = foldl (\<lambda>ds t. foldl add_domain ds (Hosts t)) ds (ing_TLS ing)
      in sort ds')"

definition toIfaceSlice :: "string list \<Rightarrow> json list" where
  "toIfaceSlice xs = map JStr xs"

definition resourceLen :: "json smap \<Rightarrow> nat" where
  "resourceLen rule =
     (case sm_lookup rule ''resources'' of
        Some (JArr v) \<Rightarrow>
          foldl (\<lambda>mx r. case r of JStr s \<Rightarrow> if length s > mx then length s else mx | _ \<Rightarrow> mx) 0 v
      | Some (JStr v) \<Rightarrow> length v
      | _ \<Rightarrow> 0)"

text \<open>\<open>ing.Annotations[k]\<close>: the zero value for a missing key.\<close>

definition annotationOf :: "Ingress \<Rightarrow> string \<Rightarrow> string" where
  "annotationOf ing k =
     (case map_of (Annotations (ing_Meta ing)) k of Some v \<Rightarrow> v | None \<Rightarrow> [])"

text \<open>\<open>policy, _ := m["policy"].(string)\<close>: the empty string unless a string is there.\<close>

definition rulePolicy :: "gomap \<Rightarrow> string" where
  "rulePolicy m = (case gm_lookup m ''policy'' of Some (JStr p) \<Rightarrow> p | _ \<Rightarrow> [])"

text \<open>
  One iteration of the loop over the annotation keys: \<open>Inr None\<close> is \<open>continue\<close>. The write
  \<open>m["domain"] = ...\<close> panics on a nil map.
\<close>

definition accessRuleFor :: "Ingress \<Rightarrow> string list \<Rightarrow> string \<Rightarrow> accessRule option result" where
  "accessRuleFor ing domains k =
     (case json_Unmarshal (annotationOf ing k) of
        None \<Rightarrow> Inr None
      | Some m \<Rightarrow>
          (if \<not> validPolicies (rulePolicy m) then Inr None
           else (case m of
                   None \<Rightarrow> Inl (Panic ''assignment to entry in nil map'')
                 | Some kvs \<Rightarrow>
                     (let m' = sm_update ''domain'' (JArr (toIfaceSlice domains)) kvs in
                      Inr (Some \<lparr>ar_resourceLen = resourceLen m',
                            ar_wildcard = list_ex (\<lambda>d. HasPrefix d ''*'') domains,
                            ar_key = hd domains @ ''/'' @ Namespace (ing_Meta ing) @ ''/'' @
                              Name (ing_Meta ing) @ ''/'' @ k,
                            ar_rule = m'\<rparr>)))))"

definition ruleKeys :: "Ingress \<Rightarrow> string list" where
  "ruleKeys ing = sort (filter isRuleAnnotation (map fst (Annotations (ing_Meta ing))))"

definition ingressAccessRules :: "Ingress \<Rightarrow> accessRule list result" where
  "ingressAccessRules ing =
     (let domains = ingressDomains ing in
      if domains = [] then Inr []
      else collectR (accessRuleFor ing domains) (ruleKeys ing))"

text \<open>The comparison function of \<open>sortAccessRules\<close>.\<close>

definition accessLess :: "accessRule \<Rightarrow> accessRule \<Rightarrow> bool" where
  "accessLess a b =
     (if ar_resourceLen a \<noteq> ar_resourceLen b then ar_resourceLen a > ar_resourceLen b
      else if ar_wildcard a \<noteq> ar_wildcard b then \<not> ar_wildcard a
      else ar_key a < ar_key b)"

definition sortAccessRules :: "accessRule list \<Rightarrow> accessRule list" where
  "sortAccessRules rules = stable_sort accessLess rules"

section \<open>Domains\<close>

lemma set_foldl_add_domain [simp]: "set (foldl add_domain ds hs) = set ds \<union> (set hs - {[]})"
  by (induction hs arbitrary: ds) (auto simp: add_domain_def)

lemma distinct_foldl_add_domain [simp]: "distinct ds \<Longrightarrow> distinct (foldl add_domain ds hs)"
  by (induction hs arbitrary: ds) (auto simp: add_domain_def)

lemma set_foldl_tls:
  "set (foldl (\<lambda>ds t. foldl add_domain ds (Hosts t)) ds ts) =
   set ds \<union> ((\<Union>t \<in> set ts. set (Hosts t)) - {[]})"
  by (induction ts arbitrary: ds) auto

lemma distinct_foldl_tls:
  "distinct ds \<Longrightarrow> distinct (foldl (\<lambda>ds t. foldl add_domain ds (Hosts t)) ds ts)"
  by (induction ts arbitrary: ds) auto

text \<open>All hosts an Ingress names, in rules and in TLS sections.\<close>

definition ingressHosts :: "Ingress \<Rightarrow> string set" where
  "ingressHosts ing = Host ` set (ing_Rules ing) \<union> (\<Union>t \<in> set (ing_TLS ing). set (Hosts t))"

lemma set_ingressDomains: "set (ingressDomains ing) = ingressHosts ing - {[]}"
  by (auto simp: ingressDomains_def ingressHosts_def set_foldl_tls Let_def)

lemma distinct_ingressDomains: "distinct (ingressDomains ing)"
  by (simp add: ingressDomains_def distinct_foldl_tls)

lemma sorted_ingressDomains: "sorted (ingressDomains ing)"
  by (simp add: ingressDomains_def)

lemma ingressDomains_canonical: "ingressDomains ing = sorted_list_of_set (ingressHosts ing - {[]})"
  by (metis distinct_ingressDomains set_ingressDomains sorted_ingressDomains
      sorted_list_of_set.idem_if_sorted_distinct)

section \<open>Rules of one Ingress\<close>

lemma rulePolicy_nil [simp]: "rulePolicy None = []"
  by (simp add: rulePolicy_def gm_lookup_def)

lemma validPolicies_nonempty: "validPolicies p \<Longrightarrow> p \<noteq> []"
  by (auto simp: validPolicies_def)

lemma validPolicies_rulePolicy:
  "validPolicies (rulePolicy m) \<longleftrightarrow>
   (\<exists>kvs p. m = Some kvs \<and> sm_lookup kvs ''policy'' = Some (JStr p) \<and> validPolicies p)"
  by (auto simp: rulePolicy_def gm_lookup_def dest: validPolicies_nonempty
      split: option.splits json.splits)

text \<open>The rule an annotation value declares, if it declares one.\<close>

definition declaredRule :: "string \<Rightarrow> json smap option" where
  "declaredRule v =
     (case json_Unmarshal v of
        Some (Some kvs) \<Rightarrow> if validPolicies (rulePolicy (Some kvs)) then Some kvs else None
      | _ \<Rightarrow> None)"

definition buildRule :: "Ingress \<Rightarrow> string list \<Rightarrow> string \<Rightarrow> json smap \<Rightarrow> accessRule" where
  "buildRule ing domains k kvs =
     (let m' = sm_update ''domain'' (JArr (map JStr domains)) kvs in
      \<lparr>ar_resourceLen = resourceLen m',
       ar_wildcard = list_ex (\<lambda>d. HasPrefix d ''*'') domains,
       ar_key = hd domains @ ''/'' @ Namespace (ing_Meta ing) @ ''/'' @ Name (ing_Meta ing) @
         ''/'' @ k,
       ar_rule = m'\<rparr>)"

lemma buildRule_sel [simp]:
  "ar_rule (buildRule ing ds k kvs) = sm_update ''domain'' (JArr (map JStr ds)) kvs"
  "ar_key (buildRule ing ds k kvs) =
     hd ds @ ''/'' @ Namespace (ing_Meta ing) @ ''/'' @ Name (ing_Meta ing) @ ''/'' @ k"
  by (simp_all add: buildRule_def Let_def)

lemma accessRuleFor_eq:
  "accessRuleFor ing ds k =
     Inr (map_option (buildRule ing ds k) (declaredRule (annotationOf ing k)))"
  using validPolicies_rulePolicy
  by (auto simp: accessRuleFor_def declaredRule_def buildRule_def toIfaceSlice_def Let_def
      split: option.splits)

lemma ingressAccessRules_eq:
  "ingressAccessRules ing = Inr
     (if ingressDomains ing = [] then []
      else List.map_filter
        (\<lambda>k. map_option (buildRule ing (ingressDomains ing) k) (declaredRule (annotationOf ing k)))
        (ruleKeys ing))"
  by (simp add: ingressAccessRules_def accessRuleFor_eq collectR_total Let_def)

text \<open>The list \<open>ingressAccessRules\<close> returns, which it always does.\<close>

definition rulesOf :: "Ingress \<Rightarrow> accessRule list" where
  "rulesOf ing =
     (if ingressDomains ing = [] then []
      else List.map_filter
        (\<lambda>k. map_option (buildRule ing (ingressDomains ing) k) (declaredRule (annotationOf ing k)))
        (ruleKeys ing))"

lemma ingressAccessRules_rulesOf: "ingressAccessRules ing = Inr (rulesOf ing)"
  by (simp add: ingressAccessRules_eq rulesOf_def)

lemma set_rulesOf:
  "r \<in> set (rulesOf ing) \<longleftrightarrow>
   ingressDomains ing \<noteq> [] \<and>
   (\<exists>k kvs. k \<in> set (ruleKeys ing) \<and> declaredRule (annotationOf ing k) = Some kvs \<and>
      r = buildRule ing (ingressDomains ing) k kvs)"
  by (auto simp: rulesOf_def set_map_filter_iff)

lemma set_ruleKeys:
  "set (ruleKeys ing) = {k. isRuleAnnotation k \<and> k \<in> fst ` set (Annotations (ing_Meta ing))}"
  by (auto simp: ruleKeys_def)

lemma declaredRule_Some:
  "declaredRule v = Some kvs \<longleftrightarrow>
   json_Unmarshal v = Some (Some kvs) \<and>
   (\<exists>p. sm_lookup kvs ''policy'' = Some (JStr p) \<and> validPolicies p)"
  by (auto simp: declaredRule_def validPolicies_rulePolicy split: option.splits)

section \<open>Order\<close>

lemma accessLess_asym: "accessLess a b \<Longrightarrow> \<not> accessLess b a"
  by (auto simp: accessLess_def split: if_splits)

lemma accessLess_negtrans: "accessLess a c \<Longrightarrow> accessLess a b \<or> accessLess b c"
  by (auto simp: accessLess_def split: if_splits)

interpretation access: less_order accessLess
  by unfold_locales (auto dest: accessLess_asym accessLess_negtrans)

lemma accessLess_total: "ar_key a \<noteq> ar_key b \<Longrightarrow> accessLess a b \<or> accessLess b a"
  by (auto simp: accessLess_def)

lemma sortAccessRules_ordered: "ordered_by accessLess (sortAccessRules rs)"
  unfolding sortAccessRules_def by (rule access.ordered_stable_sort)

lemma set_sortAccessRules [simp]: "set (sortAccessRules rs) = set rs"
  by (simp add: sortAccessRules_def)

lemma not_accessLess:
  "\<not> accessLess b a \<longleftrightarrow>
   ar_resourceLen a > ar_resourceLen b \<or>
   ar_resourceLen a = ar_resourceLen b \<and>
     (\<not> ar_wildcard a \<and> ar_wildcard b \<or> ar_wildcard a = ar_wildcard b \<and> ar_key a \<le> ar_key b)"
  by (auto simp: accessLess_def)

section \<open>The rule list does not depend on listing or iteration order\<close>

text \<open>Two observations of one Ingress that differ in the annotation iteration order.\<close>

definition same_ingress :: "Ingress \<Rightarrow> Ingress \<Rightarrow> bool" where
  "same_ingress i j \<longleftrightarrow>
     (\<exists>as. j = i\<lparr>ing_Meta := (ing_Meta i)\<lparr>Annotations := as\<rparr>\<rparr> \<and>
        mset as = mset (Annotations (ing_Meta i)) \<and> distinct (map fst as))"

text \<open>
  Names the API server accepts hold no slash (\<open>metadata.name\<close>, \<open>metadata.namespace\<close> and
  Ingress hosts are DNS names).
\<close>

definition slash_free :: "string \<Rightarrow> bool" where
  "slash_free s \<longleftrightarrow> CHR ''/'' \<notin> set s"

definition plain_ingress :: "Ingress \<Rightarrow> bool" where
  "plain_ingress i \<longleftrightarrow>
     slash_free (Namespace (ing_Meta i)) \<and> slash_free (Name (ing_Meta i)) \<and>
     list_all slash_free (ingressDomains i)"

lemma rulesOf_same_ingress:
  assumes "same_ingress i j"
  shows "rulesOf j = rulesOf i"
proof -
  from assms obtain as where j: "j = i\<lparr>ing_Meta := (ing_Meta i)\<lparr>Annotations := as\<rparr>\<rparr>"
    and as: "mset as = mset (Annotations (ing_Meta i))" and d: "distinct (map fst as)"
    by (auto simp: same_ingress_def)
  have doms: "ingressDomains j = ingressDomains i" by (simp add: j ingressDomains_def)
  have "mset (map fst as) = mset (map fst (Annotations (ing_Meta i)))"
    by (metis as mset_map)
  then have d': "distinct (map fst (Annotations (ing_Meta i)))"
    using d by (metis mset_eq_imp_distinct_iff)
  have "map_of as = map_of (Annotations (ing_Meta i))"
    using as d d' by (metis map_of_eqI map_of_inject_set mset_eq_setD)
  then have ann: "annotationOf j = annotationOf i"
    by (auto simp: annotationOf_def j)
  have keys: "ruleKeys j = ruleKeys i"
    using as unfolding ruleKeys_def j
    by (simp add: properties_for_sort mset_map mset_filter)
  have build: "buildRule j = buildRule i"
    by (simp add: buildRule_def j fun_eq_iff)
  show ?thesis
    unfolding rulesOf_def doms ann keys build by (rule refl)
qed

lemma slash_split:
  assumes "slash_free a" and "slash_free b" and "a @ ''/'' @ x = b @ ''/'' @ y"
  shows "a = b \<and> x = y"
  using assms split_at_first[of "CHR ''/''" a b x y] by (simp add: slash_free_def)

lemma ar_key_unique:
  assumes "plain_ingress i" and "plain_ingress j"
    and "r \<in> set (rulesOf i)" and "r' \<in> set (rulesOf j)"
    and key: "ar_key r = ar_key r'"
    and uniq: "meta_key (ing_Meta i) = meta_key (ing_Meta j) \<Longrightarrow> i = j"
  shows "r = r'"
proof -
  obtain k kvs where k: "ingressDomains i \<noteq> []" "declaredRule (annotationOf i k) = Some kvs"
      "r = buildRule i (ingressDomains i) k kvs"
    using assms(3) by (auto simp: set_rulesOf)
  obtain k' kvs' where k': "ingressDomains j \<noteq> []" "declaredRule (annotationOf j k') = Some kvs'"
      "r' = buildRule j (ingressDomains j) k' kvs'"
    using assms(4) by (auto simp: set_rulesOf)
  have free: "slash_free (hd (ingressDomains i))" "slash_free (hd (ingressDomains j))"
    using assms(1,2) k(1) k'(1) by (simp_all add: plain_ingress_def list_all_iff)
  note plain = assms(1,2)[unfolded plain_ingress_def]
  from key k(3) k'(3) have "hd (ingressDomains i) @ ''/'' @ Namespace (ing_Meta i) @ ''/'' @
        Name (ing_Meta i) @ ''/'' @ k =
      hd (ingressDomains j) @ ''/'' @ Namespace (ing_Meta j) @ ''/'' @ Name (ing_Meta j) @ ''/'' @ k'"
    by simp
  from slash_split[OF free this]
  have "Namespace (ing_Meta i) @ ''/'' @ Name (ing_Meta i) @ ''/'' @ k =
      Namespace (ing_Meta j) @ ''/'' @ Name (ing_Meta j) @ ''/'' @ k'"
    by (rule conjunct2)
  from slash_split[OF _ _ this] plain
  have ns: "Namespace (ing_Meta i) = Namespace (ing_Meta j)"
    and "Name (ing_Meta i) @ ''/'' @ k = Name (ing_Meta j) @ ''/'' @ k'"
    by simp_all
  from slash_split[OF _ _ this(2)] plain
  have "Name (ing_Meta i) = Name (ing_Meta j)" and "k = k'"
    by simp_all
  then have "i = j" using uniq ns by (simp add: meta_key_def)
  then show ?thesis using k k' \<open>k = k'\<close> by simp
qed

lemma concat_map_mset_cong:
  "mset xs = mset ys \<Longrightarrow> mset (concat (map f xs)) = mset (concat (map f ys))"
proof -
  have "mset (concat (map f zs)) = (\<Sum>z \<in># mset zs. mset (f z))" for zs
    by (induction zs) simp_all
  then show "mset xs = mset ys \<Longrightarrow> mset (concat (map f xs)) = mset (concat (map f ys))"
    by simp
qed

lemma sorted_rules_perm:
  assumes "mset ings = mset ings'" and "list_all plain_ingress ings"
    and "distinct (map (meta_key \<circ> ing_Meta) ings)"
  shows "sortAccessRules (concat (map rulesOf ings)) = sortAccessRules (concat (map rulesOf ings'))"
  unfolding sortAccessRules_def
proof (rule access.stable_sort_mset_cong)
  show "mset (concat (map rulesOf ings)) = mset (concat (map rulesOf ings'))"
    using assms(1) by (rule concat_map_mset_cong)
next
  fix r r'
  assume "r \<in> set (concat (map rulesOf ings))" and "r' \<in> set (concat (map rulesOf ings))"
    and ne: "r \<noteq> r'"
  then obtain i j where i: "i \<in> set ings" "r \<in> set (rulesOf i)" and j: "j \<in> set ings" "r' \<in> set (rulesOf j)"
    by auto
  have "i = j" if "meta_key (ing_Meta i) = meta_key (ing_Meta j)"
    using assms(3) i(1) j(1) that by (auto simp: distinct_map inj_on_def)
  with assms(2) i j ne have "ar_key r \<noteq> ar_key r'"
    using ar_key_unique[of i j r r'] by (auto simp: list_all_iff)
  then show "accessLess r r' \<or> accessLess r' r" by (rule accessLess_total)
qed

section \<open>Resource patterns\<close>

definition resourcePatterns :: "json smap \<Rightarrow> string set" where
  "resourcePatterns rule =
     (case sm_lookup rule ''resources'' of
        Some (JArr v) \<Rightarrow> {s. JStr s \<in> set v}
      | Some (JStr s) \<Rightarrow> {s}
      | _ \<Rightarrow> {})"

lemma finite_strings [simp]: "finite {s. JStr s \<in> set v}"
  by (rule finite_imageD[of JStr]) (auto intro: finite_subset[of _ "set v"] inj_onI)

lemma Max_insert_insert:
  "finite A \<Longrightarrow> Max (insert n (insert m A)) = Max (insert (if m > n then m else n) A)" for n m :: nat
  by (cases "A = {}") (auto simp: max_def)

lemma foldl_longest:
  "foldl (\<lambda>mx r. case r of JStr s \<Rightarrow> if length s > mx then length s else mx | _ \<Rightarrow> mx) n v =
   Max (insert n (length ` {s. JStr s \<in> set v}))"
proof (induction v arbitrary: n)
  case (Cons x v)
  show ?case
  proof (cases "\<exists>s. x = JStr s")
    case True
    then obtain s where x: "x = JStr s" by blast
    then have "{t. JStr t \<in> set (x # v)} = insert s {t. JStr t \<in> set v}" by auto
    then have "length ` {t. JStr t \<in> set (x # v)} = insert (length s) (length ` {t. JStr t \<in> set v})"
      by simp
    then show ?thesis
      using x Max_insert_insert[of "length ` {t. JStr t \<in> set v}" n "length s"] by (simp add: Cons.IH)
  next
    case False
    then have "{t. JStr t \<in> set (x # v)} = {t. JStr t \<in> set v}" by auto
    with False show ?thesis by (simp add: Cons.IH split: json.split)
  qed
qed simp

section \<open>Properties\<close>

text \<open>A sample Ingress with two rule annotations, listed out of order, for the witnesses.\<close>

definition quoted :: "string \<Rightarrow> string" where
  "quoted s = [ch_quote] @ s @ [ch_quote]"

definition sample_ingress :: Ingress where
  "sample_ingress =
     \<lparr>ing_Meta = (new_meta ''grafana'' ''web'')\<lparr>Annotations :=
        [(''heliop/rule-1'', ''{'' @ quoted ''policy'' @ '':'' @ quoted ''bypass'' @ '','' @
            quoted ''resources'' @ '':['' @ quoted ''^/health$'' @ '']}''),
         (''other'', ''x''),
         (''heliop/rule'', ''{'' @ quoted ''policy'' @ '':'' @ quoted ''deny'' @ '', '' @
            quoted ''domain'' @ '':'' @ quoted ''evil.example'' @ ''}'')]\<rparr>,
      ing_Rules = [\<lparr>Host = ''g.example''\<rparr>],
      ing_TLS = [\<lparr>Hosts = [''g.example'', ''*.alt.example'']\<rparr>]\<rparr>"

definition sample_rule :: accessRule where
  "sample_rule =
     \<lparr>ar_resourceLen = 0, ar_wildcard = True, ar_key = ''*.alt.example/web/grafana/heliop/rule'',
      ar_rule = [(''domain'', JArr [JStr ''*.alt.example'', JStr ''g.example'']),
                 (''policy'', JStr ''deny'')]\<rparr>"

definition sample_rule_1 :: accessRule where
  "sample_rule_1 =
     \<lparr>ar_resourceLen = 9, ar_wildcard = True, ar_key = ''*.alt.example/web/grafana/heliop/rule-1'',
      ar_rule = [(''domain'', JArr [JStr ''*.alt.example'', JStr ''g.example'']),
                 (''policy'', JStr ''bypass''), (''resources'', JArr [JStr ''^/health$''])]\<rparr>"

lemma sample_ingress_rules:
  "ingressAccessRules sample_ingress = Inr [sample_rule, sample_rule_1]"
  by code_simp

text \<open>The domains of an Ingress are exactly its non-empty hosts, from the rules and from
  the TLS sections, without duplicates and in ascending order.\<close>

theorem ingressDomains_spec:
  "set (ingressDomains ing) =
     (Host ` set (ing_Rules ing) \<union> (\<Union>t \<in> set (ing_TLS ing). set (Hosts t))) - {[]} \<and>
   distinct (ingressDomains ing) \<and> sorted (ingressDomains ing)"
  using set_ingressDomains[of ing]
  by (simp add: ingressHosts_def distinct_ingressDomains sorted_ingressDomains)

text \<open>C23: \<open>ingressAccessRules\<close> never panics, and every rule it generates has as its domain
  exactly the Ingress hosts, whatever the annotation says, has one of the four admissible
  policies, and carries every other field of the annotation unchanged.\<close>

theorem generated_rule_shape:
  assumes "ingressAccessRules ing = Inr rs" and "r \<in> set rs"
  shows "sm_lookup (ar_rule r) ''domain'' = Some (JArr (map JStr (ingressDomains ing))) \<and>
    ingressDomains ing \<noteq> [] \<and>
    (\<exists>p. sm_lookup (ar_rule r) ''policy'' = Some (JStr p) \<and> validPolicies p) \<and>
    (\<exists>k v kvs. (k, v) \<in> set (Annotations (ing_Meta ing)) \<and> isRuleAnnotation k \<and>
       json_Unmarshal (annotationOf ing k) = Some (Some kvs) \<and>
       (\<forall>f. f \<noteq> ''domain'' \<longrightarrow> sm_lookup (ar_rule r) f = sm_lookup kvs f))"
proof -
  from assms obtain k v kvs p where k: "ingressDomains ing \<noteq> []" "isRuleAnnotation k"
      "(k, v) \<in> set (Annotations (ing_Meta ing))"
      "json_Unmarshal (annotationOf ing k) = Some (Some kvs)"
      "sm_lookup kvs ''policy'' = Some (JStr p)" "validPolicies p"
      and r: "r = buildRule ing (ingressDomains ing) k kvs"
    by (auto simp: ingressAccessRules_rulesOf set_rulesOf set_ruleKeys declaredRule_Some)
  have "\<forall>f. f \<noteq> ''domain'' \<longrightarrow> sm_lookup (ar_rule r) f = sm_lookup kvs f"
    by (simp add: r)
  with k show ?thesis
    by (intro conjI) (auto simp: r)
qed

theorem generated_rule_shape_witness:
  "ingressAccessRules sample_ingress = Inr [sample_rule, sample_rule_1] \<and>
   sm_lookup (ar_rule sample_rule) ''domain'' =
     Some (JArr (map JStr (ingressDomains sample_ingress)))"
  using generated_rule_shape[OF sample_ingress_rules, of sample_rule] sample_ingress_rules by simp

text \<open>C24: Conversely, no declared rule is lost: on an Ingress with at least one host, every
  annotation whose key is \<open>heliop/rule\<close> or \<open>heliop/rule-...\<close> and whose value is a JSON
  object with an admissible policy yields a rule. \<open>ingressAccessRules\<close> returns normally
  on every Ingress.\<close>

theorem declared_rule_generated:
  assumes "k \<in> fst ` set (Annotations (ing_Meta ing))" and "isRuleAnnotation k"
    and "json_Unmarshal (annotationOf ing k) = Some (Some kvs)"
    and "sm_lookup kvs ''policy'' = Some (JStr p)" and "validPolicies p"
    and "ingressDomains ing \<noteq> []"
  shows "\<exists>rs. ingressAccessRules ing = Inr rs \<and>
    (\<exists>r \<in> set rs. ar_rule r = sm_update ''domain'' (JArr (map JStr (ingressDomains ing))) kvs \<and>
       ar_key r = hd (ingressDomains ing) @ ''/'' @ Namespace (ing_Meta ing) @ ''/'' @
         Name (ing_Meta ing) @ ''/'' @ k)"
proof -
  have "buildRule ing (ingressDomains ing) k kvs \<in> set (rulesOf ing)"
    using assms by (auto simp: set_rulesOf set_ruleKeys declaredRule_Some)
  then show ?thesis
    by (auto simp: ingressAccessRules_rulesOf intro!: bexI[of _ "buildRule ing (ingressDomains ing) k kvs"])
qed

theorem declared_rule_generated_witness:
  "\<exists>rs. ingressAccessRules sample_ingress = Inr rs \<and>
    (\<exists>r \<in> set rs. sm_lookup (ar_rule r) ''policy'' = Some (JStr ''deny''))"
proof -
  have h: "''heliop/rule'' \<in> fst ` set (Annotations (ing_Meta sample_ingress))"
    "isRuleAnnotation ''heliop/rule''"
    "json_Unmarshal (annotationOf sample_ingress ''heliop/rule'') =
       Some (Some [(''domain'', JStr ''evil.example''), (''policy'', JStr ''deny'')])"
    "validPolicies ''deny''" "ingressDomains sample_ingress \<noteq> []"
    by (simp add: sample_ingress_def new_meta_def) code_simp+
  obtain rs r where "ingressAccessRules sample_ingress = Inr rs" and "r \<in> set rs"
    and "ar_rule r = sm_update ''domain'' (JArr (map JStr (ingressDomains sample_ingress)))
       [(''domain'', JStr ''evil.example''), (''policy'', JStr ''deny'')]"
    using declared_rule_generated[OF h(1,2,3) _ h(4,5)] by auto
  then show ?thesis by (intro exI[of _ rs] conjI bexI[of _ r]) simp_all
qed

text \<open>Opting in is explicit: an Ingress without a rule annotation contributes no access
  rule, whatever its other annotations are.\<close>

theorem no_annotation_no_rules:
  assumes "\<not> hasRuleAnnotations ing"
  shows "ingressAccessRules ing = Inr []"
proof -
  have "set (ruleKeys ing) = {}"
    using assms by (auto simp: set_ruleKeys hasRuleAnnotations_def list_ex_iff)
  then show ?thesis by (simp add: ingressAccessRules_def Let_def)
qed

theorem no_annotation_no_rules_witness:
  "ingressAccessRules (sample_ingress\<lparr>ing_Meta := new_meta ''a'' ''b''\<rparr>) = Inr []"
  by (rule no_annotation_no_rules) (simp add: hasRuleAnnotations_def new_meta_def)

text \<open>C21: \<open>sortAccessRules\<close> rearranges the rules and puts them into specificity order:
  an earlier rule has a longer resource pattern, or an equally long one and an exact
  host against a wildcard, or ties on both and has the smaller key; rules that tie on
  everything keep their order.\<close>

theorem sortAccessRules_correct:
  "mset (sortAccessRules rs) = mset rs \<and>
   sorted_wrt (\<lambda>a b. ar_resourceLen a > ar_resourceLen b \<or>
     ar_resourceLen a = ar_resourceLen b \<and>
       (\<not> ar_wildcard a \<and> ar_wildcard b \<or> ar_wildcard a = ar_wildcard b \<and> ar_key a \<le> ar_key b))
     (sortAccessRules rs) \<and>
   filter (\<lambda>b. ar_resourceLen b = n \<and> ar_wildcard b = w \<and> ar_key b = k) (sortAccessRules rs) =
   filter (\<lambda>b. ar_resourceLen b = n \<and> ar_wildcard b = w \<and> ar_key b = k) rs"
proof -
  define x where "x = \<lparr>ar_resourceLen = n, ar_wildcard = w, ar_key = k, ar_rule = []\<rparr>"
  have tie: "(\<lambda>b. \<not> accessLess x b \<and> \<not> accessLess b x) =
      (\<lambda>b. ar_resourceLen b = n \<and> ar_wildcard b = w \<and> ar_key b = k)"
    by (auto simp: accessLess_def x_def fun_eq_iff)
  show ?thesis
    using sortAccessRules_ordered[of rs] access.stable_sort_stable[of x rs]
    unfolding tie by (simp add: ordered_by_def not_accessLess sortAccessRules_def)
qed

text \<open>C22: Authelia applies the first rule that matches a request. For any way of matching, the
  rule selected from the sorted list is a most specific one among all matching rules: no
  matching rule has a longer resource pattern, and among those with an equally long
  pattern an exact host wins over a wildcard.\<close>

theorem first_match_most_specific:
  assumes "find matches (sortAccessRules rs) = Some r" and "r' \<in> set rs" and "matches r'"
  shows "ar_resourceLen r' \<le> ar_resourceLen r \<and>
    (ar_resourceLen r' = ar_resourceLen r \<longrightarrow> ar_wildcard r \<longrightarrow> ar_wildcard r')"
proof -
  have "\<not> accessLess r' r"
    using access.find_least[OF sortAccessRules_ordered assms(1)] assms(2,3) by simp
  then show ?thesis by (auto simp: not_accessLess)
qed

theorem first_match_most_specific_witness:
  "find (\<lambda>r. True) (sortAccessRules [sample_rule, sample_rule_1]) = Some sample_rule_1 \<and>
   ar_resourceLen sample_rule \<le> ar_resourceLen sample_rule_1"
proof -
  have h: "find (\<lambda>r. True) (sortAccessRules [sample_rule, sample_rule_1]) = Some sample_rule_1"
    by code_simp
  show ?thesis
    using h first_match_most_specific[OF h, of sample_rule] by simp
qed

text \<open>The length that ranks a rule is that of the longest of its resource patterns, 0 when
  there is none; the patterns are the strings in a list under \<open>resources\<close>, or the one
  string found there, and values of other types are not counted.\<close>

theorem resourceLen_spec:
  "resourceLen rule = Max (insert 0 (length ` resourcePatterns rule))"
  by (auto simp: resourceLen_def resourcePatterns_def foldl_longest split: option.splits json.splits)

end
