(* ===== verification/Resources.thy ===== *)
theory Resources
  imports ApiTypes
begin

text \<open>
  \<open>internal/controller/resources.go\<close> and \<open>coreSecretName\<close> of \<open>secrets.go\<close>: the desired
  Kubernetes objects of one Authelia instance, as pure functions of the resource.

  Definitions follow the file. The lemmas are about the Pod the operator asks for: volume
  names are DNS labels, every mount refers to a volume, every secret path handed to
  Authelia lies under a mount, the Service selects the Pods, and the data volume agrees
  with the claim the operator creates.
\<close>

abbreviation authName :: "Authelia \<Rightarrow> string" where
  "authName a \<equiv> Name (a_Meta a)"

abbreviation authNamespace :: "Authelia \<Rightarrow> string" where
  "authNamespace a \<equiv> Namespace (a_Meta a)"

definition configMapName :: "Authelia \<Rightarrow> string" where
  "configMapName a = authName a @ ''-config''"

definition dataPVCName :: "Authelia \<Rightarrow> string" where
  "dataPVCName a = authName a @ ''-data''"

definition coreSecretName :: "Authelia \<Rightarrow> string" where
  "coreSecretName a =
     (if ExistingSecret (Deployment (a_Spec a)) \<noteq> [] then ExistingSecret (Deployment (a_Spec a))
      else authName a @ ''-secrets'')"

definition labelsFor :: "Authelia \<Rightarrow> strmap" where
  "labelsFor a =
     [''app.kubernetes.io/name'' \<mapsto> ''authelia'',
      ''app.kubernetes.io/instance'' \<mapsto> authName a,
      ''app.kubernetes.io/managed-by'' \<mapsto> ''heliop'']"

definition selectorFor :: "Authelia \<Rightarrow> strmap" where
  "selectorFor a =
     [''app.kubernetes.io/name'' \<mapsto> ''authelia'',
      ''app.kubernetes.io/instance'' \<mapsto> authName a]"

text \<open>
  \<open>buildDataPVC\<close> dereferences the volume claim template; a nil template panics.
\<close>

definition buildDataPVC :: "Authelia \<Rightarrow> PersistentVolumeClaim result" where
  "buildDataPVC a =
     (case VolumeClaimTemplate (Deployment (a_Spec a)) of
        None \<Rightarrow> Inl (Panic ''nil pointer dereference'')
      | Some spec \<Rightarrow>
          Inr \<lparr>pvc_Meta = (new_meta (dataPVCName a) (authNamespace a))\<lparr>Labels := Some (labelsFor a)\<rparr>,
               pvc_Spec = spec\<rparr>)"

definition fileBackendMountPath :: string where
  "fileBackendMountPath = ''/authelia/file-backend''"

definition secretsMountBase :: string where
  "secretsMountBase = ''/authelia/secrets''"

definition fileUsersPath :: "SecretKeyRef \<Rightarrow> string" where
  "fileUsersPath ref = fileBackendMountPath @ ''/'' @ ref_Key ref"

definition isFileSecret :: "string \<Rightarrow> bool" where
  "isFileSecret envName \<longleftrightarrow> HasSuffix envName ''_FILE''"

text \<open>The character the loop of \<open>secretVolumeName\<close> appends for a rune.\<close>

definition volumeChar :: "nat \<Rightarrow> char" where
  "volumeChar r =
     (if (97 \<le> r \<and> r \<le> 122) \<or> (48 \<le> r \<and> r \<le> 57) then char_of_nat r else CHR ''-'')"

definition secretVolumeName :: "string \<Rightarrow> string" where
  "secretVolumeName envName =
     (let b = map volumeChar (ToLower_runes envName);
          name = Trim1 b (CHR ''-'')
      in if length name > 63 then Trim1 (take 63 name) (CHR ''-'') else name)"

definition secretMountPath :: "string \<Rightarrow> string" where
  "secretMountPath envName = secretsMountBase @ ''/'' @ secretVolumeName envName"

definition defaultResources :: ResourceRequirements where
  "defaultResources =
     \<lparr>Requests = Some [''cpu'' \<mapsto> ''10m'', ''memory'' \<mapsto> ''50Mi''],
      Limits = Some [''memory'' \<mapsto> ''200Mi'']\<rparr>"

definition buildConfigMap :: "Authelia \<Rightarrow> string \<Rightarrow> ConfigMap" where
  "buildConfigMap a renderedConfig =
     \<lparr>cm_Meta = (new_meta (configMapName a) (authNamespace a))\<lparr>Labels := Some (labelsFor a)\<rparr>,
      cm_Data = [''configuration.yaml'' \<mapsto> renderedConfig]\<rparr>"

definition buildService :: "Authelia \<Rightarrow> Service" where
  "buildService a =
     \<lparr>svc_Meta = (new_meta (authName a) (authNamespace a))\<lparr>Labels := Some (labelsFor a)\<rparr>,
      svc_Type = ''ClusterIP'',
      svc_Selector = selectorFor a,
      svc_Ports = [\<lparr>sp_Name = ''http'', sp_Protocol = ''TCP'', sp_Port = 80, sp_TargetPort = ''http''\<rparr>],
      svc_ClusterIP = []\<rparr>"

definition plainEnv :: "string \<Rightarrow> string \<Rightarrow> EnvVar" where
  "plainEnv n v = \<lparr>ev_Name = n, ev_Value = v, ev_ValueFrom = None\<rparr>"

text \<open>The environment entry of one \<open>settings.secrets\<close> element; \<open>None\<close> is \<open>continue\<close>.\<close>

definition secretEnv :: "AutheliaSecret \<Rightarrow> EnvVar option" where
  "secretEnv s =
     (case env_Secret s of
        None \<Rightarrow> None
      | Some ref \<Rightarrow>
          Some (if isFileSecret (env_Name s)
                then plainEnv (env_Name s) (secretMountPath (env_Name s) @ ''/'' @ ref_Key ref)
                else \<lparr>ev_Name = env_Name s, ev_Value = [],
                      ev_ValueFrom = Some \<lparr>evs_Name = ref_Name ref, evs_Key = ref_Key ref\<rparr>\<rparr>))"

definition autheliaFileEnv :: "AutheliaSettings \<Rightarrow> bool \<Rightarrow> EnvVar list" where
  "autheliaFileEnv settings oidcEnabled =
     [plainEnv ''AUTHELIA_SERVER_DISABLE_HEALTHCHECK'' ''true'',
      plainEnv ''AUTHELIA_SESSION_SECRET_FILE'' ''/secrets/SESSION_ENCRYPTION_KEY'',
      plainEnv ''AUTHELIA_STORAGE_ENCRYPTION_KEY_FILE'' ''/secrets/STORAGE_ENCRYPTION_KEY''] @
     (if oidcEnabled then
        [plainEnv ''AUTHELIA_IDENTITY_PROVIDERS_OIDC_HMAC_SECRET_FILE'' ''/secrets/OIDC_HMAC_SECRET'',
         plainEnv ''AUTHELIA_IDENTITY_PROVIDERS_OIDC_ISSUER_PRIVATE_KEY_FILE''
           ''/secrets/OIDC_PRIVATE_KEY'']
      else []) @
     List.map_filter secretEnv (Secrets settings)"

text \<open>The closure \<open>probe\<close> of \<open>buildDeployment\<close>.\<close>

definition probe :: "int32 \<Rightarrow> int32 \<Rightarrow> Probe" where
  "probe initialDelay period =
     \<lparr>pr_Path = ''/api/health'', pr_Port = ''http'', pr_Scheme = ''HTTP'',
      pr_InitialDelaySeconds = initialDelay, pr_PeriodSeconds = period,
      pr_TimeoutSeconds = 5, pr_SuccessThreshold = 1, pr_FailureThreshold = 5\<rparr>"

definition dataVolume :: "Authelia \<Rightarrow> VolumeSource" where
  "dataVolume a =
     (if VolumeClaimTemplate (Deployment (a_Spec a)) \<noteq> None then ClaimVolume (dataPVCName a)
      else EmptyDir)"

text \<open>The volume and the mount of one \<open>settings.secrets\<close> element; \<open>None\<close> is \<open>continue\<close>.\<close>

definition secretVolume :: "AutheliaSecret \<Rightarrow> (Volume \<times> VolumeMount) option" where
  "secretVolume s =
     (case env_Secret s of
        None \<Rightarrow> None
      | Some ref \<Rightarrow>
          (if \<not> isFileSecret (env_Name s) then None
           else Some
             (\<lparr>vol_Name = secretVolumeName (env_Name s), vol_Source = SecretVolume (ref_Name ref)\<rparr>,
              \<lparr>vm_Name = secretVolumeName (env_Name s), vm_MountPath = secretMountPath (env_Name s),
               vm_SubPath = [], vm_ReadOnly = True\<rparr>)))"

definition podVolumes :: "Authelia \<Rightarrow> Volume list" where
  "podVolumes a =
     [\<lparr>vol_Name = ''authelia-secret'', vol_Source = SecretVolume (coreSecretName a)\<rparr>,
      \<lparr>vol_Name = ''config'', vol_Source = ConfigMapVolume (configMapName a)\<rparr>,
      \<lparr>vol_Name = ''data'', vol_Source = dataVolume a\<rparr>] @
     (case FileUsersSecret (Settings (a_Spec a)) of
        None \<Rightarrow> []
      | Some ref \<Rightarrow> [\<lparr>vol_Name = ''file-backend'', vol_Source = SecretVolume (ref_Name ref)\<rparr>]) @
     map fst (List.map_filter secretVolume (Secrets (Settings (a_Spec a))))"

definition mainMounts :: "Authelia \<Rightarrow> VolumeMount list" where
  "mainMounts a =
     [\<lparr>vm_Name = ''config'', vm_MountPath = ''/configuration.yaml'',
       vm_SubPath = ''configuration.yaml'', vm_ReadOnly = True\<rparr>,
      \<lparr>vm_Name = ''authelia-secret'', vm_MountPath = ''/secrets'', vm_SubPath = [],
       vm_ReadOnly = True\<rparr>,
      \<lparr>vm_Name = ''data'', vm_MountPath = ''/data'', vm_SubPath = [], vm_ReadOnly = False\<rparr>] @
     (case FileUsersSecret (Settings (a_Spec a)) of
        None \<Rightarrow> []
      | Some ref \<Rightarrow>
          [\<lparr>vm_Name = ''file-backend'', vm_MountPath = fileBackendMountPath, vm_SubPath = [],
            vm_ReadOnly = True\<rparr>]) @
     map snd (List.map_filter secretVolume (Secrets (Settings (a_Spec a))))"

definition buildDeployment :: "Authelia \<Rightarrow> bool \<Rightarrow> string \<Rightarrow> DeploymentObj" where
  "buildDeployment a oidcEnabled configChecksum =
     (let d = Deployment (a_Spec a);
          replicas = (case Replicas d of Some n \<Rightarrow> n | None \<Rightarrow> 2);
          image = (if Image d = [] then ''ghcr.io/authelia/authelia:4'' else Image d);
          pullPolicy = (if ImagePullPolicy d = [] then ''IfNotPresent'' else ImagePullPolicy d);
          resources = (if Requests (Resources d) = None \<and> Limits (Resources d) = None
                       then defaultResources else Resources d);
          startup = (probe 10 5)\<lparr>pr_FailureThreshold := 6\<rparr>
      in \<lparr>d_Meta = (new_meta (authName a) (authNamespace a))\<lparr>Labels := Some (labelsFor a)\<rparr>,
          d_Spec =
            \<lparr>ds_Replicas = Some replicas,
             ds_RevisionHistoryLimit = Some 1,
             ds_Selector = selectorFor a,
             ds_Template =
               \<lparr>pod_Labels = selectorFor a,
                pod_Annotations = [''heliop.snosr.se/config-checksum'' \<mapsto> configChecksum],
                pod_EnableServiceLinks = Some False,
                pod_Containers =
                  [\<lparr>ct_Name = ''authelia'', ct_Image = image, ct_ImagePullPolicy = pullPolicy,
                    ct_Command = [''authelia''], ct_Args = [''--config=/configuration.yaml''],
                    ct_Env = autheliaFileEnv (Settings (a_Spec a)) oidcEnabled,
                    ct_Resources = resources,
                    ct_Ports = [\<lparr>cp_Name = ''http'', cp_ContainerPort = 9091, cp_Protocol = ''TCP''\<rparr>],
                    ct_StartupProbe = startup,
                    ct_LivenessProbe = probe 0 30,
                    ct_ReadinessProbe = probe 0 5,
                    ct_VolumeMounts = mainMounts a\<rparr>],
                pod_Volumes = podVolumes a\<rparr>\<rparr>,
          d_ReadyReplicas = 0\<rparr>)"

section \<open>Volume names\<close>

definition dns_char :: "char \<Rightarrow> bool" where
  "dns_char c \<longleftrightarrow>
     (97 \<le> (byte_of c :: nat) \<and> (byte_of c :: nat) \<le> 122) \<or>
     (48 \<le> (byte_of c :: nat) \<and> (byte_of c :: nat) \<le> 57) \<or> c = CHR ''-''"

text \<open>An RFC 1123 label, as the API server requires of a volume name.\<close>

definition dns_label :: "string \<Rightarrow> bool" where
  "dns_label s \<longleftrightarrow>
     s \<noteq> [] \<and> length s \<le> 63 \<and> list_all dns_char s \<and> hd s \<noteq> CHR ''-'' \<and> last s \<noteq> CHR ''-''"

lemma dns_char_volumeChar: "dns_char (volumeChar r)"
  by (auto simp: dns_char_def volumeChar_def)

lemma set_secretVolumeName: "set (secretVolumeName n) \<subseteq> volumeChar ` set (ToLower_runes n)"
  using Trim1_set[of "map volumeChar (ToLower_runes n)" "CHR ''-''"]
    Trim1_set[of "take 63 (Trim1 (map volumeChar (ToLower_runes n)) (CHR ''-''))" "CHR ''-''"]
    set_take_subset[of 63 "Trim1 (map volumeChar (ToLower_runes n)) (CHR ''-'')"]
  by (auto simp: secretVolumeName_def Let_def split: if_splits)

lemma length_secretVolumeName: "length (secretVolumeName n) \<le> 63"
  using Trim1_length[of "take 63 (Trim1 (map volumeChar (ToLower_runes n)) (CHR ''-''))" "CHR ''-''"]
  by (auto simp: secretVolumeName_def Let_def)

lemma secretVolumeName_ends:
  "secretVolumeName n \<noteq> [] \<Longrightarrow>
   hd (secretVolumeName n) \<noteq> CHR ''-'' \<and> last (secretVolumeName n) \<noteq> CHR ''-''"
  by (auto simp: secretVolumeName_def Let_def Trim1_ends split: if_splits)

lemma secretVolumeName_nonempty:
  assumes "c \<in> set n" and "byte_of c < (128 :: nat)"
    and "volumeChar (lower_rune (byte_of c)) \<noteq> CHR ''-''"
  shows "secretVolumeName n \<noteq> []"
proof -
  let ?b = "map volumeChar (ToLower_runes n)"
  let ?name = "Trim1 ?b (CHR ''-'')"
  have "volumeChar (lower_rune (byte_of c)) \<in> set ?b"
    using ascii_in_runes[OF assms(1,2)] by (auto simp: ToLower_runes_def)
  with assms(3) have ne: "?name \<noteq> []" unfolding Trim1_empty by auto
  then have "hd ?name \<noteq> CHR ''-''" by (rule Trim1_ends)
  moreover have "hd ?name \<in> set (take 63 ?name)" using ne by (cases ?name) auto
  ultimately have "Trim1 (take 63 ?name) (CHR ''-'') \<noteq> []" unfolding Trim1_empty by auto
  with ne show ?thesis by (simp add: secretVolumeName_def Let_def)
qed

lemma isFileSecret_E: "isFileSecret n \<Longrightarrow> CHR ''E'' \<in> set n"
  by (auto simp: isFileSecret_def go_string_simps suffix_def)

text \<open>
  The names Authelia documents for its variables: upper-case letters, digits and
  underscores, not starting with an underscore, at most 63 characters, ending in \<open>_FILE\<close>.
\<close>

definition env_char :: "char \<Rightarrow> bool" where
  "env_char c \<longleftrightarrow>
     (65 \<le> (byte_of c :: nat) \<and> (byte_of c :: nat) \<le> 90) \<or>
     (48 \<le> (byte_of c :: nat) \<and> (byte_of c :: nat) \<le> 57) \<or> c = CHR ''_''"

definition conventional :: "string \<Rightarrow> bool" where
  "conventional n \<longleftrightarrow>
     isFileSecret n \<and> length n \<le> 63 \<and> list_all env_char n \<and> hd n \<noteq> CHR ''_''"

definition envVolumeChar :: "char \<Rightarrow> char" where
  "envVolumeChar c = volumeChar (lower_rune (byte_of c))"

lemma byte_volumeChar:
  "byte_of (volumeChar r) =
     (if (97 \<le> r \<and> r \<le> 122) \<or> (48 \<le> r \<and> r \<le> 57) then r else 45)"
  by (auto simp: volumeChar_def)

lemma byte_envVolumeChar:
  "env_char c \<Longrightarrow>
   byte_of (envVolumeChar c) =
     (if 65 \<le> (byte_of c :: nat) \<and> byte_of c \<le> (90 :: nat) then byte_of c + 32
      else if byte_of c \<le> (57 :: nat) then byte_of c else (45 :: nat))"
  by (auto simp: env_char_def envVolumeChar_def byte_volumeChar lower_rune_def)

lemma env_char_cases:
  "env_char c \<Longrightarrow> byte_of c = (95 :: nat) \<or> 65 \<le> (byte_of c :: nat) \<and> byte_of c \<le> (90 :: nat) \<or>
     48 \<le> (byte_of c :: nat) \<and> byte_of c \<le> (57 :: nat)"
  by (auto simp: env_char_def)

lemma envVolumeChar_dash:
  assumes "env_char c" and "envVolumeChar c = CHR ''-''"
  shows "c = CHR ''_''"
proof -
  have "byte_of (envVolumeChar c) = (45 :: nat)" using assms(2) by simp
  then have "byte_of c = (byte_of (CHR ''_'') :: nat)"
    using byte_envVolumeChar[OF assms(1)] env_char_cases[OF assms(1)] by (auto split: if_splits)
  then show ?thesis by (simp only: of_char_eq_iff)
qed

lemma envVolumeChar_inj:
  assumes "env_char c" and "env_char d" and "envVolumeChar c = envVolumeChar d"
  shows "c = d"
proof -
  have "byte_of (envVolumeChar c) = (byte_of (envVolumeChar d) :: nat)" using assms(3) by simp
  then have "byte_of c = (byte_of d :: nat)"
    using byte_envVolumeChar[OF assms(1)] byte_envVolumeChar[OF assms(2)]
      env_char_cases[OF assms(1)] env_char_cases[OF assms(2)]
    by (auto simp del: of_char_eq_iff split: if_splits)
  then show ?thesis by (simp only: of_char_eq_iff)
qed

lemma secretVolumeName_conventional:
  assumes "conventional n"
  shows "secretVolumeName n = map envVolumeChar n"
proof -
  from assms obtain p where n: "n = p @ ''_FILE''"
    by (auto simp: conventional_def isFileSecret_def go_string_simps suffix_def)
  have chars: "\<And>c. c \<in> set n \<Longrightarrow> env_char c" using assms by (auto simp: conventional_def list_all_iff)
  then have "map volumeChar (ToLower_runes n) = map envVolumeChar n"
    by (subst ToLower_runes_def, subst runes_ascii) (fastforce simp: env_char_def envVolumeChar_def)+
  moreover have "Trim1 (map envVolumeChar n) (CHR ''-'') = map envVolumeChar n"
  proof (rule Trim1_id)
    show "map envVolumeChar n \<noteq> []" using n by simp
    have ne: "n \<noteq> []" using n by simp
    have "envVolumeChar (hd n) \<noteq> CHR ''-''"
      using assms envVolumeChar_dash[OF chars[OF hd_in_set[OF ne]]] by (auto simp: conventional_def)
    then show "hd (map envVolumeChar n) \<noteq> CHR ''-''" using ne by (simp add: hd_map)
    show "last (map envVolumeChar n) \<noteq> CHR ''-''"
      using envVolumeChar_dash[of "CHR ''E''"] by (auto simp: n env_char_def)
  qed
  ultimately show ?thesis using assms by (simp add: secretVolumeName_def conventional_def)
qed

lemma secretVolumeName_inj:
  assumes "conventional m" and "conventional n" and "secretVolumeName m = secretVolumeName n"
  shows "m = n"
proof -
  have "\<forall>c \<in> set m \<union> set n. env_char c" using assms(1,2) by (auto simp: conventional_def list_all_iff)
  then have "inj_on envVolumeChar (set m \<union> set n)"
    using envVolumeChar_inj by (auto simp: inj_on_def)
  with assms show ?thesis
    by (simp add: secretVolumeName_conventional inj_on_map_eq_map)
qed

lemma suffix_secretVolumeName:
  assumes "conventional n"
  shows "suffix ''-file'' (secretVolumeName n)"
proof -
  from assms obtain p where n: "n = p @ ''_FILE''"
    by (auto simp: conventional_def isFileSecret_def go_string_simps suffix_def)
  have "map envVolumeChar ''_FILE'' = ''-file''" by code_simp
  then show ?thesis
    by (subst secretVolumeName_conventional[OF assms]) (simp add: n suffix_def)
qed

section \<open>The Pod\<close>

lemma buildDeployment_sel [simp]:
  "d_Meta (buildDeployment a en c) =
     (new_meta (authName a) (authNamespace a))\<lparr>Labels := Some (labelsFor a)\<rparr>"
  "ds_Selector (d_Spec (buildDeployment a en c)) = selectorFor a"
  "pod_Labels (ds_Template (d_Spec (buildDeployment a en c))) = selectorFor a"
  "pod_Annotations (ds_Template (d_Spec (buildDeployment a en c))) =
     [''heliop.snosr.se/config-checksum'' \<mapsto> c]"
  "pod_Volumes (ds_Template (d_Spec (buildDeployment a en c))) = podVolumes a"
  "map ct_VolumeMounts (pod_Containers (ds_Template (d_Spec (buildDeployment a en c)))) = [mainMounts a]"
  "map ct_Env (pod_Containers (ds_Template (d_Spec (buildDeployment a en c)))) =
     [autheliaFileEnv (Settings (a_Spec a)) en]"
  "ds_Replicas (d_Spec (buildDeployment a en c)) =
     Some (case Replicas (Deployment (a_Spec a)) of Some n \<Rightarrow> n | None \<Rightarrow> 2)"
  by (simp_all add: buildDeployment_def Let_def)

text \<open>The file secrets of an instance: the entries that get a volume.\<close>

definition fileSecrets :: "AutheliaSettings \<Rightarrow> AutheliaSecret list" where
  "fileSecrets st = filter (\<lambda>s. env_Secret s \<noteq> None \<and> isFileSecret (env_Name s)) (Secrets st)"

lemma map_filter_secretVolume:
  "List.map_filter secretVolume ss =
   map (\<lambda>s. (\<lparr>vol_Name = secretVolumeName (env_Name s),
               vol_Source = SecretVolume (ref_Name (the (env_Secret s)))\<rparr>,
             \<lparr>vm_Name = secretVolumeName (env_Name s), vm_MountPath = secretMountPath (env_Name s),
              vm_SubPath = [], vm_ReadOnly = True\<rparr>))
     (filter (\<lambda>s. env_Secret s \<noteq> None \<and> isFileSecret (env_Name s)) ss)"
  by (induction ss) (auto simp: List.map_filter_simps secretVolume_def split: option.splits)

lemma volume_names:
  "map vol_Name (podVolumes a) =
   [''authelia-secret'', ''config'', ''data''] @
   (if FileUsersSecret (Settings (a_Spec a)) = None then [] else [''file-backend'']) @
   map (secretVolumeName \<circ> env_Name) (fileSecrets (Settings (a_Spec a)))"
  by (simp add: podVolumes_def map_filter_secretVolume fileSecrets_def split: option.split)

lemma mount_names:
  "map vm_Name (mainMounts a) =
   [''config'', ''authelia-secret'', ''data''] @
   (if FileUsersSecret (Settings (a_Spec a)) = None then [] else [''file-backend'']) @
   map (secretVolumeName \<circ> env_Name) (fileSecrets (Settings (a_Spec a)))"
  by (simp add: mainMounts_def map_filter_secretVolume fileSecrets_def split: option.split)

lemma mount_volume_mset: "mset (map vm_Name (mainMounts a)) = mset (map vol_Name (podVolumes a))"
  unfolding volume_names mount_names by simp

lemma set_autheliaFileEnv:
  "e \<in> set (autheliaFileEnv st oidc) \<longleftrightarrow>
   e \<in> {plainEnv ''AUTHELIA_SERVER_DISABLE_HEALTHCHECK'' ''true'',
        plainEnv ''AUTHELIA_SESSION_SECRET_FILE'' ''/secrets/SESSION_ENCRYPTION_KEY'',
        plainEnv ''AUTHELIA_STORAGE_ENCRYPTION_KEY_FILE'' ''/secrets/STORAGE_ENCRYPTION_KEY''} \<or>
   oidc \<and> e \<in> {plainEnv ''AUTHELIA_IDENTITY_PROVIDERS_OIDC_HMAC_SECRET_FILE'' ''/secrets/OIDC_HMAC_SECRET'',
        plainEnv ''AUTHELIA_IDENTITY_PROVIDERS_OIDC_ISSUER_PRIVATE_KEY_FILE'' ''/secrets/OIDC_PRIVATE_KEY''} \<or>
   (\<exists>s \<in> set (Secrets st). secretEnv s = Some e)"
  by (simp add: autheliaFileEnv_def set_map_filter_iff)

text \<open>A sample instance for the witnesses: a claim template, a users file, two secrets.\<close>

definition sample_settings :: AutheliaSettings where
  "sample_settings =
     \<lparr>AdditionalConfig = None,
      FileUsersSecret = Some \<lparr>ref_Name = ''users'', ref_Key = ''users.yml''\<rparr>,
      Secrets = [\<lparr>env_Name = ''AUTHELIA_NOTIFIER_SMTP_PASSWORD_FILE'',
                  env_Secret = Some \<lparr>ref_Name = ''smtp'', ref_Key = ''password''\<rparr>\<rparr>,
                 \<lparr>env_Name = ''AUTHELIA_SESSION_REDIS_PASSWORD'',
                  env_Secret = Some \<lparr>ref_Name = ''redis'', ref_Key = ''pw''\<rparr>\<rparr>]\<rparr>"

definition sample_authelia :: Authelia where
  "sample_authelia =
     \<lparr>a_Meta = new_meta ''sso'' ''auth'',
      a_Spec = \<lparr>Hostname = ''sso.example.com'',
                Deployment = \<lparr>Replicas = Some 1, Image = [], ImagePullPolicy = [],
                  Resources = \<lparr>Requests = None, Limits = None\<rparr>, ExistingSecret = [],
                  VolumeClaimTemplate = Some JNull\<rparr>,
                Settings = sample_settings\<rparr>,
      a_Status = \<lparr>Conditions = [], ReadyReplicas = 0, OIDCClients = [], AccessControlRules = []\<rparr>\<rparr>"

section \<open>Properties\<close>

text \<open>C38: The volume name derived from an environment variable that names a file secret is
  always a valid DNS label, for every byte string ending in \<open>_FILE\<close>: non-empty, at most 63
  characters, only lower-case letters, digits and dashes, no dash at either end.\<close>

theorem secretVolumeName_dns_label:
  assumes "isFileSecret n"
  shows "dns_label (secretVolumeName n)"
proof -
  have "secretVolumeName n \<noteq> []"
    using isFileSecret_E[OF assms]
    by (rule secretVolumeName_nonempty) (simp_all add: volumeChar_def lower_rune_def char_of_def)
  moreover have "list_all dns_char (secretVolumeName n)"
    using set_secretVolumeName[of n] dns_char_volumeChar by (auto simp: list_all_iff)
  ultimately show ?thesis
    using secretVolumeName_ends[of n] length_secretVolumeName[of n] by (simp add: dns_label_def)
qed

theorem secretVolumeName_dns_label_witness:
  "dns_label (secretVolumeName ''AUTHELIA_NOTIFIER_SMTP_PASSWORD_FILE'')"
  by (rule secretVolumeName_dns_label) (simp add: isFileSecret_def HasSuffix_def)

text \<open>The Pod is self-consistent: the authelia container mounts exactly the volumes the Pod
  declares, each once, so no mount refers to a missing volume and no volume is unused.\<close>

theorem mounts_match_volumes:
  "map (mset \<circ> map vm_Name \<circ> ct_VolumeMounts)
     (pod_Containers (ds_Template (d_Spec (buildDeployment a oidcEnabled cs)))) =
   [mset (map vol_Name (pod_Volumes (ds_Template (d_Spec (buildDeployment a oidcEnabled cs)))))]"
  using mount_volume_mset[of a] by (simp add: buildDeployment_def Let_def)

text \<open>If the file secrets use pairwise different names of Authelia's documented form (upper-case
  letters, digits, underscores, at most 63 characters), all volumes of the Pod have
  different names, also from the four the operator uses itself.\<close>

theorem volume_names_distinct:
  assumes "distinct (map env_Name (fileSecrets (Settings (a_Spec a))))"
    and "list_all (conventional \<circ> env_Name) (fileSecrets (Settings (a_Spec a)))"
  shows "distinct (map vol_Name (pod_Volumes (ds_Template (d_Spec (buildDeployment a oidcEnabled cs)))))"
proof -
  let ?fs = "fileSecrets (Settings (a_Spec a))"
  have "inj_on secretVolumeName (env_Name ` set ?fs)"
    using assms(2) secretVolumeName_inj by (auto simp: inj_on_def list_all_iff)
  then have "distinct (map secretVolumeName (map env_Name ?fs))"
    using assms(1) by (simp add: distinct_map comp_inj_on)
  moreover have "suffix ''-file'' v" if "v \<in> secretVolumeName ` env_Name ` set ?fs" for v
    using that assms(2) suffix_secretVolumeName by (auto simp: list_all_iff)
  then have "v \<notin> {''authelia-secret'', ''config'', ''data'', ''file-backend''}"
    if "v \<in> secretVolumeName ` env_Name ` set ?fs" for v
    using that by (fastforce simp: suffix_to_prefix)
  ultimately show ?thesis by (auto simp: volume_names)
qed

theorem volume_names_distinct_witness:
  "distinct (map vol_Name (pod_Volumes (ds_Template
     (d_Spec (buildDeployment sample_authelia True ''0'')))))"
proof (rule volume_names_distinct)
  show "distinct (map env_Name (fileSecrets (Settings (a_Spec sample_authelia))))"
    "list_all (conventional \<circ> env_Name) (fileSecrets (Settings (a_Spec sample_authelia)))"
    by code_simp+
qed

text \<open>C39: Without that convention two different variables can share a volume name: letters are
  lower-cased, every other character becomes a dash and names are cut to 63 characters, so
  two distinct entries of \<open>settings.secrets\<close> (here \<open>A_B_FILE\<close> and \<open>A-B_FILE\<close>) produce a Pod
  with two volumes of the same name.\<close>

theorem volume_names_collide:
  "\<exists>a. distinct (map env_Name (Secrets (Settings (a_Spec a)))) \<and>
     \<not> distinct (map vol_Name (pod_Volumes (ds_Template (d_Spec (buildDeployment a False cs)))))"
proof
  let ?s = "\<lambda>n. \<lparr>env_Name = n, env_Secret = Some \<lparr>ref_Name = ''s'', ref_Key = ''k''\<rparr>\<rparr>"
  let ?a = "sample_authelia\<lparr>a_Spec := (a_Spec sample_authelia)\<lparr>Settings :=
     sample_settings\<lparr>Secrets := [?s ''A_B_FILE'', ?s ''A-B_FILE'']\<rparr>\<rparr>\<rparr>"
  have "secretVolumeName ''A_B_FILE'' = ''a-b-file''" "secretVolumeName ''A-B_FILE'' = ''a-b-file''"
    "isFileSecret ''A_B_FILE''" "isFileSecret ''A-B_FILE''"
    by code_simp+
  then show "distinct (map env_Name (Secrets (Settings (a_Spec ?a)))) \<and>
     \<not> distinct (map vol_Name (pod_Volumes (ds_Template (d_Spec (buildDeployment ?a False cs)))))"
    by (simp add: volume_names fileSecrets_def)
qed

text \<open>C36: Every entry of \<open>settings.secrets\<close> reaches the container. A \<open>_FILE\<close> variable is set to
  a path inside a mount whose volume is the referenced Secret; any other variable takes
  its value from the referenced Secret key.\<close>

theorem secret_env_wired:
  assumes "s \<in> set (Secrets (Settings (a_Spec a)))" and "env_Secret s = Some ref"
  shows "\<exists>e \<in> set (autheliaFileEnv (Settings (a_Spec a)) oidcEnabled). ev_Name e = env_Name s \<and>
    (if isFileSecret (env_Name s) then
       (\<exists>m \<in> set (mainMounts a). \<exists>v \<in> set (podVolumes a).
          ev_Value e = vm_MountPath m @ ''/'' @ ref_Key ref \<and> ev_ValueFrom e = None \<and>
          vol_Name v = vm_Name m \<and> vol_Source v = SecretVolume (ref_Name ref))
     else ev_ValueFrom e = Some \<lparr>evs_Name = ref_Name ref, evs_Key = ref_Key ref\<rparr>)"
proof -
  obtain e where e: "secretEnv s = Some e" using assms(2) by (auto simp: secretEnv_def)
  then have mem: "e \<in> set (autheliaFileEnv (Settings (a_Spec a)) oidcEnabled)"
    using assms(1) by (auto simp: set_autheliaFileEnv)
  show ?thesis
  proof (cases "isFileSecret (env_Name s)")
    case False
    with e assms(2) mem show ?thesis by (intro bexI[of _ e]) (auto simp: secretEnv_def)
  next
    case True
    obtain v m where vm: "secretVolume s = Some (v, m)"
      using True assms(2) by (auto simp: secretVolume_def)
    then have "(v, m) \<in> set (List.map_filter secretVolume (Secrets (Settings (a_Spec a))))"
      using assms(1) by (auto simp: set_map_filter_iff)
    then have "v \<in> set (podVolumes a)" "m \<in> set (mainMounts a)"
      by (force simp: podVolumes_def, force simp: mainMounts_def)
    with e vm True assms(2) mem show ?thesis
      by (intro bexI[of _ e])
        (auto simp: secretEnv_def secretVolume_def plainEnv_def intro!: bexI[of _ m] bexI[of _ v])
  qed
qed

theorem secret_env_wired_witness:
  "\<exists>e \<in> set (autheliaFileEnv sample_settings False).
     ev_Name e = ''AUTHELIA_SESSION_REDIS_PASSWORD'' \<and>
     ev_ValueFrom e = Some \<lparr>evs_Name = ''redis'', evs_Key = ''pw''\<rparr>"
proof -
  let ?s = "\<lparr>env_Name = ''AUTHELIA_SESSION_REDIS_PASSWORD'',
              env_Secret = Some \<lparr>ref_Name = ''redis'', ref_Key = ''pw''\<rparr>\<rparr>"
  have "?s \<in> set (Secrets (Settings (a_Spec sample_authelia)))"
    by (simp add: sample_authelia_def sample_settings_def)
  from secret_env_wired[OF this, of "\<lparr>ref_Name = ''redis'', ref_Key = ''pw''\<rparr>" False]
  show ?thesis by (simp add: sample_authelia_def isFileSecret_def HasSuffix_def)
qed

text \<open>Of the core Secret mounted at \<open>/secrets\<close>, the container is pointed at the session and
  storage keys always, and at the OIDC HMAC secret and issuer key exactly when OIDC is
  enabled; no entry of \<open>settings.secrets\<close> can add another path under that mount.\<close>

theorem core_secret_paths:
  "{ev_Value e |e. e \<in> set (autheliaFileEnv st oidcEnabled) \<and> HasPrefix (ev_Value e) ''/secrets/''} =
   {''/secrets/SESSION_ENCRYPTION_KEY'', ''/secrets/STORAGE_ENCRYPTION_KEY''} \<union>
   (if oidcEnabled then {''/secrets/OIDC_HMAC_SECRET'', ''/secrets/OIDC_PRIVATE_KEY''} else {})"
proof -
  let ?P = "\<lambda>e. HasPrefix (ev_Value e) ''/secrets/''"
  have user: "\<not> HasPrefix (ev_Value e) ''/secrets/''" if "secretEnv s = Some e" for s e
    using that by (auto simp: secretEnv_def plainEnv_def secretMountPath_def secretsMountBase_def
        HasPrefix_def split: option.splits if_splits)
  then have "filter ?P (List.map_filter secretEnv (Secrets st)) = []"
    by (auto simp: filter_empty_conv set_map_filter_iff)
  then have "map ev_Value (filter ?P (autheliaFileEnv st oidcEnabled)) =
    [''/secrets/SESSION_ENCRYPTION_KEY'', ''/secrets/STORAGE_ENCRYPTION_KEY''] @
    (if oidcEnabled then [''/secrets/OIDC_HMAC_SECRET'', ''/secrets/OIDC_PRIVATE_KEY''] else [])"
    unfolding autheliaFileEnv_def by (simp add: plainEnv_def HasPrefix_def)
  from arg_cong[OF this, of set]
  have "ev_Value ` {e \<in> set (autheliaFileEnv st oidcEnabled). ?P e} =
    {''/secrets/SESSION_ENCRYPTION_KEY'', ''/secrets/STORAGE_ENCRYPTION_KEY''} \<union>
    (if oidcEnabled then {''/secrets/OIDC_HMAC_SECRET'', ''/secrets/OIDC_PRIVATE_KEY''} else {})"
    by (cases oidcEnabled) (simp_all only: set_map set_filter set_append list.set if_True if_False Un_insert_left sup_bot_left)
  then show ?thesis by (simp only: setcompr_eq_image)
qed

text \<open>The Service and the Deployment address the same Pods: the Service selector and the
  Deployment selector are both contained in the Pod labels, so every Pod of the
  Deployment receives traffic, and the target port of the Service is a port of the
  container.\<close>

theorem service_selects_pods:
  "svc_Selector (buildService a) \<subseteq>\<^sub>m pod_Labels (ds_Template (d_Spec (buildDeployment a oidcEnabled cs))) \<and>
   ds_Selector (d_Spec (buildDeployment a oidcEnabled cs)) \<subseteq>\<^sub>m
     pod_Labels (ds_Template (d_Spec (buildDeployment a oidcEnabled cs))) \<and>
   sp_TargetPort ` set (svc_Ports (buildService a)) \<subseteq>
     (\<Union>c \<in> set (pod_Containers (ds_Template (d_Spec (buildDeployment a oidcEnabled cs)))).
        cp_Name ` set (ct_Ports c))"
  by (simp add: buildService_def buildDeployment_def Let_def)

text \<open>C37: For a resource the CRD validation admits, a Deployment whose data volume is the
  managed claim runs exactly one replica, and the claim it mounts is the one
  \<open>buildDataPVC\<close> builds, in the same namespace.\<close>

theorem data_claim_single_replica:
  assumes "valid_deployment (Deployment (a_Spec a))"
    and "v \<in> set (pod_Volumes (ds_Template (d_Spec (buildDeployment a oidcEnabled cs))))"
    and "vol_Source v = ClaimVolume c"
  shows "ds_Replicas (d_Spec (buildDeployment a oidcEnabled cs)) = Some 1 \<and>
    (\<exists>p. buildDataPVC a = Inr p \<and>
       meta_key (pvc_Meta p) = (Namespace (d_Meta (buildDeployment a oidcEnabled cs)), c))"
proof -
  have "VolumeClaimTemplate (Deployment (a_Spec a)) \<noteq> None \<and> c = dataPVCName a"
    using assms(2,3)
    by (auto simp: podVolumes_def map_filter_secretVolume dataVolume_def split: option.splits if_splits)
  with assms(1) show ?thesis
    by (auto simp: valid_deployment_def buildDataPVC_def meta_key_def new_meta_def)
qed

theorem data_claim_single_replica_witness:
  "ds_Replicas (d_Spec (buildDeployment sample_authelia True ''0'')) = Some 1"
  using data_claim_single_replica[of sample_authelia
      "\<lparr>vol_Name = ''data'', vol_Source = ClaimVolume ''sso-data''\<rparr>" True "''0''" "''sso-data''"]
  by (simp add: valid_deployment_def sample_authelia_def podVolumes_def dataVolume_def
      dataPVCName_def new_meta_def)

end
