(* ===== verification/GoCrypto.thy ===== *)
theory GoCrypto
  imports GoStrings
begin

text \<open>
  The hash functions of Go's standard library that the operator calls: \<open>crypto/sha256\<close> for
  the configuration checksum, \<open>crypto/sha512\<close> under HMAC in \<open>crypto/pbkdf2\<close> for the digest of
  a client secret. Both hashes follow FIPS 180-4 over words of 32 and 64 bits, written once
  and instantiated twice. Random numbers are drawn from a finite tape of bytes: \<open>rand_Read\<close> takes a block,
  \<open>rand_Int62\<close> is \<open>rand.Int\<close> with its rejection loop for the bound 62. A tape that is used
  up stands for an entropy source that fails.
\<close>

section \<open>SHA-2\<close>

unbundle bit_operations_syntax

type_synonym 'w sha_state = "'w \<times> 'w \<times> 'w \<times> 'w \<times> 'w \<times> 'w \<times> 'w \<times> 'w"

text \<open>
  The parameters of one member of the family: bytes per word, bytes of the length field,
  round constants, initial state, and the rotation and shift amounts of the four functions.
\<close>

record 'w sha2 =
  sha_wordBytes :: nat
  sha_lengthBytes :: nat
  sha_K :: "'w list"
  sha_IV :: "'w sha_state"
  sha_Sum0 :: "nat \<times> nat \<times> nat"
  sha_Sum1 :: "nat \<times> nat \<times> nat"
  sha_sig0 :: "nat \<times> nat \<times> nat"
  sha_sig1 :: "nat \<times> nat \<times> nat"

definition rotr :: "nat \<Rightarrow> 'a::len word \<Rightarrow> 'a word" where
  "rotr n w = drop_bit n w OR push_bit (LENGTH('a) - n) w"

definition sha_Sum :: "nat \<times> nat \<times> nat \<Rightarrow> 'a::len word \<Rightarrow> 'a word" where
  "sha_Sum r x = (case r of (i, j, k) \<Rightarrow> rotr i x XOR rotr j x XOR rotr k x)"

definition sha_sig :: "nat \<times> nat \<times> nat \<Rightarrow> 'a::len word \<Rightarrow> 'a word" where
  "sha_sig r x = (case r of (i, j, k) \<Rightarrow> rotr i x XOR rotr j x XOR drop_bit k x)"

text \<open>Big-endian bytes: \<open>be_bytes n x\<close> is the last \<open>n\<close> bytes of \<open>x\<close>.\<close>

fun be_bytes :: "nat \<Rightarrow> nat \<Rightarrow> bytes" where
  "be_bytes 0 x = []"
| "be_bytes (Suc n) x = be_bytes n (x div 256) @ [char_of_nat (x mod 256)]"

definition be_value :: "bytes \<Rightarrow> nat" where
  "be_value bs = foldl (\<lambda>x c. x * 256 + byte_of c) 0 bs"

fun chunks :: "nat \<Rightarrow> 'a list \<Rightarrow> 'a list list" where
  "chunks n xs = (if n = 0 \<or> xs = [] then [] else take n xs # chunks n (drop n xs))"

declare chunks.simps [simp del]

definition sha_pad :: "('a::len word) sha2 \<Rightarrow> bytes \<Rightarrow> bytes" where
  "sha_pad h m =
     (let b = 16 * sha_wordBytes h;
          used = length m + 1 + sha_lengthBytes h
      in m @ [CHR 0x80] @ replicate ((b - used mod b) mod b) (CHR 0x00) @
         be_bytes (sha_lengthBytes h) (8 * length m))"

text \<open>The message schedule, newest word first: each step adds one word to the front.\<close>

fun sha_schedule :: "('a::len word) sha2 \<Rightarrow> nat \<Rightarrow> 'a word list \<Rightarrow> 'a word list" where
  "sha_schedule h 0 ws = ws"
| "sha_schedule h (Suc n) ws =
     sha_schedule h n
       ((sha_sig (sha_sig1 h) (ws ! 1) + ws ! 6 + sha_sig (sha_sig0 h) (ws ! 14) + ws ! 15) # ws)"

definition sha_round :: "('a::len word) sha2 \<Rightarrow> 'a word sha_state \<Rightarrow> 'a word \<times> 'a word \<Rightarrow>
    'a word sha_state" where
  "sha_round h s kw =
     (case s of (a, b, c, d, e, f, g, hh) \<Rightarrow>
      (let t1 = hh + sha_Sum (sha_Sum1 h) e + ((e AND f) XOR (NOT e AND g)) + fst kw + snd kw;
           t2 = sha_Sum (sha_Sum0 h) a + ((a AND b) XOR (a AND c) XOR (b AND c))
       in (t1 + t2, a, b, c, d + t1, e, f, g)))"

definition sha_add :: "('a::len word) sha_state \<Rightarrow> 'a word sha_state \<Rightarrow> 'a word sha_state" where
  "sha_add s t =
     (case (s, t) of ((a, b, c, d, e, f, g, h), (a', b', c', d', e', f', g', h')) \<Rightarrow>
        (a + a', b + b', c + c', d + d', e + e', f + f', g + g', h + h'))"

definition sha_block :: "('a::len word) sha2 \<Rightarrow> 'a word sha_state \<Rightarrow> bytes \<Rightarrow> 'a word sha_state" where
  "sha_block h s blk =
     (let w16 = map (\<lambda>c. word_of_nat (be_value c)) (chunks (sha_wordBytes h) blk);
          ws = rev (sha_schedule h (length (sha_K h) - 16) (rev w16))
      in sha_add s (foldl (sha_round h) s (zip (sha_K h) ws)))"

definition sha_digest :: "('a::len word) sha2 \<Rightarrow> bytes \<Rightarrow> bytes" where
  "sha_digest h m =
     (case foldl (sha_block h) (sha_IV h) (chunks (16 * sha_wordBytes h) (sha_pad h m)) of
        (a, b, c, d, e, f, g, i) \<Rightarrow>
          concat (map (\<lambda>w. be_bytes (sha_wordBytes h) (unat w)) [a, b, c, d, e, f, g, i]))"

text \<open>
  The constants of the standard are not tables but what the tables abbreviate: the first bits
  of the fractional parts of the cube roots (round constants) and of the square roots (initial
  state) of the first primes. \<open>root_below r n x a\<close> finds the \<open>r\<close>-th root of \<open>x\<close> bit by bit,
  from bit \<open>n - 1\<close> down, above the approximation \<open>a\<close>.
\<close>

fun root_below :: "nat \<Rightarrow> nat \<Rightarrow> nat \<Rightarrow> nat \<Rightarrow> nat" where
  "root_below r 0 x a = a"
| "root_below r (Suc n) x a =
     (let a' = a + 2 ^ n in root_below r n x (if a' ^ r \<le> x then a' else a))"

text \<open>The first bits of the fraction of the \<open>r\<close>-th root of a number below \<open>8 ^ r\<close>.\<close>

definition root_fraction :: "nat \<Rightarrow> nat \<Rightarrow> 'a::len word" where
  "root_fraction r p =
     word_of_nat (root_below r (LENGTH('a) + 3) (p * 2 ^ (r * LENGTH('a))) 0)"

definition small_primes :: "nat \<Rightarrow> nat list" where
  "small_primes n = take n (filter (\<lambda>p. \<forall>d \<in> set [2..<p]. p mod d \<noteq> 0) [2..<410])"

definition sha_roundConstants :: "nat \<Rightarrow> 'a::len word list" where
  "sha_roundConstants n = map (root_fraction 3) (small_primes n)"

definition sha_initial :: "('a::len word) sha_state" where
  "sha_initial =
     (root_fraction 2 2, root_fraction 2 3, root_fraction 2 5, root_fraction 2 7,
      root_fraction 2 11, root_fraction 2 13, root_fraction 2 17, root_fraction 2 19)"

definition sha256 :: "32 word sha2" where
  "sha256 =
     \<lparr>sha_wordBytes = 4, sha_lengthBytes = 8,
      sha_K = sha_roundConstants 64, sha_IV = sha_initial,
      sha_Sum0 = (2, 13, 22), sha_Sum1 = (6, 11, 25),
      sha_sig0 = (7, 18, 3), sha_sig1 = (17, 19, 10)\<rparr>"

definition sha512 :: "64 word sha2" where
  "sha512 =
     \<lparr>sha_wordBytes = 8, sha_lengthBytes = 16,
      sha_K = sha_roundConstants 80, sha_IV = sha_initial,
      sha_Sum0 = (28, 34, 39), sha_Sum1 = (14, 18, 41),
      sha_sig0 = (1, 8, 7), sha_sig1 = (19, 61, 6)\<rparr>"

text \<open>\<open>sha256.Sum256\<close>, \<open>sha512.Size\<close> and the SHA-512 hash.\<close>

definition sha256_Sum256 :: "bytes \<Rightarrow> bytes" where
  "sha256_Sum256 m = sha_digest sha256 m"

definition sha512_Sum512 :: "bytes \<Rightarrow> bytes" where
  "sha512_Sum512 m = sha_digest sha512 m"

definition sha512_Size :: nat where
  "sha512_Size = 64"

section \<open>HMAC and PBKDF2\<close>

definition xor_bytes :: "bytes \<Rightarrow> bytes \<Rightarrow> bytes" where
  "xor_bytes xs ys = map2 (\<lambda>a b. char_of_nat (byte_of a XOR byte_of b)) xs ys"

definition hmac_sha512 :: "bytes \<Rightarrow> bytes \<Rightarrow> bytes" where
  "hmac_sha512 key m =
     (let k0 = (if length key > 128 then sha512_Sum512 key else key);
          k = k0 @ replicate (128 - length k0) (CHR 0x00)
      in sha512_Sum512 (xor_bytes k (replicate 128 (CHR 0x5C)) @
           sha512_Sum512 (xor_bytes k (replicate 128 (CHR 0x36)) @ m)))"

text \<open>Block \<open>i\<close> of the derived key: the exclusive or of \<open>iter\<close> chained HMACs.\<close>

definition pbkdf2_block :: "bytes \<Rightarrow> bytes \<Rightarrow> nat \<Rightarrow> nat \<Rightarrow> bytes" where
  "pbkdf2_block password salt iter i =
     (let u1 = hmac_sha512 password (salt @ be_bytes 4 i)
      in snd (((\<lambda>(u, t). let u' = hmac_sha512 password u in (u', xor_bytes t u')) ^^ (iter - 1))
           (u1, u1)))"

text \<open>
  \<open>pbkdf2.Key(sha512.New, password, salt, iter, keyLength)\<close>: an error when the key would need
  more than \<open>2 ^ 32 - 1\<close> blocks, or in FIPS-only mode for a key below 14 or a salt below 16
  bytes.
\<close>

definition pbkdf2_Key :: "bool \<Rightarrow> string \<Rightarrow> bytes \<Rightarrow> nat \<Rightarrow> nat \<Rightarrow> bytes result" where
  "pbkdf2_Key fipsOnly password salt iter keyLength =
     (let numBlocks = (keyLength + sha512_Size - 1) div sha512_Size in
      if fipsOnly \<and> keyLength < 14 then Inl (CryptoError ''key shorter than 112 bits'')
      else if fipsOnly \<and> length salt < 16 then Inl (CryptoError ''salt shorter than 128 bits'')
      else if numBlocks > 4294967295 then Inl (CryptoError ''keyLength too long'')
      else Inr (take keyLength (concat (map (pbkdf2_block password salt iter) [1..<numBlocks + 1]))))"

section \<open>Random numbers\<close>

definition rand_Read :: "nat \<Rightarrow> (bytes, bytes) act" where
  "rand_Read n tape =
     (if n \<le> length tape then (Inr (take n tape), drop n tape) else (Inl RandError, []))"

text \<open>
  \<open>rand.Int(rand.Reader, 62)\<close>: read one byte, keep its low 6 bits, and read again while the
  value is not below the bound.
\<close>

fun rand_Int62 :: "(bytes, nat) act" where
  "rand_Int62 [] = (Inl RandError, [])"
| "rand_Int62 (c # tape) =
     (let n = byte_of c mod 64 in if n < 62 then (Inr n, tape) else rand_Int62 tape)"

section \<open>Lengths\<close>

lemma length_be_bytes [simp]: "length (be_bytes n x) = n"
  by (induction n x rule: be_bytes.induct) simp_all

lemma length_sha_digest: "length (sha_digest h m) = 8 * sha_wordBytes h"
  by (simp add: sha_digest_def split: prod.splits)

lemma length_sha256 [simp]: "length (sha256_Sum256 m) = 32"
  by (simp add: sha256_Sum256_def length_sha_digest sha256_def)

lemma length_sha512 [simp]: "length (sha512_Sum512 m) = 64"
  by (simp add: sha512_Sum512_def length_sha_digest sha512_def)

lemma length_xor_bytes [simp]: "length (xor_bytes xs ys) = min (length xs) (length ys)"
  by (simp add: xor_bytes_def)

lemma length_hmac [simp]: "length (hmac_sha512 k m) = 64"
  by (simp add: hmac_sha512_def Let_def)

lemma length_pbkdf2_block [simp]: "length (pbkdf2_block p s it i) = 64"
proof -
  have "length (fst (((\<lambda>(u, t). let u' = hmac_sha512 p u in (u', xor_bytes t u')) ^^ n) (u, u))) = 64 \<and>
        length (snd (((\<lambda>(u, t). let u' = hmac_sha512 p u in (u', xor_bytes t u')) ^^ n) (u, u))) = 64"
    if "length u = 64" for n u
    using that by (induction n) (simp_all add: case_prod_unfold Let_def)
  then show ?thesis by (simp add: pbkdf2_block_def Let_def)
qed

lemma length_pbkdf2_blocks:
  "length (concat (map (pbkdf2_block p s it) is)) = 64 * length is"
  by (induction "is") simp_all

text \<open>With the arguments \<open>hashClientSecret\<close> passes, no check of \<open>pbkdf2.Key\<close> can fail.\<close>

lemma pbkdf2_Key_total:
  assumes "length salt = 16"
  shows "\<exists>k. pbkdf2_Key fips p salt it sha512_Size = Inr k \<and> length k = 64"
  using assms by (simp add: pbkdf2_Key_def sha512_Size_def length_pbkdf2_blocks del: upt_Suc)

lemma rand_Read_cases:
  assumes "rand_Read n tape = (r, tape')"
  obtains (ok) bs where "r = Inr bs" "length bs = n" "tape = bs @ tape'"
    | (dry) "r = Inl RandError" "tape' = []" "length tape < n"
  using assms by (auto simp: rand_Read_def split: if_splits)

lemma rand_Int62_cases:
  assumes "rand_Int62 tape = (r, tape')"
  obtains (ok) i where "r = Inr i" "i < 62" "length tape' < length tape"
    | (dry) "r = Inl RandError" "tape' = []"
proof -
  have "(\<exists>i. fst (rand_Int62 tape) = Inr i \<and> i < 62 \<and> length (snd (rand_Int62 tape)) < length tape)
      \<or> (fst (rand_Int62 tape) = Inl RandError \<and> snd (rand_Int62 tape) = [])"
    by (induction tape rule: rand_Int62.induct) (auto simp: Let_def less_Suc_eq)
  with assms that show ?thesis by auto
qed

end
