(* ===== verification/Render.thy ===== *)
theory Render
  imports Ingress Resources GoCrypto
begin

text \<open>
  \<open>internal/controller/render.go\<close>: the Authelia configuration as a tree of maps.

  \<open>renderRoot\<close> is the body of \<open>renderConfig\<close> up to \<open>yaml.Marshal\<close>. Go mutates nested maps in
  place; \<open>with_child\<close> is the functional reading of \<open>childMap\<close> followed by writes to the child:
  the child is read (or a fresh one made), changed, and stored back under its key. A nil
  root, which is what \<open>json.Unmarshal\<close> leaves for the text \<open>null\<close>, panics at the first write.

  Two functions the code calls are parameters: \<open>sort.Slice\<close>, of which only the documented
  contract is used (locale \<open>slice_sort\<close>: an ordered permutation, not necessarily stable),
  and \<open>yaml.Marshal\<close> of \<open>sigs.k8s.io/yaml\<close>, of which nothing is assumed.

  The abstract view of the tree is a partial function from paths to values, \<open>get_path\<close>. In
  that view rendering is at most four stores, \<open>put_path\<close>, and the theorems say which paths
  change, to what, and that every other path of the user's configuration is kept.
\<close>

section \<open>Definitions\<close>

definition configChecksum :: "string \<Rightarrow> string" where
  "configChecksum rendered = hex_EncodeToString (sha256_Sum256 rendered)"

record oidcClient =
  oc_spec :: AutheliaOAuthClientSpec
  oc_secretDigest :: string

text \<open>\<open>if v != "" \{ m[key] = v \}\<close> and \<open>if len(v) > 0 \{ m[key] = toIfaceSlice(v) \}\<close>.\<close>

definition set_string :: "string \<Rightarrow> string \<Rightarrow> json smap \<Rightarrow> json smap" where
  "set_string key v m = (if v \<noteq> [] then sm_update key (JStr v) m else m)"

definition set_strings :: "string \<Rightarrow> string list \<Rightarrow> json smap \<Rightarrow> json smap" where
  "set_strings key v m = (if v \<noteq> [] then sm_update key (JArr (toIfaceSlice v)) m else m)"

definition clientToMap :: "oidcClient \<Rightarrow> json smap" where
  "clientToMap c =
     (let s = oc_spec c;
          m0 = sm_update ''client_id'' (JStr (ClientID s)) [];
          m1 = set_string ''client_name'' (ClientName s) m0;
          m2 = (if Public s then sm_update ''public'' (JBool True) m1
                else sm_update ''client_secret'' (JStr (oc_secretDigest c)) m1);
          m3 = set_string ''authorization_policy'' (AuthorizationPolicy s) m2;
          m4 = set_string ''consent_mode'' (ConsentMode s) m3;
          m5 = set_string ''claims_policy'' (ClaimsPolicy s) m4;
          m6 = set_string ''lifespan'' (Lifespan s) m5;
          m7 = set_strings ''redirect_uris'' (RedirectURIs s) m6;
          m8 = set_strings ''scopes'' (Scopes s) m7;
          m9 = set_strings ''grant_types'' (GrantTypes s) m8;
          m10 = set_strings ''response_types'' (ResponseTypes s) m9;
          m11 = set_string ''token_endpoint_auth_method'' (TokenEndpointAuthMethod s) m10
      in set_string ''userinfo_signed_response_alg'' (UserinfoSignedResponseAlg s) m11)"

definition childMap :: "json smap \<Rightarrow> string \<Rightarrow> json smap" where
  "childMap parent key =
     (case sm_lookup parent key of Some (JObj existing) \<Rightarrow> existing | _ \<Rightarrow> [])"

text \<open>\<open>child := childMap(parent, key)\<close>, then the writes \<open>f\<close> to the child.\<close>

definition with_child :: "string \<Rightarrow> (json smap \<Rightarrow> json smap) \<Rightarrow> json smap \<Rightarrow> json smap" where
  "with_child key f parent = sm_update key (JObj (f (childMap parent key))) parent"

text \<open>Writes through the root variable: a nil map panics.\<close>

definition write_root :: "(json smap \<Rightarrow> json smap) \<Rightarrow> gomap \<Rightarrow> gomap result" where
  "write_root f root =
     (case root of
        None \<Rightarrow> Inl (Panic ''assignment to entry in nil map'')
      | Some m \<Rightarrow> Inr (Some (f m)))"

definition applyFileBackend :: "gomap \<Rightarrow> AutheliaSettings \<Rightarrow> gomap result" where
  "applyFileBackend root settings =
     (case FileUsersSecret settings of
        None \<Rightarrow> Inr root
      | Some ref \<Rightarrow>
          write_root
            (with_child ''authentication_backend''
              (with_child ''file'' (sm_update ''path'' (JStr (fileUsersPath ref))))) root)"

definition parentDomain :: "string \<Rightarrow> string" where
  "parentDomain hostname =
     (case IndexByte hostname (CHR ''.'') of
        Some i \<Rightarrow> if i + 1 < length hostname then drop (i + 1) hostname else hostname
      | None \<Rightarrow> hostname)"

definition defaultCookies :: "string \<Rightarrow> json" where
  "defaultCookies hostname =
     JArr [JObj (sm_of_list
       [(''domain'', JStr (parentDomain hostname)),
        (''authelia_url'', JStr (''https://'' @ hostname))])]"

definition applySession :: "gomap \<Rightarrow> string \<Rightarrow> gomap result" where
  "applySession root hostname =
     (if hostname = [] then Inr root
      else write_root
        (with_child ''session'' (\<lambda>session.
           if sm_lookup session ''cookies'' = None
           then sm_update ''cookies'' (defaultCookies hostname) session else session)) root)"

text \<open>\<open>existing, _ := ac["rules"].([]any)\<close>: nil unless a list is there.\<close>

definition existingRules :: "json smap \<Rightarrow> json list" where
  "existingRules ac = (case sm_lookup ac ''rules'' of Some (JArr xs) \<Rightarrow> xs | _ \<Rightarrow> [])"

definition applyIngressRules :: "gomap \<Rightarrow> json smap list \<Rightarrow> gomap result" where
  "applyIngressRules root ingressRules =
     (if ingressRules = [] then Inr root
      else write_root
        (with_child ''access_control'' (\<lambda>ac.
           sm_update ''rules'' (JArr (map JObj ingressRules @ existingRules ac)) ac)) root)"

text \<open>The comparison function handed to \<open>sort.Slice\<close>.\<close>

definition clientLess :: "oidcClient \<Rightarrow> oidcClient \<Rightarrow> bool" where
  "clientLess a b \<longleftrightarrow> ClientID (oc_spec a) < ClientID (oc_spec b)"

type_synonym slice_sorter = "(oidcClient \<Rightarrow> oidcClient \<Rightarrow> bool) \<Rightarrow> oidcClient list \<Rightarrow> oidcClient list"

definition applyClients :: "slice_sorter \<Rightarrow> gomap \<Rightarrow> oidcClient list \<Rightarrow> gomap result" where
  "applyClients sort_Slice root clients =
     (if clients = [] then Inr root
      else write_root
        (with_child ''identity_providers'' (with_child ''oidc''
           (sm_update ''clients''
             (JArr (map (\<lambda>c. JObj (clientToMap c)) (sort_Slice clientLess clients)))))) root)"

definition initialRoot :: "AutheliaSettings \<Rightarrow> gomap result" where
  "initialRoot settings =
     (case AdditionalConfig settings of
        None \<Rightarrow> Inr (Some [])
      | Some raw \<Rightarrow>
          (if raw = [] then Inr (Some [])
           else case json_Unmarshal raw of
                  None \<Rightarrow> Inl (ParseError ''parsing additionalConfig'')
                | Some root \<Rightarrow> Inr root))"

definition renderRoot :: "slice_sorter \<Rightarrow> AutheliaSettings \<Rightarrow> oidcClient list \<Rightarrow> json smap list \<Rightarrow>
    string \<Rightarrow> gomap result" where
  "renderRoot sort_Slice settings clients ingressRules hostname =
     bindR (initialRoot settings) (\<lambda>root.
     bindR (applyFileBackend root settings) (\<lambda>root.
     bindR (applySession root hostname) (\<lambda>root.
     bindR (applyIngressRules root ingressRules) (\<lambda>root.
     applyClients sort_Slice root clients))))"

definition renderConfig :: "slice_sorter \<Rightarrow> (gomap \<Rightarrow> string option) \<Rightarrow> AutheliaSettings \<Rightarrow>
    oidcClient list \<Rightarrow> json smap list \<Rightarrow> string \<Rightarrow> string result" where
  "renderConfig sort_Slice yaml_Marshal settings clients ingressRules hostname =
     bindR (renderRoot sort_Slice settings clients ingressRules hostname) (\<lambda>root.
     case yaml_Marshal root of
       None \<Rightarrow> Inl (MarshalError ''marshalling config'')
     | Some out \<Rightarrow> Inr out)"

section \<open>Paths\<close>

fun get_path :: "string list \<Rightarrow> json smap \<Rightarrow> json option" where
  "get_path [] m = Some (JObj m)"
| "get_path (k # ks) m =
     (case sm_lookup m k of
        None \<Rightarrow> None
      | Some v \<Rightarrow>
          (if ks = [] then Some v
           else case v of JObj c \<Rightarrow> get_path ks c | _ \<Rightarrow> None))"

fun put_path :: "string list \<Rightarrow> json \<Rightarrow> json smap \<Rightarrow> json smap" where
  "put_path [] v m = m"
| "put_path (k # ks) v m =
     (if ks = [] then sm_update k v m else with_child k (put_path ks v) m)"

text \<open>Two paths that neither contain the other.\<close>

definition apart :: "string list \<Rightarrow> string list \<Rightarrow> bool" where
  "apart p q \<longleftrightarrow> \<not> prefix p q \<and> \<not> prefix q p"

text \<open>
  The interface of a configuration tree: what a read finds after a store, at the same path
  and at a path apart from it.
\<close>

locale config_tree =
  fixes get :: "'p \<Rightarrow> 't \<Rightarrow> 'v option"
    and put :: "'p \<Rightarrow> 'v \<Rightarrow> 't \<Rightarrow> 't"
    and away :: "'p \<Rightarrow> 'p \<Rightarrow> bool"
    and storable :: "'p \<Rightarrow> bool"
  assumes get_put_same: "storable p \<Longrightarrow> get p (put p v t) = Some v"
    and get_put_away: "away p q \<Longrightarrow> get q (put p v t) = get q t"
begin

lemma get_puts_away:
  "\<forall>(p, v) \<in> set ps. away p q \<Longrightarrow> get q (fold (\<lambda>(p, v). put p v) ps t) = get q t"
  by (induction ps arbitrary: t) (auto simp: get_put_away)

lemma get_puts_last:
  assumes "storable p" and "\<forall>(p', v') \<in> set ps'. away p' p"
  shows "get p (fold (\<lambda>(p, v). put p v) (ps @ (p, v) # ps') t) = Some v"
  using get_puts_away[OF assms(2)] get_put_same[OF assms(1)] by simp

end

text \<open>A sequence of stores.\<close>

definition put_all :: "(string list \<times> json) list \<Rightarrow> json smap \<Rightarrow> json smap" where
  "put_all ps m = fold (\<lambda>(p, v). put_path p v) ps m"

lemma sm_lookup_with_child [simp]:
  "sm_lookup (with_child k f m) k' =
     (if k' = k then Some (JObj (f (childMap m k))) else sm_lookup m k')"
  by (simp add: with_child_def)

lemma get_path_childMap:
  "ks \<noteq> [] \<Longrightarrow> get_path ks (childMap m k) = get_path (k # ks) m"
  by (cases ks) (auto simp: childMap_def split: option.splits json.splits)

lemma get_put_same: "p \<noteq> [] \<Longrightarrow> get_path p (put_path p v m) = Some v"
  by (induction p arbitrary: m) auto

lemma get_put_apart: "apart p q \<Longrightarrow> get_path q (put_path p v m) = get_path q m"
proof (induction p arbitrary: q m)
  case (Cons k ks)
  then obtain k' ks' where q: "q = k' # ks'" by (cases q) (auto simp: apart_def)
  show ?case
  proof (cases "k' = k")
    case True
    with Cons.prems q have sub: "apart ks ks'" "ks \<noteq> []" "ks' \<noteq> []" by (auto simp: apart_def)
    with Cons.IH[OF sub(1), of "childMap m k"] q True show ?thesis
      by (simp add: get_path_childMap)
  qed (use q in \<open>simp split: option.splits json.splits\<close>)
qed (simp add: apart_def)

interpretation tree: config_tree get_path put_path apart "\<lambda>p. p \<noteq> []"
  by unfold_locales (auto simp: get_put_same get_put_apart)

lemmas get_put_all_away = tree.get_puts_away[folded put_all_def]
  and get_put_all_last = tree.get_puts_last[folded put_all_def]

section \<open>Rendering as a sequence of stores\<close>

definition rulesPath :: "string list" where
  "rulesPath = [''access_control'', ''rules'']"

definition cookiesPath :: "string list" where
  "cookiesPath = [''session'', ''cookies'']"

definition usersPath :: "string list" where
  "usersPath = [''authentication_backend'', ''file'', ''path'']"

definition clientsPath :: "string list" where
  "clientsPath = [''identity_providers'', ''oidc'', ''clients'']"

lemmas path_defs = rulesPath_def cookiesPath_def usersPath_def clientsPath_def

text \<open>The list of values at a path: empty when there is none.\<close>

definition list_at :: "string list \<Rightarrow> json smap \<Rightarrow> json list" where
  "list_at p m = (case get_path p m of Some (JArr xs) \<Rightarrow> xs | _ \<Rightarrow> [])"

definition userStore :: "AutheliaSettings \<Rightarrow> (string list \<times> json) list" where
  "userStore settings =
     (case FileUsersSecret settings of
        None \<Rightarrow> [] | Some ref \<Rightarrow> [(usersPath, JStr (fileUsersPath ref))])"

definition cookieStore :: "string \<Rightarrow> json smap \<Rightarrow> (string list \<times> json) list" where
  "cookieStore hostname m =
     (if hostname \<noteq> [] \<and> get_path cookiesPath m = None
      then [(cookiesPath, defaultCookies hostname)] else [])"

definition ruleStore :: "json smap list \<Rightarrow> json smap \<Rightarrow> (string list \<times> json) list" where
  "ruleStore ingressRules m =
     (if ingressRules \<noteq> []
      then [(rulesPath, JArr (map JObj ingressRules @ list_at rulesPath m))] else [])"

definition clientStore :: "slice_sorter \<Rightarrow> oidcClient list \<Rightarrow> (string list \<times> json) list" where
  "clientStore sort_Slice clients =
     (if clients \<noteq> []
      then [(clientsPath, JArr (map (\<lambda>c. JObj (clientToMap c)) (sort_Slice clientLess clients)))]
      else [])"

text \<open>All stores rendering makes into the user's configuration \<open>m\<close>, in order.\<close>

definition stores :: "slice_sorter \<Rightarrow> AutheliaSettings \<Rightarrow> oidcClient list \<Rightarrow> json smap list \<Rightarrow>
    string \<Rightarrow> json smap \<Rightarrow> (string list \<times> json) list" where
  "stores sort_Slice settings clients ingressRules hostname m =
     userStore settings @ cookieStore hostname m @ ruleStore ingressRules m @
     clientStore sort_Slice clients"

lemmas store_defs = userStore_def cookieStore_def ruleStore_def clientStore_def

lemma initialRoot_json_wf: "initialRoot settings = Inr (Some m) \<Longrightarrow> json_wf (JObj m)"
  by (auto simp: initialRoot_def split: option.splits if_splits dest!: json_Unmarshal_wf)

lemma initialRoot_wf: "initialRoot settings = Inr (Some m) \<Longrightarrow> sm_wf m"
  using initialRoot_json_wf by simp

lemma get_path_pair:
  "get_path [k, k'] m = sm_lookup (childMap m k) k'"
  by (auto simp: childMap_def split: option.splits json.splits)

lemma existingRules_path: "existingRules (childMap m ''access_control'') = list_at rulesPath m"
  by (simp only: existingRules_def list_at_def rulesPath_def get_path_pair)

lemma with_child_id:
  assumes "sm_wf m" and "sm_lookup (childMap m k) k' \<noteq> None"
  shows "with_child k (\<lambda>c. c) m = m"
proof -
  have "sm_lookup m k = Some (JObj (childMap m k))"
    using assms(2) by (auto simp: childMap_def split: option.splits json.splits)
  with assms(1) show ?thesis by (simp add: with_child_def sm.update_idem)
qed

lemma sm_wf_with_child [simp]: "sm_wf m \<Longrightarrow> sm_wf (with_child k f m)"
  by (simp add: with_child_def)

lemma childMap_update_other [simp]: "k \<noteq> k' \<Longrightarrow> childMap (with_child k f m) k' = childMap m k'"
  by (simp add: childMap_def)

lemma paths_apart [simp]:
  "apart usersPath cookiesPath" "apart usersPath rulesPath" "apart cookiesPath rulesPath"
  "apart usersPath clientsPath" "apart cookiesPath clientsPath" "apart rulesPath clientsPath"
  "apart cookiesPath usersPath" "apart rulesPath usersPath" "apart rulesPath cookiesPath"
  "apart clientsPath usersPath" "apart clientsPath cookiesPath" "apart clientsPath rulesPath"
  by (simp_all add: apart_def path_defs)

lemma paths_storable [simp]:
  "usersPath \<noteq> []" "cookiesPath \<noteq> []" "rulesPath \<noteq> []" "clientsPath \<noteq> []"
  by (simp_all add: path_defs)

lemma put_all_simps [simp]:
  "put_all [] m = m"
  "put_all ((p, v) # ps) m = put_all ps (put_path p v m)"
  "put_all (ps @ qs) m = put_all qs (put_all ps m)"
  by (simp_all add: put_all_def)

lemma applyFileBackend_stores:
  "applyFileBackend (Some m) settings = Inr (Some (put_all (userStore settings) m))"
  by (simp add: applyFileBackend_def userStore_def write_root_def usersPath_def comp_def
      with_child_def split: option.splits)

lemma applySession_stores:
  assumes "sm_wf m"
  shows "applySession (Some m) hostname = Inr (Some (put_all (cookieStore hostname m) m))"
proof (cases "sm_lookup (childMap m ''session'') ''cookies''")
  case None
  then show ?thesis
    by (simp add: applySession_def cookieStore_def write_root_def cookiesPath_def get_path_pair
        with_child_def del: get_path.simps)
next
  case (Some v)
  with with_child_id[OF assms, of "''session''" "''cookies''"] show ?thesis
    by (simp add: applySession_def cookieStore_def write_root_def cookiesPath_def get_path_pair
        with_child_def del: get_path.simps)
qed

lemma applyIngressRules_stores:
  "applyIngressRules (Some m) rules = Inr (Some (put_all (ruleStore rules m) m))"
  by (simp add: applyIngressRules_def ruleStore_def write_root_def with_child_def
      flip: existingRules_path) (simp add: rulesPath_def with_child_def)

lemma applyClients_stores:
  "applyClients srt (Some m) clients = Inr (Some (put_all (clientStore srt clients) m))"
  by (simp add: applyClients_def clientStore_def write_root_def clientsPath_def with_child_def)

lemma get_cookies_stable: "get_path cookiesPath (put_all (userStore settings) m) = get_path cookiesPath m"
  by (rule get_put_all_away) (auto simp: userStore_def split: option.splits)

lemma list_at_stable:
  "list_at rulesPath (put_all (cookieStore h m') (put_all (userStore settings) m)) = list_at rulesPath m"
proof -
  have "get_path rulesPath (put_all (userStore settings @ cookieStore h m') m) = get_path rulesPath m"
    by (rule get_put_all_away) (auto simp: store_defs split: option.splits)
  then show ?thesis by (simp add: list_at_def)
qed

lemma sm_wf_put_path [simp]: "sm_wf m \<Longrightarrow> sm_wf (put_path p v m)"
  by (cases p) simp_all

lemma sm_wf_put_all [simp]: "sm_wf m \<Longrightarrow> sm_wf (put_all ps m)"
  by (induction ps arbitrary: m) auto

lemma renderRoot_stores:
  assumes "initialRoot settings = Inr (Some m)"
  shows "renderRoot srt settings clients rules hostname =
    Inr (Some (put_all (stores srt settings clients rules hostname m) m))"
proof -
  let ?m1 = "put_all (userStore settings) m"
  have "sm_wf ?m1" using initialRoot_wf[OF assms] by simp
  moreover have "cookieStore hostname ?m1 = cookieStore hostname m"
    by (simp add: cookieStore_def get_cookies_stable)
  moreover have "ruleStore rules (put_all (cookieStore hostname m) ?m1) = ruleStore rules m"
    by (simp add: ruleStore_def list_at_stable)
  ultimately show ?thesis
    by (simp add: renderRoot_def assms applyFileBackend_stores applySession_stores
        applyIngressRules_stores applyClients_stores stores_def)
qed

lemma write_root_nil [simp]: "write_root f None = Inl (Panic ''assignment to entry in nil map'')"
  by (simp add: write_root_def)

text \<open>Rendering has something to store.\<close>

definition writes_needed :: "AutheliaSettings \<Rightarrow> oidcClient list \<Rightarrow> json smap list \<Rightarrow> string \<Rightarrow> bool" where
  "writes_needed settings clients rules hostname \<longleftrightarrow>
     FileUsersSecret settings \<noteq> None \<or> hostname \<noteq> [] \<or> rules \<noteq> [] \<or> clients \<noteq> []"

lemma renderRoot_nil:
  assumes "initialRoot settings = Inr None"
  shows "renderRoot srt settings clients rules hostname =
    (if writes_needed settings clients rules hostname
     then Inl (Panic ''assignment to entry in nil map'') else Inr None)"
  using assms
  by (auto simp: renderRoot_def writes_needed_def applyFileBackend_def applySession_def
      applyIngressRules_def applyClients_def split: option.splits)

section \<open>The sort contract\<close>

text \<open>
  The documented contract of \<open>sort.Slice\<close>, for a comparison function that is a strict weak
  ordering: the result is an ordered permutation. Elements that compare equal may come out
  in any order.
\<close>

locale slice_sort =
  fixes sort_Slice :: "('a \<Rightarrow> 'a \<Rightarrow> bool) \<Rightarrow> 'a list \<Rightarrow> 'a list"
  assumes perm: "less_order lt \<Longrightarrow> mset (sort_Slice lt xs) = mset xs"
    and ordered: "less_order lt \<Longrightarrow> ordered_by lt (sort_Slice lt xs)"
begin

lemma sorted_set: "less_order lt \<Longrightarrow> set (sort_Slice lt xs) = set xs"
  by (metis perm set_mset_mset)

lemma order_irrelevant:
  assumes lt: "less_order lt" and "mset xs = mset ys"
    and total: "\<And>x y. x \<in> set xs \<Longrightarrow> y \<in> set xs \<Longrightarrow> x \<noteq> y \<Longrightarrow> lt x y \<or> lt y x"
  shows "sort_Slice lt xs = sort_Slice lt ys"
  using less_order.ordered_unique[OF lt ordered[OF lt] ordered[OF lt]] perm[OF lt] assms(2) total
    sorted_set[OF lt]
  by metis

end

interpretation stable: slice_sort stable_sort
  by unfold_locales (simp_all add: less_order.ordered_stable_sort)

interpretation clientorder: less_order clientLess
  by unfold_locales (auto simp: clientLess_def)

text \<open>Another sort that keeps the contract: it reverses equal elements.\<close>

definition reversing_sort :: "('a \<Rightarrow> 'a \<Rightarrow> bool) \<Rightarrow> 'a list \<Rightarrow> 'a list" where
  "reversing_sort lt xs = stable_sort lt (rev xs)"

interpretation reversing: slice_sort reversing_sort
  by unfold_locales (simp_all add: reversing_sort_def less_order.ordered_stable_sort)

section \<open>Reading the rendered tree\<close>

lemma stores_paths:
  "(p, v) \<in> set (stores srt settings clients rules h m) \<Longrightarrow>
   p = usersPath \<or> p = cookiesPath \<or> p = rulesPath \<or> p = clientsPath"
  by (auto simp: stores_def store_defs split: option.splits if_splits)

lemma rendered_rules:
  "get_path rulesPath (put_all (stores srt settings clients rules h m) m) =
   (if rules = [] then get_path rulesPath m
    else Some (JArr (map JObj rules @ list_at rulesPath m)))"
proof (cases "rules = []")
  case True
  have "get_path rulesPath (put_all (stores srt settings clients rules h m) m) = get_path rulesPath m"
    by (rule get_put_all_away) (use True in \<open>auto simp: stores_def store_defs split: option.splits\<close>)
  with True show ?thesis by simp
next
  case False
  let ?v = "JArr (map JObj rules @ list_at rulesPath m)"
  have "\<forall>(p', v') \<in> set (clientStore srt clients). apart p' rulesPath"
    by (auto simp: clientStore_def)
  from get_put_all_last[OF paths_storable(3) this, of "userStore settings @ cookieStore h m" ?v m]
  show ?thesis using False by (simp add: stores_def ruleStore_def)
qed

lemma rendered_clients:
  "get_path clientsPath (put_all (stores srt settings clients rules h m) m) =
   (if clients = [] then get_path clientsPath m
    else Some (JArr (map (\<lambda>c. JObj (clientToMap c)) (srt clientLess clients))))"
proof (cases "clients = []")
  case True
  have "get_path clientsPath (put_all (stores srt settings clients rules h m) m) =
      get_path clientsPath m"
    by (rule get_put_all_away) (use True in \<open>auto simp: stores_def store_defs split: option.splits\<close>)
  with True show ?thesis by simp
next
  case False
  let ?v = "JArr (map (\<lambda>c. JObj (clientToMap c)) (srt clientLess clients))"
  from get_put_all_last[OF paths_storable(4), of "[]"
      "userStore settings @ cookieStore h m @ ruleStore rules m" ?v m]
  show ?thesis using False by (simp add: stores_def clientStore_def)
qed

lemma renderConfig_perm:
  assumes "slice_sort srt" and "mset clients = mset clients'"
    and "distinct (map (\<lambda>c. ClientID (oc_spec c)) clients)"
  shows "renderConfig srt yaml settings clients rules hostname =
         renderConfig srt yaml settings clients' rules hostname"
proof -
  have total: "clientLess x y \<or> clientLess y x"
    if "x \<in> set clients" "y \<in> set clients" "x \<noteq> y" for x y
  proof -
    have "ClientID (oc_spec x) \<noteq> ClientID (oc_spec y)"
      using assms(3) that by (auto simp: distinct_map inj_on_def)
    then show ?thesis by (simp only: clientLess_def neq_iff)
  qed
  have "srt clientLess clients = srt clientLess clients'"
    by (rule slice_sort.order_irrelevant[OF assms(1) clientorder.less_order_axioms assms(2) total])
  moreover have "clients = [] \<longleftrightarrow> clients' = []" using assms(2) by auto
  ultimately show ?thesis by (auto simp: renderConfig_def renderRoot_def applyClients_def)
qed

lemma renderConfig_clients:
  assumes "slice_sort srt" and "renderConfig srt yaml settings clients rules h = Inr rendered"
    and "clients \<noteq> []"
  obtains root cs where "yaml (Some root) = Some rendered" "mset cs = mset clients"
    "get_path clientsPath root = Some (JArr (map (\<lambda>c. JObj (clientToMap c)) cs))"
proof -
  obtain m0 where m0: "initialRoot settings = Inr m0"
    using assms(2) by (cases "initialRoot settings") (auto simp: renderConfig_def renderRoot_def)
  have "m0 \<noteq> None"
  proof
    assume "m0 = None"
    with m0 assms(3) have "renderRoot srt settings clients rules h = Inl (Panic ''assignment to entry in nil map'')"
      by (simp add: renderRoot_nil writes_needed_def)
    with assms(2) show False by (simp add: renderConfig_def)
  qed
  with m0 obtain m where m: "initialRoot settings = Inr (Some m)" by auto
  have "mset (srt clientLess clients) = mset clients"
    by (rule slice_sort.perm[OF assms(1) clientorder.less_order_axioms])
  then show thesis
    using assms(2,3) that[of "put_all (stores srt settings clients rules h m) m" "srt clientLess clients"]
    by (simp add: renderConfig_def renderRoot_stores[OF m] rendered_clients split: option.splits)
qed

lemma rendered_cookies:
  "get_path cookiesPath (put_all (stores srt settings clients rules h m) m) =
   (if h \<noteq> [] \<and> get_path cookiesPath m = None then Some (defaultCookies h)
    else get_path cookiesPath m)"
proof (cases "h \<noteq> [] \<and> get_path cookiesPath m = None")
  case False
  have "get_path cookiesPath (put_all (stores srt settings clients rules h m) m) =
      get_path cookiesPath m"
    by (rule get_put_all_away)
      (use False in \<open>auto simp: stores_def store_defs split: option.splits if_splits\<close>)
  with False show ?thesis by simp
next
  case True
  have "\<forall>(p', v') \<in> set (ruleStore rules m @ clientStore srt clients). apart p' cookiesPath"
    by (auto simp: store_defs)
  from get_put_all_last[OF paths_storable(2) this, of "userStore settings" "defaultCookies h" m]
  show ?thesis using True by (simp add: stores_def cookieStore_def)
qed

lemma renderRoot_same_clients:
  assumes "initialRoot settings = Inr (Some m)" and "clients \<noteq> []"
  shows "renderRoot srt settings clients rules h = renderRoot srt' settings clients rules h \<longleftrightarrow>
    map clientToMap (srt clientLess clients) = map clientToMap (srt' clientLess clients)"
    (is "?L \<longleftrightarrow> ?R")
proof
  assume ?L
  then have "get_path clientsPath (put_all (stores srt settings clients rules h m) m) =
      get_path clientsPath (put_all (stores srt' settings clients rules h m) m)"
    by (simp add: renderRoot_stores[OF assms(1)])
  then have "map JObj (map clientToMap (srt clientLess clients)) = map JObj (map clientToMap (srt' clientLess clients))"
    using assms(2) by (simp add: rendered_clients comp_def)
  then show ?R by (rule map_injective) (simp add: inj_def)
next
  assume ?R
  then have "map (\<lambda>c. JObj (clientToMap c)) (srt clientLess clients) =
      map (\<lambda>c. JObj (clientToMap c)) (srt' clientLess clients)"
    by (metis (no_types, lifting) list.map_comp comp_def map_eq_conv)
  then show ?L by (simp only: renderRoot_def applyClients_def)
qed

lemma sort_pair:
  assumes "slice_sort srt"
  shows "srt clientLess [c, d] = [c, d] \<or> srt clientLess [c, d] = [d, c]"
    and "ClientID (oc_spec c) < ClientID (oc_spec d) \<Longrightarrow> srt clientLess [c, d] = [c, d]"
    and "ClientID (oc_spec d) < ClientID (oc_spec c) \<Longrightarrow> srt clientLess [c, d] = [d, c]"
proof -
  let ?xs = "srt clientLess [c, d]"
  have p: "mset ?xs = mset [c, d]"
    by (rule slice_sort.perm[OF assms clientorder.less_order_axioms])
  then have "length ?xs = 2" by (metis length_Cons list.size(3) numeral_2_eq_2 size_mset)
  then obtain x y where xs: "?xs = [x, y]" by (auto simp: numeral_2_eq_2 length_Suc_conv)
  with p have two: "x = c \<and> y = d \<or> x = d \<and> y = c" by (auto simp: add_eq_conv_ex)
  then show "?xs = [c, d] \<or> ?xs = [d, c]" using xs by auto
  have "ordered_by clientLess ?xs"
    by (rule slice_sort.ordered[OF assms clientorder.less_order_axioms])
  then have "\<not> ClientID (oc_spec y) < ClientID (oc_spec x)"
    by (simp add: xs ordered_by_def clientLess_def)
  with two xs show "ClientID (oc_spec c) < ClientID (oc_spec d) \<Longrightarrow> ?xs = [c, d]"
    "ClientID (oc_spec d) < ClientID (oc_spec c) \<Longrightarrow> ?xs = [d, c]" by auto
qed

text \<open>A password of the LDAP backend, which the operator is documented to remove.\<close>

definition ldapPasswordPath :: "string list" where
  "ldapPasswordPath = [''authentication_backend'', ''ldap'', ''password'']"

lemma render_keeps_path:
  assumes "initialRoot settings = Inr (Some m)"
    and "renderRoot srt settings clients rules hostname = Inr (Some m')"
    and "apart usersPath p" and "apart cookiesPath p" and "apart rulesPath p" and "apart clientsPath p"
  shows "get_path p m' = get_path p m"
proof -
  have "m' = put_all (stores srt settings clients rules hostname m) m"
    using assms(2) by (simp add: renderRoot_stores[OF assms(1)])
  moreover have "\<forall>(q, v) \<in> set (stores srt settings clients rules hostname m). apart q p"
    using stores_paths assms(3-6) by fastforce
  ultimately show ?thesis using get_put_all_away by metis
qed

text \<open>The code does not do so: a password in \<open>additionalConfig\<close> is still in the rendered tree.\<close>

lemma ldap_password_kept:
  assumes "initialRoot settings = Inr (Some m)"
    and "renderRoot srt settings clients rules hostname = Inr (Some m')"
  shows "get_path ldapPasswordPath m' = get_path ldapPasswordPath m"
  by (rule render_keeps_path[OF assms]) (simp_all add: ldapPasswordPath_def apart_def path_defs)

text \<open>A value at \<open>session.cookies\<close> is kept whatever it is; an empty list or \<open>null\<close> suppresses the default
  cookie, although nothing usable is configured then.\<close>

lemma configured_cookies_kept:
  assumes "initialRoot settings = Inr (Some m)"
    and "renderRoot srt settings clients rules hostname = Inr (Some m')"
    and "get_path cookiesPath m = Some v"
  shows "get_path cookiesPath m' = Some v"
  using assms(2,3) by (auto simp: renderRoot_stores[OF assms(1)] rendered_cookies)

section \<open>Properties\<close>

text \<open>Sample inputs for the witnesses.\<close>

definition sample_config :: string where
  "sample_config =
     ''{'' @ quoted ''log'' @ '':{'' @ quoted ''level'' @ '':'' @ quoted ''info'' @ ''},'' @
     quoted ''access_control'' @ '':{'' @ quoted ''rules'' @ '':['' @ quoted ''static'' @ '']}}''"

definition sample_root :: "json smap" where
  "sample_root =
     [(''access_control'', JObj [(''rules'', JArr [JStr ''static''])]),
      (''log'', JObj [(''level'', JStr ''info'')])]"

definition sample_render_settings :: AutheliaSettings where
  "sample_render_settings = sample_settings\<lparr>AdditionalConfig := Some sample_config\<rparr>"

definition sample_client :: oidcClient where
  "sample_client = \<lparr>oc_spec = sample_spec, oc_secretDigest = ''digest-a''\<rparr>"

lemma sample_initialRoot: "initialRoot sample_render_settings = Inr (Some sample_root)"
  by code_simp

text \<open>Rendering is a sequence of at most four stores into the configuration the user gave:
  \<open>renderConfig\<close> marshals exactly the tree that results from writing the users-database
  path, the default session cookie, the generated access rules in front of the static ones
  and the client list, each only when it is called for.\<close>

theorem render_refines_stores:
  assumes "initialRoot settings = Inr (Some m)"
  shows "renderConfig srt yaml settings clients rules hostname =
    (case yaml (Some (put_all (stores srt settings clients rules hostname m) m)) of
       None \<Rightarrow> Inl (MarshalError ''marshalling config'') | Some out \<Rightarrow> Inr out)"
  by (simp add: renderConfig_def renderRoot_stores[OF assms])

theorem render_refines_stores_witness:
  "renderConfig stable_sort (\<lambda>_. Some ''yaml'') sample_render_settings [sample_client] [] [] =
   Inr ''yaml''"
  using render_refines_stores[OF sample_initialRoot, of stable_sort "\<lambda>_. Some ''yaml''"
      "[sample_client]" "[]" "[]"]
  by simp

text \<open>C16: Rendering merges verbatim: a path that neither lies on nor below one of the four paths the
  operator controls (\<open>authentication_backend.file.path\<close>, \<open>session.cookies\<close>,
  \<open>access_control.rules\<close>, \<open>identity_providers.oidc.clients\<close>) or the password of the LDAP backend,
  nor leads to one, has the same value after rendering as in the user's configuration, whatever
  clients, rules and host name are given.\<close>

theorem render_keeps_user_config:
  assumes "initialRoot settings = Inr (Some m)"
    and "renderRoot srt settings clients rules hostname = Inr (Some m')"
    and "apart usersPath p" and "apart cookiesPath p" and "apart rulesPath p" and "apart clientsPath p"
    and "apart ldapPasswordPath p"
  shows "get_path p m' = get_path p m"
  by (rule render_keeps_path[OF assms(1-6)])

theorem render_keeps_user_config_witness:
  "get_path [''log'', ''level'']
     (put_all (stores stable_sort sample_render_settings [sample_client] [] ''sso.example'' sample_root)
       sample_root) = Some (JStr ''info'')"
proof -
  have "apart usersPath [''log'', ''level'']" "apart cookiesPath [''log'', ''level'']"
    "apart rulesPath [''log'', ''level'']" "apart clientsPath [''log'', ''level'']"
    "apart ldapPasswordPath [''log'', ''level'']"
    by (simp_all add: apart_def path_defs ldapPasswordPath_def)
  from render_keeps_user_config[OF sample_initialRoot renderRoot_stores[OF sample_initialRoot] this]
  show ?thesis by (simp add: sample_root_def)
qed

text \<open>C17: The generated access rules are placed in front of the static rules of the
  configuration, in the order given, so that under first-match evaluation they take
  precedence; without generated rules the static ones are untouched.\<close>

theorem generated_rules_first:
  assumes "initialRoot settings = Inr (Some m)"
    and "renderRoot srt settings clients rules hostname = Inr (Some m')"
  shows "get_path rulesPath m' =
    (if rules = [] then get_path rulesPath m
     else Some (JArr (map JObj rules @ list_at rulesPath m)))"
  using assms(2) rendered_rules by (auto simp: renderRoot_stores[OF assms(1)])

theorem generated_rules_first_witness:
  "get_path rulesPath
     (put_all (stores stable_sort sample_render_settings [] [[(''policy'', JStr ''deny'')]] [] sample_root)
       sample_root) =
   Some (JArr [JObj [(''policy'', JStr ''deny'')], JStr ''static''])"
  using generated_rules_first[OF sample_initialRoot renderRoot_stores[OF sample_initialRoot],
      of stable_sort "[]" "[[(''policy'', JStr ''deny'')]]" "[]"]
  by (simp add: list_at_def rulesPath_def sample_root_def)

text \<open>C18: All collected clients, and only those, are rendered under
  \<open>identity_providers.oidc.clients\<close>, ordered by client ID, for every sort that keeps the
  contract of \<open>sort.Slice\<close>; without clients the section is untouched, so that no identity
  provider is enabled by accident.\<close>

theorem clients_rendered:
  assumes "slice_sort srt" and "initialRoot settings = Inr (Some m)"
    and "renderRoot srt settings clients rules hostname = Inr (Some m')"
  shows "if clients = [] then get_path clientsPath m' = get_path clientsPath m
    else \<exists>cs. get_path clientsPath m' = Some (JArr (map (\<lambda>c. JObj (clientToMap c)) cs)) \<and>
           mset cs = mset clients \<and> sorted (map (\<lambda>c. ClientID (oc_spec c)) cs)"
proof -
  have m': "m' = put_all (stores srt settings clients rules hostname m) m"
    using assms(3) by (simp add: renderRoot_stores[OF assms(2)])
  have "mset (srt clientLess clients) = mset clients"
    by (rule slice_sort.perm[OF assms(1) clientorder.less_order_axioms])
  moreover have "ordered_by clientLess (srt clientLess clients)"
    by (rule slice_sort.ordered[OF assms(1) clientorder.less_order_axioms])
  then have "sorted (map (\<lambda>c. ClientID (oc_spec c)) (srt clientLess clients))"
    by (simp add: ordered_by_def clientLess_def sorted_wrt_map not_less)
  ultimately show ?thesis by (auto simp: m' rendered_clients)
qed

theorem clients_rendered_witness:
  "\<exists>cs. get_path clientsPath
     (put_all (stores stable_sort sample_render_settings [sample_client] [] [] sample_root) sample_root) =
       Some (JArr (map (\<lambda>c. JObj (clientToMap c)) cs)) \<and>
     mset cs = mset [sample_client] \<and> sorted (map (\<lambda>c. ClientID (oc_spec c)) cs)"
  using clients_rendered[OF stable.slice_sort_axioms sample_initialRoot
      renderRoot_stores[OF sample_initialRoot], of "[sample_client]" "[]" "[]"]
  by simp

text \<open>When the client IDs are distinct, the rendered configuration does not depend on the
  order in which the clients were listed, so that a reconcile that sees the same resources
  produces the same text and no rollout.\<close>

theorem render_order_independent:
  assumes "slice_sort srt" and "mset clients = mset clients'"
    and "distinct (map (\<lambda>c. ClientID (oc_spec c)) clients)"
  shows "renderConfig srt yaml settings clients rules hostname =
         renderConfig srt yaml settings clients' rules hostname"
  by (rule renderConfig_perm[OF assms])

theorem render_order_independent_witness:
  "renderConfig stable_sort (\<lambda>_. Some ''yaml'') sample_render_settings
     [sample_client, sample_client\<lparr>oc_spec := sample_spec\<lparr>ClientID := ''argo''\<rparr>\<rparr>] [] [] =
   renderConfig stable_sort (\<lambda>_. Some ''yaml'') sample_render_settings
     [sample_client\<lparr>oc_spec := sample_spec\<lparr>ClientID := ''argo''\<rparr>\<rparr>, sample_client] [] []"
  by (rule render_order_independent[OF stable.slice_sort_axioms])
    (simp_all add: sample_client_def sample_spec_def)

text \<open>C19: Which pairs of clients are rendered in a determined order: two clients come out the same under
  every sort that keeps the contract of \<open>sort.Slice\<close> exactly when their IDs differ (or when they
  are rendered alike). With one ID twice the output depends on the sort, although it is meant
  to be deterministic.\<close>

theorem duplicate_ids_not_determined:
  assumes "initialRoot settings = Inr (Some m)"
  shows "(\<forall>srt srt'. slice_sort srt \<and> slice_sort srt' \<longrightarrow>
      renderRoot srt settings [c, d] rules hostname = renderRoot srt' settings [c, d] rules hostname) \<longleftrightarrow>
    ClientID (oc_spec c) \<noteq> ClientID (oc_spec d) \<or> clientToMap c = clientToMap d"
    (is "?L \<longleftrightarrow> ?R")
proof
  assume ?L
  then have eq: "map clientToMap (stable_sort clientLess [c, d]) = map clientToMap (reversing_sort clientLess [c, d])"
    using stable.slice_sort_axioms reversing.slice_sort_axioms renderRoot_same_clients[OF assms, of "[c, d]"]
    by blast
  show ?R
  proof (cases "ClientID (oc_spec c) = ClientID (oc_spec d)")
    case True
    then have sorts: "stable_sort clientLess [c, d] = [c, d]" "reversing_sort clientLess [c, d] = [d, c]"
      by (simp_all add: reversing_sort_def clientLess_def)
    from eq[unfolded sorts] have "clientToMap c = clientToMap d" unfolding list.map list.inject ..
    then show ?thesis ..
  qed simp
next
  assume R: ?R
  show ?L
  proof (intro allI impI)
    fix srt srt' :: slice_sorter
    assume "slice_sort srt \<and> slice_sort srt'"
    then have ok: "slice_sort srt" "slice_sort srt'" by blast+
    from R consider "ClientID (oc_spec c) < ClientID (oc_spec d)" | "ClientID (oc_spec d) < ClientID (oc_spec c)"
      | "clientToMap d = clientToMap c" by fastforce
    then have "map clientToMap (srt clientLess [c, d]) = map clientToMap (srt' clientLess [c, d])"
    proof cases
      case 1
      then show ?thesis by (simp only: sort_pair(2)[OF ok(1)] sort_pair(2)[OF ok(2)])
    next
      case 2
      then show ?thesis by (simp only: sort_pair(3)[OF ok(1)] sort_pair(3)[OF ok(2)])
    next
      case 3
      have "map clientToMap (s clientLess [c, d]) = [clientToMap c, clientToMap c]" if "slice_sort s" for s
        using sort_pair(1)[OF that, of c d] by (elim disjE) (simp_all add: 3)
      from this[OF ok(1)] this[OF ok(2)] show ?thesis by simp
    qed
    then show "renderRoot srt settings [c, d] rules hostname = renderRoot srt' settings [c, d] rules hostname"
      by (simp add: renderRoot_same_clients[OF assms])
  qed
qed

theorem duplicate_ids_not_determined_witness:
  "\<exists>srt srt'. slice_sort srt \<and> slice_sort srt' \<and>
     renderRoot srt sample_render_settings [sample_client, sample_client\<lparr>oc_secretDigest := ''digest-b''\<rparr>] [] [] \<noteq>
     renderRoot srt' sample_render_settings [sample_client, sample_client\<lparr>oc_secretDigest := ''digest-b''\<rparr>] [] []"
proof -
  have "clientToMap sample_client \<noteq> clientToMap (sample_client\<lparr>oc_secretDigest := ''digest-b''\<rparr>)" by code_simp
  with duplicate_ids_not_determined[OF sample_initialRoot, of sample_client
      "sample_client\<lparr>oc_secretDigest := ''digest-b''\<rparr>" "[]" "[]"]
  show ?thesis by auto
qed

text \<open>C15: Every failure of rendering is accounted for: a parse error exactly when
  \<open>additionalConfig\<close> is not the JSON text of an object or \<open>null\<close>; a panic exactly when it
  is \<open>null\<close> and there is something to write; otherwise only the marshaller can fail.\<close>

theorem render_errors:
  "renderConfig srt yaml settings clients rules hostname =
    (case initialRoot settings of
       Inl e \<Rightarrow> Inl (ParseError ''parsing additionalConfig'')
     | Inr root \<Rightarrow>
         (if root = None \<and> writes_needed settings clients rules hostname
          then Inl (Panic ''assignment to entry in nil map'')
          else case yaml (map_option (\<lambda>m. put_all (stores srt settings clients rules hostname m) m) root) of
                 None \<Rightarrow> Inl (MarshalError ''marshalling config'') | Some out \<Rightarrow> Inr out))"
proof (cases "initialRoot settings")
  case (Inl e)
  then show ?thesis
    by (auto simp: renderConfig_def renderRoot_def initialRoot_def split: option.splits if_splits)
next
  case (Inr root)
  then show ?thesis
    by (cases root) (simp_all add: renderConfig_def renderRoot_nil renderRoot_stores)
qed

text \<open>C20: With a host name the rendered configuration has a session cookie, unless the user wrote something
  other than a list of cookies at \<open>session.cookies\<close>: the user's list, if it has an entry,
  unchanged; and when nothing is there, one default cookie with the portal's URL and the parent
  domain of the host name.\<close>

theorem session_cookie_present:
  assumes "initialRoot settings = Inr (Some m)" and "hostname \<noteq> []"
    and "renderRoot srt settings clients rules hostname = Inr (Some m')"
    and "get_path cookiesPath m = None \<or> get_path cookiesPath m = Some (JArr cookies) \<and> cookies \<noteq> []"
  shows "\<exists>c cs. get_path cookiesPath m' = Some (JArr (c # cs)) \<and>
    (if get_path cookiesPath m = None
     then cs = [] \<and> c = JObj [(''authelia_url'', JStr (''https://'' @ hostname)),
                             (''domain'', JStr (parentDomain hostname))]
     else c # cs = cookies)"
proof (cases "get_path cookiesPath m")
  case None
  have "defaultCookies hostname =
     JArr [JObj [(''authelia_url'', JStr (''https://'' @ hostname)),
                 (''domain'', JStr (parentDomain hostname))]]"
    by (simp add: defaultCookies_def sm_of_list_def)
  with None assms(2,3) show ?thesis by (auto simp: renderRoot_stores[OF assms(1)] rendered_cookies)
next
  case (Some v)
  from configured_cookies_kept[OF assms(1,3) Some] Some assms(4) show ?thesis by (cases cookies) auto
qed

theorem session_cookie_present_witness:
  "get_path cookiesPath
     (put_all (stores stable_sort sample_render_settings [] [] ''sso.example.com'' sample_root) sample_root) =
   Some (JArr [JObj [(''authelia_url'', JStr ''https://sso.example.com''),
                     (''domain'', JStr ''example.com'')]])"
proof -
  have "get_path cookiesPath sample_root = None" "parentDomain ''sso.example.com'' = ''example.com''"
    by code_simp+
  with session_cookie_present[OF sample_initialRoot _ renderRoot_stores[OF sample_initialRoot],
      of "''sso.example.com''" "[]" stable_sort "[]" "[]"]
  show ?thesis by auto
qed

text \<open>A rendered client is either public, without a secret, or carries the digest of its
  secret and is not marked public; its ID is the given one, and every optional string field
  is present exactly when it is set.\<close>

theorem clientToMap_fields:
  "sm_wf (clientToMap c) \<and>
   sm_lookup (clientToMap c) ''client_id'' = Some (JStr (ClientID (oc_spec c))) \<and>
   sm_lookup (clientToMap c) ''public'' = (if Public (oc_spec c) then Some (JBool True) else None) \<and>
   sm_lookup (clientToMap c) ''client_secret'' =
     (if Public (oc_spec c) then None else Some (JStr (oc_secretDigest c))) \<and>
   sm_lookup (clientToMap c) ''authorization_policy'' =
     (if AuthorizationPolicy (oc_spec c) = [] then None
      else Some (JStr (AuthorizationPolicy (oc_spec c)))) \<and>
   sm_lookup (clientToMap c) ''redirect_uris'' =
     (if RedirectURIs (oc_spec c) = [] then None
      else Some (JArr (map JStr (RedirectURIs (oc_spec c)))))"
proof -
  have wf: "sm_wf (set_string k v m)" "sm_wf (set_strings k vs m)" if "sm_wf m" for k v vs m
    using that by (simp_all add: set_string_def set_strings_def)
  have lk: "sm_lookup (set_string k v m) k' =
      (if k' = k \<and> v \<noteq> [] then Some (JStr v) else sm_lookup m k')"
    "sm_lookup (set_strings k vs m) k' =
      (if k' = k \<and> vs \<noteq> [] then Some (JArr (map JStr vs)) else sm_lookup m k')" for k v vs m k'
    by (simp_all add: set_string_def set_strings_def toIfaceSlice_def)
  show ?thesis by (simp add: clientToMap_def Let_def wf lk)
qed

text \<open>The cookie domain covers the portal: the parent domain is what follows the first dot
  of the host name, or the host name itself when nothing follows one; it is always a suffix
  of the host name, and empty only for the empty host name.\<close>

theorem parentDomain_spec:
  "suffix (parentDomain h) h \<and> (parentDomain h = [] \<longleftrightarrow> h = []) \<and>
   parentDomain h = (let r = tl (dropWhile (\<lambda>c. c \<noteq> CHR ''.'') h) in if r = [] then h else r)"
proof (cases "IndexByte h (CHR ''.'')")
  case None
  then have "\<forall>c \<in> set h. c \<noteq> CHR ''.''" by (auto simp: IndexByte_None)
  then have "dropWhile (\<lambda>c. c \<noteq> CHR ''.'') h = []" by (simp only: dropWhile_eq_Nil_conv)
  then have "tl (dropWhile (\<lambda>c. c \<noteq> CHR ''.'') h) = []" by (simp only: list.sel)
  with None show ?thesis by (simp add: parentDomain_def)
next
  case (Some i)
  note at = IndexByte_Some[OF Some]
  have "dropWhile (\<lambda>c. c \<noteq> CHR ''.'') (take i h @ CHR ''.'' # drop (Suc i) h) =
      CHR ''.'' # drop (Suc i) h"
    using at by (subst dropWhile_append2) auto
  then have "tl (dropWhile (\<lambda>c. c \<noteq> CHR ''.'') h) = drop (Suc i) h"
    unfolding IndexByte_split[OF Some, symmetric] by simp
  then show ?thesis using Some at by (auto simp: parentDomain_def suffix_drop)
qed

text \<open>The checksum annotation is 64 hexadecimal digits, and two configurations have the
  same annotation exactly when they have the same SHA-256 sum, so that a change of the
  configuration changes the Pod template unless it is a hash collision.\<close>

theorem configChecksum_hex:
  "length (configChecksum r) = 64 \<and> set (configChecksum r) \<subseteq> set hex_digits \<and>
   (configChecksum r = configChecksum r' \<longleftrightarrow> sha256_Sum256 r = sha256_Sum256 r')"
  by (auto simp: configChecksum_def length_hex dest: hex_inj subsetD[OF set_hex])

end
