(* ===== verification/Secrets.thy ===== *)
theory Secrets
  imports Resources GoCrypto
begin

text \<open>
  \<open>internal/controller/secrets.go\<close>: generated secrets and client-secret digests.

  Randomness is a tape of bytes that the generators consume, so each generator is an action
  on the tape: it returns a value and the rest of the tape, or \<open>RandError\<close> when the tape is
  used up (the entropy source failed). \<open>rsa.GenerateKey\<close> with \<open>x509.MarshalPKCS1PrivateKey\<close>
  is a parameter: a function of the tape that yields the DER bytes of a key or fails.
  A data map of a Secret is a partial function; \<open>None\<close> for the whole map is the nil map.

  The locale \<open>fill_once\<close> is the contract of a generator that fills missing values of a data
  map and never touches present ones; it is interpreted on the core secret here and on the
  OAuth client secret in its controller's theory.
\<close>

section \<open>Definitions\<close>

definition keySessionEncryption :: string where
  "keySessionEncryption = ''SESSION_ENCRYPTION_KEY''"

definition keyStorageEncryption :: string where
  "keyStorageEncryption = ''STORAGE_ENCRYPTION_KEY''"

definition keyOIDCHMACSecret :: string where
  "keyOIDCHMACSecret = ''OIDC_HMAC_SECRET''"

definition keyOIDCPrivateKey :: string where
  "keyOIDCPrivateKey = ''OIDC_PRIVATE_KEY''"

lemmas key_defs = keySessionEncryption_def keyStorageEncryption_def keyOIDCHMACSecret_def
  keyOIDCPrivateKey_def

definition alphanumeric :: string where
  "alphanumeric = ''ABCDEFGHIJKLMNOPQRSTUVWXYZabcdefghijklmnopqrstuvwxyz0123456789''"

definition pbkdf2Iterations :: nat where
  "pbkdf2Iterations = 310000"

definition crypt64 :: "bytes \<Rightarrow> string" where
  "crypt64 bs =
     base64_raw ''ABCDEFGHIJKLMNOPQRSTUVWXYZabcdefghijklmnopqrstuvwxyz0123456789./'' bs"

text \<open>\<open>hashClientSecret\<close>; the flag says whether the process runs in FIPS-only mode.\<close>

definition hashClientSecret :: "bool \<Rightarrow> string \<Rightarrow> (bytes, string) act" where
  "hashClientSecret fipsOnly secret =
     bindA (rand_Read 16) (\<lambda>salt.
     bindA (liftR (pbkdf2_Key fipsOnly secret salt pbkdf2Iterations sha512_Size)) (\<lambda>key.
     returnA (''$pbkdf2-sha512$'' @ show_nat pbkdf2Iterations @ ''$'' @ crypt64 salt @ ''$'' @ crypt64 key)))"

fun generateAlphanumeric :: "nat \<Rightarrow> (bytes, string) act" where
  "generateAlphanumeric 0 tape = (Inr [], tape)"
| "generateAlphanumeric (Suc n) tape =
     bindA rand_Int62 (\<lambda>idx. bindA (generateAlphanumeric n) (\<lambda>buf.
       returnA (alphanumeric ! idx # buf))) tape"

type_synonym rsa_gen = "(bytes, bytes) act"

definition generateRSAPrivateKeyPEM :: "rsa_gen \<Rightarrow> (bytes, bytes) act" where
  "generateRSAPrivateKeyPEM rsa_GenerateKey =
     bindA rsa_GenerateKey (\<lambda>der. returnA (pem_EncodeToMemory ''RSA PRIVATE KEY'' der))"

type_synonym datamap = "string \<Rightarrow> bytes option"

text \<open>\<open>len(data[key]) > 0\<close>.\<close>

definition has_value :: "datamap \<Rightarrow> string \<Rightarrow> bool" where
  "has_value data key \<longleftrightarrow> (case data key of Some v \<Rightarrow> v \<noteq> [] | None \<Rightarrow> False)"

text \<open>
  \<open>if len(data[key]) > 0 \{ continue \}; v, err := gen(); ...; data[key] = v\<close>.
\<close>

definition fill_key :: "(bytes, bytes) act \<Rightarrow> string \<Rightarrow> datamap \<Rightarrow> (bytes, datamap) act" where
  "fill_key gen key data =
     (if has_value data key then returnA data
      else bindA gen (\<lambda>v. returnA (data(key \<mapsto> v))))"

fun fill_alphanumeric :: "string list \<Rightarrow> datamap \<Rightarrow> (bytes, datamap) act" where
  "fill_alphanumeric [] data = returnA data"
| "fill_alphanumeric (key # keys) data =
     bindA (fill_key (generateAlphanumeric 64) key data) (\<lambda>data. fill_alphanumeric keys data)"

definition generatedCoreSecretData :: "rsa_gen \<Rightarrow> datamap option \<Rightarrow> (bytes, datamap) act" where
  "generatedCoreSecretData rsa_GenerateKey data =
     (let data0 = (case data of None \<Rightarrow> Map.empty | Some d \<Rightarrow> d) in
      bindA (fill_alphanumeric [keySessionEncryption, keyStorageEncryption, keyOIDCHMACSecret] data0)
        (\<lambda>data. fill_key (generateRSAPrivateKeyPEM rsa_GenerateKey) keyOIDCPrivateKey data))"

section \<open>Random strings\<close>

text \<open>A byte that \<open>rand.Int\<close> accepts, and the letter it selects.\<close>

definition accepted :: "char \<Rightarrow> bool" where
  "accepted c \<longleftrightarrow> byte_of c mod 64 < (62 :: nat)"

definition letter :: "char \<Rightarrow> char" where
  "letter c = alphanumeric ! (byte_of c mod 64)"

lemma rand_Int62_skip:
  "rand_Int62 tape =
     (case dropWhile (\<lambda>c. \<not> accepted c) tape of
        [] \<Rightarrow> (Inl RandError, []) | c # rest \<Rightarrow> (Inr (byte_of c mod 64), rest))"
  by (induction tape rule: rand_Int62.induct) (auto simp: accepted_def Let_def)

lemma filter_dropWhile: "filter P (dropWhile (\<lambda>c. \<not> P c) xs) = filter P xs"
  by (induction xs) auto

lemma generateAlphanumeric_result:
  "fst (generateAlphanumeric n tape) =
     (let good = filter accepted tape in
      if n \<le> length good then Inr (map letter (take n good)) else Inl RandError)"
proof (induction n arbitrary: tape)
  case (Suc n)
  show ?case
  proof (cases "dropWhile (\<lambda>c. \<not> accepted c) tape")
    case Nil
    then have "filter accepted tape = []" using filter_dropWhile[of accepted tape] by simp
    moreover have "rand_Int62 tape = (Inl RandError, [])" using Nil by (simp only: rand_Int62_skip list.case)
    ultimately show ?thesis by (simp add: bindA_run)
  next
    case (Cons c rest)
    then have "accepted c" by (metis dropWhile_hd list.sel(1) list.simps(3))
    with Cons have "filter accepted tape = c # filter accepted rest"
      using filter_dropWhile[of accepted tape] by simp
    with Cons Suc.IH[of rest] show ?thesis
      by (auto simp: rand_Int62_skip bindA_run Let_def letter_def split: sum.splits)
  qed
qed (simp add: Let_def)

lemma length_alphanumeric [simp]: "length alphanumeric = 62"
  by (simp add: alphanumeric_def)

lemma distinct_alphanumeric: "distinct alphanumeric"
  by (simp add: alphanumeric_def)

lemma letter_in: "accepted c \<Longrightarrow> letter c \<in> set alphanumeric"
  by (simp add: accepted_def letter_def)

lemma generateAlphanumeric_Inr:
  assumes "generateAlphanumeric n tape = (Inr v, tape')"
  shows "length v = n \<and> set v \<subseteq> set alphanumeric"
proof -
  have "v = map letter (take n (filter accepted tape))" "n \<le> length (filter accepted tape)"
    using generateAlphanumeric_result[of n tape] assms by (auto simp: Let_def split: if_splits)
  then show ?thesis by (auto simp: letter_in dest!: in_set_takeD)
qed

text \<open>The bytes with the same low six bits.\<close>

lemma same_low_bits:
  assumes "i < 64"
  shows "{c. byte_of c mod 64 = i} = (\<lambda>j. char_of_nat (i + 64 * j)) ` {..<4}"
proof (intro equalityI subsetI)
  fix c :: char
  assume c: "c \<in> {c. byte_of c mod 64 = i}"
  have "byte_of c < (256 :: nat)" by simp
  then have "byte_of c div 64 \<in> {..<4 :: nat}" by (simp add: less_mult_imp_div_less)
  moreover have "byte_of c = i + 64 * (byte_of c div 64)"
    using c mult_div_mod_eq[of 64 "byte_of c"] by simp
  then have "c = char_of_nat (i + 64 * (byte_of c div 64))" by (metis char_of_char)
  ultimately show "c \<in> (\<lambda>j. char_of_nat (i + 64 * j)) ` {..<4}" by blast
next
  fix c
  assume "c \<in> (\<lambda>j. char_of_nat (i + 64 * j)) ` {..<4}"
  then obtain j where j: "c = char_of_nat (i + 64 * j)" "j < 4" by auto
  then have "byte_of c = i + 64 * j" using assms by simp
  then have "byte_of c mod 64 = i mod 64" by (simp only: mod_mult_self2)
  with assms show "c \<in> {c. byte_of c mod 64 = i}" by simp
qed

lemma card_same_low_bits:
  assumes "i < 64"
  shows "card {c. byte_of c mod 64 = i} = 4"
proof -
  have "inj_on (\<lambda>j. char_of_nat (i + 64 * j)) {..<4}"
  proof (rule inj_onI)
    fix j k
    assume jk: "j \<in> {..<4}" "k \<in> {..<4}" "char_of_nat (i + 64 * j) = char_of_nat (i + 64 * k)"
    then have "byte_of (char_of_nat (i + 64 * j)) = (byte_of (char_of_nat (i + 64 * k)) :: nat)" by simp
    with jk(1,2) assms show "j = k" by (simp del: char_of_eq_iff)
  qed
  then show ?thesis by (simp add: same_low_bits[OF assms] card_image)
qed

text \<open>The letters of a string are selected by the first accepted bytes of a tape.\<close>

definition selects :: "bytes \<Rightarrow> string \<Rightarrow> bool" where
  "selects tape v \<longleftrightarrow> length v \<le> length (filter accepted tape) \<and>
     map letter (take (length v) (filter accepted tape)) = v"

lemma selects_simps:
  "selects tape []"
  "\<not> selects [] (x # v)"
  "selects (b # tape) (x # v) \<longleftrightarrow> (if accepted b then letter b = x \<and> selects tape v else selects tape (x # v))"
  by (auto simp: selects_def)

lemma generateAlphanumeric_selects:
  "fst (generateAlphanumeric n tape) = Inr v \<longleftrightarrow> length v = n \<and> selects tape v"
  by (auto simp: generateAlphanumeric_result Let_def selects_def)

lemma card_first_byte:
  "card {t :: bytes. length t = Suc m \<and> P t} = (\<Sum>b\<in>UNIV. card {t. length t = m \<and> P (b # t)})"
proof -
  have fin: "finite {t :: bytes. length t = m \<and> P (b # t)}" for b
    using finite_lists_length_eq[of "UNIV :: char set" m] by (auto intro: finite_subset[rotated])
  have "{t :: bytes. length t = Suc m \<and> P t} = (\<Union>b. (#) b ` {t. length t = m \<and> P (b # t)})"
    by (auto simp: length_Suc_conv)
  then have "card {t :: bytes. length t = Suc m \<and> P t} =
      (\<Sum>b\<in>UNIV. card ((#) b ` {t. length t = m \<and> P (b # t)}))"
    using fin by (simp add: card_UN_disjoint) (subst card_UN_disjoint, auto)
  then show ?thesis by (simp add: card_image)
qed

lemma card_letter:
  assumes "x \<in> set alphanumeric"
  shows "card {c. accepted c \<and> letter c = x} = 4"
proof -
  from assms obtain i where i: "i < 62" "alphanumeric ! i = x" by (auto simp: in_set_conv_nth)
  have "{c. accepted c \<and> letter c = x} = {c. byte_of c mod 64 = i}"
    using i nth_eq_iff_index_eq[OF distinct_alphanumeric] by (auto simp: accepted_def letter_def)
  then show ?thesis using card_same_low_bits[of i] i by simp
qed

lemma card_selects_Cons:
  assumes "x \<in> set alphanumeric"
  shows "card {t. length t = Suc m \<and> selects t (x # v)} =
    card {b. \<not> accepted b} * card {t. length t = m \<and> selects t (x # v)} +
    4 * card {t. length t = m \<and> selects t v}"
proof -
  let ?N = "\<lambda>w. card {t. length t = m \<and> selects t w}"
  have "card {t. length t = Suc m \<and> selects t (x # v)} =
      (\<Sum>b\<in>UNIV. card {t. length t = m \<and> selects (b # t) (x # v)})" by (rule card_first_byte)
  also have "\<dots> = (\<Sum>b\<in>UNIV. (if \<not> accepted b then ?N (x # v) else 0) +
      (if accepted b \<and> letter b = x then ?N v else 0))"
    by (rule sum.cong) (simp_all add: selects_simps)
  also have "\<dots> = card {b. \<not> accepted b} * ?N (x # v) + card {b. accepted b \<and> letter b = x} * ?N v"
    by (simp add: sum.distrib sum.If_cases)
  finally show ?thesis using card_letter[OF assms] by simp
qed

lemma card_selects:
  assumes "length v = length v'" and "set v \<subseteq> set alphanumeric" and "set v' \<subseteq> set alphanumeric"
  shows "card {t. length t = m \<and> selects t v} = card {t. length t = m \<and> selects t v'}"
  using assms
proof (induction m arbitrary: v v')
  case 0
  then show ?case by (cases v; cases v') (auto simp: selects_simps cong: conj_cong)
next
  case (Suc m)
  show ?case
  proof (cases v)
    case Nil
    with Suc.prems(1) show ?thesis by simp
  next
    case (Cons x u)
    with Suc.prems(1) obtain x' u' where v': "v' = x' # u'" by (cases v') auto
    from Suc.prems Cons v' have "card {t. length t = m \<and> selects t (x # u)} = card {t. length t = m \<and> selects t (x' # u')}"
      "card {t. length t = m \<and> selects t u} = card {t. length t = m \<and> selects t u'}"
      by (auto intro!: Suc.IH)
    with Suc.prems Cons v' show ?thesis by (simp add: card_selects_Cons)
  qed
qed

lemma card_selects_exact:
  "set v \<subseteq> set alphanumeric \<Longrightarrow> card {t. length t = length v \<and> selects t v} = 4 ^ length v"
proof (induction v)
  case (Cons x v)
  have "\<not> selects t (x # v)" if "length t = length v" for t
    using length_filter_le[of accepted t] that by (auto simp: selects_def)
  then have "card {t. length t = length v \<and> selects t (x # v)} = 0" by (simp cong: conj_cong)
  with Cons show ?case by (simp add: card_selects_Cons)
qed (simp add: selects_simps)

lemma hashClientSecret_total:
  "\<exists>h t'. hashClientSecret fips secret (replicate 16 c) = (Inr h, t')"
  using pbkdf2_Key_total[of "replicate 16 c" fips secret pbkdf2Iterations]
  by (auto simp: hashClientSecret_def bindA_run rand_Read_def)

section \<open>Filling in missing values\<close>

text \<open>
  The contract of a step that generates the missing values of a set of keys: a present value
  is never changed, other keys are not touched, on success every key of the set has a value,
  and with nothing missing the step does nothing and draws no randomness.
\<close>

locale fill_once =
  fixes fill :: "datamap \<Rightarrow> (bytes, datamap) act"
    and keys :: "string set"
  assumes preserve: "fill d t = (Inr d', t') \<Longrightarrow> has_value d k \<Longrightarrow> d' k = d k"
    and untouched: "fill d t = (Inr d', t') \<Longrightarrow> k \<notin> keys \<Longrightarrow> d' k = d k"
    and complete: "fill d t = (Inr d', t') \<Longrightarrow> k \<in> keys \<Longrightarrow> has_value d' k"
    and stable: "(\<And>k. k \<in> keys \<Longrightarrow> has_value d k) \<Longrightarrow> fill d t = (Inr d, t)"
begin

lemma keeps_value: "fill d t = (Inr d', t') \<Longrightarrow> has_value d k \<Longrightarrow> has_value d' k"
  by (simp add: preserve has_value_def)

lemma refill: "fill d t = (Inr d', t') \<Longrightarrow> fill d' u = (Inr d', u)"
  by (rule stable) (rule complete)

end

lemma fill_key_Inr:
  assumes "fill_key gen key d t = (Inr d', t')"
  obtains (present) "has_value d key" "d' = d" "t' = t"
    | (generated) v where "\<not> has_value d key" "gen t = (Inr v, t')" "d' = d(key \<mapsto> v)"
  using assms by (auto simp: fill_key_def split: if_splits elim!: bindA_Inr)

lemma fill_once_key:
  assumes "\<And>d t v t'. gen d t = (Inr v, t') \<Longrightarrow> v \<noteq> []"
  shows "fill_once (\<lambda>d. fill_key (gen d) key d) {key}"
proof
  fix d t d' t' k
  assume run: "fill_key (gen d) key d t = (Inr d', t')"
  then have shape: "if has_value d key then d' = d else (\<exists>v. v \<noteq> [] \<and> d' = d(key \<mapsto> v))"
    using assms by (auto simp: fill_key_def elim!: bindA_Inr) blast
  show "has_value d k \<Longrightarrow> d' k = d k" using shape by (auto split: if_splits)
  show "k \<notin> {key} \<Longrightarrow> d' k = d k" using shape by (auto split: if_splits)
  show "k \<in> {key} \<Longrightarrow> has_value d' k"
    using shape by (auto simp: has_value_def split: if_splits)
next
  fix d t
  assume "\<And>k. k \<in> {key} \<Longrightarrow> has_value d k"
  then show "fill_key (gen d) key d t = (Inr d, t)" by (simp add: fill_key_def)
qed

lemma fill_once_seq:
  assumes "fill_once f K" and "fill_once g L"
  shows "fill_once (\<lambda>d. bindA (f d) g) (K \<union> L)"
proof -
  note F = fill_once.preserve[OF assms(1)] fill_once.untouched[OF assms(1)]
    fill_once.complete[OF assms(1)] fill_once.stable[OF assms(1)]
  note G = fill_once.preserve[OF assms(2)] fill_once.untouched[OF assms(2)]
    fill_once.complete[OF assms(2)] fill_once.stable[OF assms(2)]
  show ?thesis
  proof
    fix d t d' t' k
    assume "bindA (f d) g t = (Inr d', t')"
    then obtain d1 t1 where run: "f d t = (Inr d1, t1)" "g d1 t1 = (Inr d', t')" by (rule bindA_Inr)
    show "has_value d k \<Longrightarrow> d' k = d k"
      using F(1)[OF run(1)] G(1)[OF run(2)] by (simp add: has_value_def)
    show "k \<notin> K \<union> L \<Longrightarrow> d' k = d k"
      using F(2)[OF run(1)] G(2)[OF run(2)] by simp
    show "k \<in> K \<union> L \<Longrightarrow> has_value d' k"
      using F(3)[OF run(1)] G(3)[OF run(2)] fill_once.keeps_value[OF assms(2) run(2)] by blast
  next
    fix d t
    assume "\<And>k. k \<in> K \<union> L \<Longrightarrow> has_value d k"
    then show "bindA (f d) g t = (Inr d, t)" using F(4)[of d t] G(4)[of d t] by (simp add: bindA_step)
  qed
qed

lemma fill_once_return: "fill_once returnA {}"
  by unfold_locales auto

lemma generateAlphanumeric_nonempty: "generateAlphanumeric 64 t = (Inr v, t') \<Longrightarrow> v \<noteq> []"
  using generateAlphanumeric_Inr by fastforce

lemma generateRSA_nonempty: "generateRSAPrivateKeyPEM rsa t = (Inr v, t') \<Longrightarrow> v \<noteq> []"
  by (auto simp: generateRSAPrivateKeyPEM_def pem_EncodeToMemory_def elim!: bindA_Inr)

lemma fill_alphanumeric_once: "fill_once (fill_alphanumeric keys) (set keys)"
proof (induction keys)
  case Nil
  have "fill_alphanumeric [] = returnA" by (rule ext) simp
  then show ?case using fill_once_return by (simp only: list.set(1))
next
  case (Cons k ks)
  have "fill_once (\<lambda>d. fill_key (generateAlphanumeric 64) k d) {k}"
    by (rule fill_once_key) (rule generateAlphanumeric_nonempty)
  from fill_once_seq[OF this Cons.IH]
  have "fill_once (\<lambda>d. fill_alphanumeric (k # ks) d) ({k} \<union> set ks)"
    by (simp del: Un_insert_left)
  then show ?case by simp
qed

definition coreKeys :: "string set" where
  "coreKeys = {keySessionEncryption, keyStorageEncryption, keyOIDCHMACSecret, keyOIDCPrivateKey}"

lemma core_fill_once: "fill_once (\<lambda>d. generatedCoreSecretData rsa (Some d)) coreKeys"
proof -
  have "fill_once (\<lambda>d. fill_key (generateRSAPrivateKeyPEM rsa) keyOIDCPrivateKey d) {keyOIDCPrivateKey}"
    by (rule fill_once_key) (rule generateRSA_nonempty)
  from fill_once_seq[OF fill_alphanumeric_once this,
      of "[keySessionEncryption, keyStorageEncryption, keyOIDCHMACSecret]"]
  have "fill_once (\<lambda>d. generatedCoreSecretData rsa (Some d))
      (set [keySessionEncryption, keyStorageEncryption, keyOIDCHMACSecret] \<union> {keyOIDCPrivateKey})"
    unfolding generatedCoreSecretData_def Let_def option.case .
  moreover have "set [keySessionEncryption, keyStorageEncryption, keyOIDCHMACSecret] \<union> {keyOIDCPrivateKey} =
      coreKeys" by (auto simp: coreKeys_def)
  ultimately show ?thesis by simp
qed

interpretation core: fill_once "\<lambda>d. generatedCoreSecretData rsa (Some d)" coreKeys for rsa
  by (rule core_fill_once)

lemma generatedCoreSecretData_nil [simp]:
  "generatedCoreSecretData rsa None = generatedCoreSecretData rsa (Some Map.empty)"
  by (simp add: generatedCoreSecretData_def)

section \<open>Properties\<close>

text \<open>A tape long enough for the witnesses, and a key generator that reads nothing.\<close>

definition sample_tape :: bytes where
  "sample_tape = replicate 192 (CHR ''A'')"

definition sample_rsa :: rsa_gen where
  "sample_rsa = returnA ''DER''"

lemma sample_core_run:
  "\<exists>d t. generatedCoreSecretData sample_rsa None sample_tape = (Inr d, t)"
proof -
  have "case generatedCoreSecretData sample_rsa None sample_tape of (Inr d, t) \<Rightarrow> True | (Inl e, t) \<Rightarrow> False"
    by code_simp
  then show ?thesis by (cases "generatedCoreSecretData sample_rsa None sample_tape") (auto split: sum.splits)
qed

text \<open>Core secrets are never rotated: whatever the entropy source delivers, a value that is
  present and not empty is the same after \<open>generatedCoreSecretData\<close>, and no key other than
  the four core keys is touched.\<close>

theorem core_secrets_preserved:
  assumes "generatedCoreSecretData rsa (Some data) tape = (Inr data', tape')"
  shows "(has_value data k \<longrightarrow> data' k = data k) \<and> (k \<notin> coreKeys \<longrightarrow> data' k = data k)"
  using core.preserve[OF assms] core.untouched[OF assms] by blast

theorem core_secrets_preserved_witness:
  "\<exists>d t. generatedCoreSecretData sample_rsa (Some [keySessionEncryption \<mapsto> ''old'']) sample_tape = (Inr d, t) \<and>
     d keySessionEncryption = Some ''old''"
proof -
  let ?run = "generatedCoreSecretData sample_rsa (Some [keySessionEncryption \<mapsto> ''old'']) sample_tape"
  have "case ?run of (Inr d, t) \<Rightarrow> True | (Inl e, t) \<Rightarrow> False" by code_simp
  then obtain d t where "?run = (Inr d, t)" by (cases ?run) (auto split: sum.splits)
  from core_secrets_preserved[OF this, of keySessionEncryption] this show ?thesis
    by (auto simp: has_value_def)
qed

text \<open>A successful run leaves every core key with a value, and running again, with any
  entropy, changes nothing and draws no randomness: the reconcile is idempotent.\<close>

theorem core_secrets_complete_idempotent:
  assumes "generatedCoreSecretData rsa data tape = (Inr data', tape')"
  shows "(\<forall>k \<in> coreKeys. has_value data' k) \<and>
    generatedCoreSecretData rsa' (Some data') tape'' = (Inr data', tape'')"
proof -
  let ?d = "case data of None \<Rightarrow> Map.empty | Some d \<Rightarrow> d"
  have run: "generatedCoreSecretData rsa (Some ?d) tape = (Inr data', tape')"
    using assms by (cases data) simp_all
  show ?thesis using core.complete[OF run] core.stable by blast
qed

theorem core_secrets_complete_idempotent_witness:
  "\<exists>d. has_value d keyOIDCPrivateKey \<and> generatedCoreSecretData sample_rsa (Some d) [] = (Inr d, [])"
proof -
  obtain d t where "generatedCoreSecretData sample_rsa None sample_tape = (Inr d, t)"
    using sample_core_run by blast
  from core_secrets_complete_idempotent[OF this, of sample_rsa "[]"] show ?thesis
    by (auto simp: coreKeys_def)
qed

text \<open>C34: A generated secret is 64 letters and digits, selected by the first accepted bytes of
  the entropy source: generation succeeds exactly when the source yields enough accepted
  bytes, and otherwise reports the failure of the source.\<close>

theorem generateAlphanumeric_spec:
  "fst (generateAlphanumeric n tape) =
     (if n \<le> length (filter accepted tape) then Inr (map letter (take n (filter accepted tape)))
      else Inl RandError) \<and>
   set (map letter (take n (filter accepted tape))) \<subseteq> set alphanumeric"
  by (auto simp: generateAlphanumeric_result Let_def letter_in dest!: in_set_takeD)

text \<open>C35: Generated strings are uniform: all strings of the same length over the alphabet are produced by
  equally many tapes, for every length of the tape, rejected bytes included; among the tapes
  without a byte to spare these are four per letter.\<close>

theorem generateAlphanumeric_unbiased:
  assumes "length v = n" and "length v' = n" and "set v \<subseteq> set alphanumeric" and "set v' \<subseteq> set alphanumeric"
  shows "card {tape. length tape = m \<and> fst (generateAlphanumeric n tape) = Inr v} =
         card {tape. length tape = m \<and> fst (generateAlphanumeric n tape) = Inr v'} \<and>
         card {tape. length tape = n \<and> fst (generateAlphanumeric n tape) = Inr v} = 4 ^ n"
  using card_selects[of v v' m] card_selects_exact[of v] assms by (simp add: generateAlphanumeric_selects)

theorem generateAlphanumeric_unbiased_witness:
  "card {tape. length tape = 100 \<and> fst (generateAlphanumeric 2 tape) = Inr ''aA''} =
   card {tape. length tape = 100 \<and> fst (generateAlphanumeric 2 tape) = Inr ''99''} \<and>
   card {tape. length tape = 2 \<and> fst (generateAlphanumeric 2 tape) = Inr ''aA''} = 16"
  using generateAlphanumeric_unbiased[of "''aA''" 2 "''99''" 100] by (simp add: alphanumeric_def)

text \<open>The digest of a client secret has the format Authelia reads,
  \<open>$pbkdf2-sha512$310000$salt$key\<close>, with 22 characters of salt and 86 characters of key in
  the adapted base64 alphabet, which has no dollar sign, so the four fields are
  unambiguous; hashing fails only when the entropy source does.\<close>

theorem hashClientSecret_format:
  "case hashClientSecret fips secret tape of
     (Inl e, tape') \<Rightarrow> e = RandError \<and> length tape < 16
   | (Inr d, tape') \<Rightarrow>
       tape' = drop 16 tape \<and>
       (\<exists>salt key. d = ''$pbkdf2-sha512$310000$'' @ salt @ ''$'' @ key \<and>
          length salt = 22 \<and> length key = 86 \<and> CHR ''$'' \<notin> set salt \<union> set key \<and>
          salt = crypt64 (take 16 tape))"
proof (cases "16 \<le> length tape")
  case True
  let ?salt = "take 16 tape"
  obtain k where k: "pbkdf2_Key fips secret ?salt pbkdf2Iterations sha512_Size = Inr k" "length k = 64"
    using pbkdf2_Key_total[of ?salt fips secret pbkdf2Iterations] True by auto
  have iter: "show_nat pbkdf2Iterations = ''310000''" by code_simp
  have alpha: "CHR ''$'' \<notin> set (crypt64 bs)" for bs
    using set_base64_raw[of "''ABCDEFGHIJKLMNOPQRSTUVWXYZabcdefghijklmnopqrstuvwxyz0123456789./''" bs]
    by (auto simp: crypt64_def)
  have "length (crypt64 ?salt) = 22" "length (crypt64 k) = 86"
    using True k(2) by (simp_all add: crypt64_def length_base64_raw)
  with True k alpha iter show ?thesis
    by (auto simp: hashClientSecret_def bindA_run rand_Read_def)
next
  case False
  then show ?thesis by (simp add: hashClientSecret_def bindA_run rand_Read_def)
qed

end
