(* ===== verification/KubeApi.thy ===== *)
theory KubeApi
  imports ApiTypes "HOL-Library.AList"
begin

text \<open>
  The Kubernetes client as the controllers see it.

  The client (\<open>sigs.k8s.io/controller-runtime\<close>) and the API server are not part of the
  repository. \<open>'w kube\<close> is the record of the calls the controllers make, over an abstract
  world \<open>'w\<close>; every controller takes such a record as an argument. What the controllers rely
  on is stated in two locales.

  \<^item> \<open>kube_api\<close> holds under caches that lag behind, under arbitrary failures, and with other
    actors at work between and during the calls (the relation \<open>env\<close>): a read changes no
    object; a write has at most one effect, which is to store the result of the mutate
    function \<^emph>\<open>on the object the server holds at that moment\<close> (a write based on a stale read is
    refused by the resource version); a create never replaces; a status update changes only
    a status; \<open>SetControllerReference\<close> refuses an object that a controller of another kind or
    name owns, and has nothing to do on one it has set.
  \<^item> \<open>kube_fresh\<close> is the case of a quiet cluster: no other actor, reads see the current
    objects, \<open>NotFound\<close> is reported only for an object that is missing, a list has
    every object once, a write that reports success has been stored, and \<open>CreateOrUpdate\<close> does
    not write an object its mutate function leaves as it is. Calls may still fail.

  An object here is the part of the Kubernetes object that the operator reads or sets; defaults
  that the server fills into other fields are not part of it, and a write that differs from
  the stored object only there does not change it.

  Both are interpreted on \<open>mem_kube\<close>, an in-memory server with injected failures, which the
  witnesses run.
\<close>

section \<open>The client interface\<close>

record 'w kube =
  get_Authelia :: "nsname \<Rightarrow> ('w, Authelia) act"
  get_OAuthClient :: "nsname \<Rightarrow> ('w, AutheliaOAuthClient) act"
  get_Secret :: "nsname \<Rightarrow> ('w, Secret) act"
  get_PVC :: "nsname \<Rightarrow> ('w, PersistentVolumeClaim) act"
  list_Authelias :: "('w, Authelia list) act"
  list_OAuthClients :: "('w, AutheliaOAuthClient list) act"
  list_Ingresses :: "('w, Ingress list) act"
  create_PVC :: "PersistentVolumeClaim \<Rightarrow> ('w, unit) act"
  cou_Secret :: "Secret \<Rightarrow> (Secret \<Rightarrow> (bytes, Secret) act) \<Rightarrow> ('w, Secret) act"
  cou_ConfigMap :: "ConfigMap \<Rightarrow> (ConfigMap \<Rightarrow> (bytes, ConfigMap) act) \<Rightarrow> ('w, ConfigMap) act"
  cou_Service :: "Service \<Rightarrow> (Service \<Rightarrow> (bytes, Service) act) \<Rightarrow> ('w, Service) act"
  cou_Deployment :: "DeploymentObj \<Rightarrow> (DeploymentObj \<Rightarrow> (bytes, DeploymentObj) act) \<Rightarrow>
    ('w, DeploymentObj) act"
  status_Authelia :: "Authelia \<Rightarrow> ('w, unit) act"
  status_OAuthClient :: "AutheliaOAuthClient \<Rightarrow> ('w, unit) act"
  set_owner :: "string \<Rightarrow> ObjectMeta \<Rightarrow> ObjectMeta \<Rightarrow> ObjectMeta result"

text \<open>\<open>ctrl.Result\<close>, with the requeue delay in nanoseconds, and \<open>client.IgnoreNotFound\<close>.\<close>

record Result =
  RequeueAfter :: nat

definition IgnoreNotFound :: "error \<Rightarrow> Result result" where
  "IgnoreNotFound e = (if e = NotFound then Inr \<lparr>RequeueAfter = 0\<rparr> else Inl e)"

text \<open>The objects the API server holds.\<close>

record objects =
  o_Authelias :: "nsname \<Rightarrow> Authelia option"
  o_OAuthClients :: "nsname \<Rightarrow> AutheliaOAuthClient option"
  o_Ingresses :: "nsname \<Rightarrow> Ingress option"
  o_Secrets :: "nsname \<Rightarrow> Secret option"
  o_ConfigMaps :: "nsname \<Rightarrow> ConfigMap option"
  o_Services :: "nsname \<Rightarrow> Service option"
  o_Deployments :: "nsname \<Rightarrow> DeploymentObj option"
  o_PVCs :: "nsname \<Rightarrow> PersistentVolumeClaim option"

text \<open>The object a mutate function works on: the server's, or the new one.\<close>

definition current :: "(nsname \<Rightarrow> 'o option) \<Rightarrow> nsname \<Rightarrow> 'o \<Rightarrow> 'o" where
  "current store k obj = (case store k of Some old \<Rightarrow> old | None \<Rightarrow> obj)"

text \<open>What the server stores for an object that was written: fields it assigns may differ.\<close>

definition written_Secret :: "Secret \<Rightarrow> Secret \<Rightarrow> bool" where
  "written_Secret m s \<longleftrightarrow> (\<exists>u. s = m\<lparr>s_Meta := (s_Meta m)\<lparr>UID := u\<rparr>\<rparr>)"

definition written_ConfigMap :: "ConfigMap \<Rightarrow> ConfigMap \<Rightarrow> bool" where
  "written_ConfigMap m s \<longleftrightarrow> (\<exists>u. s = m\<lparr>cm_Meta := (cm_Meta m)\<lparr>UID := u\<rparr>\<rparr>)"

definition written_Service :: "Service \<Rightarrow> Service \<Rightarrow> bool" where
  "written_Service m s \<longleftrightarrow> (\<exists>u ip. s = m\<lparr>svc_Meta := (svc_Meta m)\<lparr>UID := u\<rparr>, svc_ClusterIP := ip\<rparr>)"

definition written_Deployment :: "DeploymentObj \<Rightarrow> DeploymentObj \<Rightarrow> bool" where
  "written_Deployment m s \<longleftrightarrow>
     (\<exists>u r. s = m\<lparr>d_Meta := (d_Meta m)\<lparr>UID := u\<rparr>, d_ReadyReplicas := r\<rparr>)"

definition written_PVC :: "PersistentVolumeClaim \<Rightarrow> PersistentVolumeClaim \<Rightarrow> bool" where
  "written_PVC m s \<longleftrightarrow> (\<exists>u. s = m\<lparr>pvc_Meta := (pvc_Meta m)\<lparr>UID := u\<rparr>\<rparr>)"

lemma written_refl:
  "written_Secret s s" "written_ConfigMap c c" "written_Service v v" "written_Deployment d d"
  unfolding written_Secret_def written_ConfigMap_def written_Service_def written_Deployment_def
  subgoal by (rule exI[of _ "UID (s_Meta s)"]) simp
  subgoal by (rule exI[of _ "UID (cm_Meta c)"]) simp
  subgoal by (rule exI[of _ "UID (svc_Meta v)"], rule exI[of _ "svc_ClusterIP v"]) simp
  subgoal by (rule exI[of _ "UID (d_Meta d)"], rule exI[of _ "d_ReadyReplicas d"]) simp
  done

lemmas written_defs = written_Secret_def written_ConfigMap_def written_Service_def
  written_Deployment_def written_PVC_def

text \<open>A mutate function run on the current object, for some entropy, produced \<open>m\<close>.\<close>

definition mutated :: "('o \<Rightarrow> (bytes, 'o) act) \<Rightarrow> 'o \<Rightarrow> 'o \<Rightarrow> bool" where
  "mutated f cur m \<longleftrightarrow> (\<exists>t t'. f cur t = (Inr m, t'))"

text \<open>The object at a key is one the mutate function leaves as it is.\<close>

definition rests :: "(nsname \<Rightarrow> 'o option) \<Rightarrow> nsname \<Rightarrow> ('o \<Rightarrow> (bytes, 'o) act) \<Rightarrow> bool" where
  "rests store k f \<longleftrightarrow> (\<exists>x. store k = Some x \<and> (\<forall>t. f x t = (Inr x, t)))"

text \<open>A listing has every object of a store once.\<close>

definition lists_all :: "(nsname \<Rightarrow> 'o option) \<Rightarrow> 'o list \<Rightarrow> bool" where
  "lists_all store xs \<longleftrightarrow>
     (\<exists>ks. distinct ks \<and> set ks = dom store \<and> xs = map (\<lambda>k. the (store k)) ks)"

lemma lists_all_set: "lists_all store xs \<Longrightarrow> set xs = ran store"
  by (force simp: lists_all_def ran_def)

lemma lists_all_perm:
  assumes "lists_all store xs" and "lists_all store ys"
  shows "mset xs = mset ys"
proof -
  obtain ks js where "distinct ks" "distinct js" "set ks = set js"
    and xs: "xs = map (\<lambda>k. the (store k)) ks" and ys: "ys = map (\<lambda>k. the (store k)) js"
    using assms by (auto simp: lists_all_def)
  then have "mset ks = mset js" by (simp add: set_eq_iff_mset_eq_distinct)
  then show ?thesis by (simp add: xs ys)
qed

lemma lists_all_distinct:
  assumes "lists_all store xs" and "\<And>k j x y. store k = Some x \<Longrightarrow> store j = Some y \<Longrightarrow> P x \<Longrightarrow> P y \<Longrightarrow> f x = f y \<Longrightarrow> k = j"
  shows "distinct (map f (filter P xs))"
proof -
  obtain ks where ks: "distinct ks" "set ks = dom store" "xs = map (\<lambda>k. the (store k)) ks"
    using assms(1) by (auto simp: lists_all_def)
  have "inj_on (\<lambda>k. f (the (store k))) (set (filter (\<lambda>k. P (the (store k))) ks))"
    using ks(2) assms(2) by (fastforce simp: inj_on_def)
  then have "distinct (map (\<lambda>k. f (the (store k))) (filter (\<lambda>k. P (the (store k))) ks))"
    using ks(1) by (simp add: distinct_map)
  then show ?thesis by (simp add: ks(3) filter_map comp_def)
qed

text \<open>
  The effect of \<open>CreateOrUpdate\<close> on the objects: none, or the store of the kind holds what the
  mutate function made of the current object.
\<close>

definition cou_result :: "('o \<Rightarrow> 'o \<Rightarrow> bool) \<Rightarrow> (nsname \<Rightarrow> 'o option) \<Rightarrow> nsname \<Rightarrow> 'o \<Rightarrow>
    ('o \<Rightarrow> (bytes, 'o) act) \<Rightarrow> 'o \<Rightarrow> bool" where
  "cou_result written store k obj f s \<longleftrightarrow>
     (\<exists>m. mutated f (current store k obj) m \<and> written m s)"

text \<open>Atomic writes, as relations between the objects before and after.\<close>

definition wrote_PVC :: "PersistentVolumeClaim \<Rightarrow> objects \<Rightarrow> objects \<Rightarrow> bool" where
  "wrote_PVC p L L' \<longleftrightarrow>
     (let k = meta_key (pvc_Meta p) in
      o_PVCs L k = None \<and> (\<exists>s. written_PVC p s \<and> L' = L\<lparr>o_PVCs := (o_PVCs L)(k \<mapsto> s)\<rparr>))"

definition wrote_Secret :: "Secret \<Rightarrow> (Secret \<Rightarrow> (bytes, Secret) act) \<Rightarrow> objects \<Rightarrow> objects \<Rightarrow> bool" where
  "wrote_Secret obj f L L' \<longleftrightarrow>
     (let k = meta_key (s_Meta obj) in
      \<exists>x. cou_result written_Secret (o_Secrets L) k obj f x \<and> L' = L\<lparr>o_Secrets := (o_Secrets L)(k \<mapsto> x)\<rparr>)"

definition wrote_ConfigMap :: "ConfigMap \<Rightarrow> (ConfigMap \<Rightarrow> (bytes, ConfigMap) act) \<Rightarrow> objects \<Rightarrow> objects \<Rightarrow> bool" where
  "wrote_ConfigMap obj f L L' \<longleftrightarrow>
     (let k = meta_key (cm_Meta obj) in
      \<exists>x. cou_result written_ConfigMap (o_ConfigMaps L) k obj f x \<and>
          L' = L\<lparr>o_ConfigMaps := (o_ConfigMaps L)(k \<mapsto> x)\<rparr>)"

definition wrote_Service :: "Service \<Rightarrow> (Service \<Rightarrow> (bytes, Service) act) \<Rightarrow> objects \<Rightarrow> objects \<Rightarrow> bool" where
  "wrote_Service obj f L L' \<longleftrightarrow>
     (let k = meta_key (svc_Meta obj) in
      \<exists>x. cou_result written_Service (o_Services L) k obj f x \<and>
          L' = L\<lparr>o_Services := (o_Services L)(k \<mapsto> x)\<rparr>)"

definition wrote_Deployment :: "DeploymentObj \<Rightarrow> (DeploymentObj \<Rightarrow> (bytes, DeploymentObj) act) \<Rightarrow>
    objects \<Rightarrow> objects \<Rightarrow> bool" where
  "wrote_Deployment obj f L L' \<longleftrightarrow>
     (let k = meta_key (d_Meta obj) in
      \<exists>x. cou_result written_Deployment (o_Deployments L) k obj f x \<and>
          L' = L\<lparr>o_Deployments := (o_Deployments L)(k \<mapsto> x)\<rparr>)"

definition wrote_status_Authelia :: "Authelia \<Rightarrow> objects \<Rightarrow> objects \<Rightarrow> bool" where
  "wrote_status_Authelia a L L' \<longleftrightarrow>
     (let k = meta_key (a_Meta a) in
      \<exists>a0. o_Authelias L k = Some a0 \<and>
           L' = L\<lparr>o_Authelias := (o_Authelias L)(k \<mapsto> a0\<lparr>a_Status := a_Status a\<rparr>)\<rparr>)"

definition wrote_status_OAuthClient :: "AutheliaOAuthClient \<Rightarrow> objects \<Rightarrow> objects \<Rightarrow> bool" where
  "wrote_status_OAuthClient c L L' \<longleftrightarrow>
     (let k = meta_key (c_Meta c) in
      \<exists>c0. o_OAuthClients L k = Some c0 \<and>
           L' = L\<lparr>o_OAuthClients := (o_OAuthClients L)(k \<mapsto> c0\<lparr>c_Status := c_Status c\<rparr>)\<rparr>)"

lemmas wrote_defs = wrote_PVC_def wrote_Secret_def wrote_ConfigMap_def wrote_Service_def
  wrote_Deployment_def wrote_status_Authelia_def wrote_status_OAuthClient_def

lemma wrote_SecretE:
  assumes "wrote_Secret obj f L L'"
  obtains m x where "mutated f (current (o_Secrets L) (meta_key (s_Meta obj)) obj) m" "written_Secret m x"
    "L' = L\<lparr>o_Secrets := (o_Secrets L)(meta_key (s_Meta obj) \<mapsto> x)\<rparr>"
  using assms by (auto simp: wrote_Secret_def cou_result_def Let_def)

text \<open>
  One call in a cluster where others act too: any number of steps of the environment, at most
  one effect of the call, any number of further environment steps.
\<close>

definition around :: "(objects \<Rightarrow> objects \<Rightarrow> bool) \<Rightarrow> (objects \<Rightarrow> objects \<Rightarrow> bool) \<Rightarrow> objects \<Rightarrow> objects \<Rightarrow> bool" where
  "around env P A B \<longleftrightarrow> env\<^sup>*\<^sup>* A B \<or> (\<exists>L L'. env\<^sup>*\<^sup>* A L \<and> P L L' \<and> env\<^sup>*\<^sup>* L' B)"

lemma around_steps:
  assumes "around env P A B"
  shows "(\<lambda>L L'. env L L' \<or> P L L')\<^sup>*\<^sup>* A B" (is "?R\<^sup>*\<^sup>* A B")
proof -
  have sub: "?R\<^sup>*\<^sup>* L L'" if "env\<^sup>*\<^sup>* L L'" for L L'
    using that by (rule rtranclp_weaken) simp
  from assms consider "env\<^sup>*\<^sup>* A B" | L L' where "env\<^sup>*\<^sup>* A L" "P L L'" "env\<^sup>*\<^sup>* L' B"
    unfolding around_def by blast
  then show ?thesis
  proof cases
    case 2
    then have "?R\<^sup>*\<^sup>* A L'" by (intro rtranclp.rtrancl_into_rtrancl[OF sub]) auto
    with sub[OF 2(3)] show ?thesis by simp
  qed (rule sub)
qed

text \<open>
  An action moves the objects only along a relation, however it ends. The rules follow the
  control flow of an action.
\<close>

definition moves :: "('w \<Rightarrow> objects) \<Rightarrow> (objects \<Rightarrow> objects \<Rightarrow> bool) \<Rightarrow> ('w, 'a) act \<Rightarrow> bool" where
  "moves live R m \<longleftrightarrow> (\<forall>w r w'. m w = (r, w') \<longrightarrow> R\<^sup>*\<^sup>* (live w) (live w'))"

named_theorems moves_intros \<open>rules for \<open>moves\<close>\<close>

lemma movesD: "moves live R m \<Longrightarrow> m w = (r, w') \<Longrightarrow> R\<^sup>*\<^sup>* (live w) (live w')"
  by (simp add: moves_def)

lemma moves_pure [moves_intros]:
  "moves live R (returnA x)" "moves live R (liftR q)" "moves live R (failA e)"
  by (simp_all add: moves_def)

lemma moves_bind [moves_intros]:
  assumes "moves live R m" and "\<And>x. moves live R (f x)"
  shows "moves live R (bindA m f)"
  unfolding moves_def
proof (intro allI impI)
  fix w r w'
  assume "bindA m f w = (r, w')"
  then show "R\<^sup>*\<^sup>* (live w) (live w')"
  proof (cases rule: bindA_cases)
    case (passed x w1)
    from movesD[OF assms(1) passed(1)] movesD[OF assms(2) passed(2)] show ?thesis by simp
  qed (rule movesD[OF assms(1)])
qed

lemma moves_if [moves_intros]:
  "(b \<Longrightarrow> moves live R m) \<Longrightarrow> (\<not> b \<Longrightarrow> moves live R n) \<Longrightarrow> moves live R (if b then m else n)"
  by simp

lemma moves_env:
  assumes "\<And>w r w'. m w = (r, w') \<Longrightarrow> env\<^sup>*\<^sup>* (live w) (live w')"
  shows "moves live (\<lambda>L L'. env L L' \<or> P L L') m"
  unfolding moves_def using assms rtranclp_weaken[of env _ _ "\<lambda>L L'. env L L' \<or> P L L'"] by blast

lemma moves_around:
  assumes "\<And>w r w'. m w = (r, w') \<Longrightarrow> around env Q (live w) (live w')"
    and "\<And>L L'. Q L L' \<Longrightarrow> P L L'"
  shows "moves live (\<lambda>L L'. env L L' \<or> P L L') m"
  unfolding moves_def
proof (intro allI impI)
  fix w r w'
  assume "m w = (r, w')"
  from around_steps[OF assms(1)[OF this]] show "(\<lambda>L L'. env L L' \<or> P L L')\<^sup>*\<^sup>* (live w) (live w')"
    by (rule rtranclp_weaken) (use assms(2) in blast)
qed

text \<open>No environment: the only actor is the operator.\<close>

definition quiet :: "objects \<Rightarrow> objects \<Rightarrow> bool" where
  "quiet L L' \<longleftrightarrow> False"

lemma quiet_rtranclp [simp]: "quiet\<^sup>*\<^sup>* A B \<longleftrightarrow> A = B"
  by (auto simp: quiet_def elim: rtranclp_induct)

lemma around_quiet [simp]: "around quiet P A B \<longleftrightarrow> A = B \<or> P A B"
  by (auto simp: around_def)

section \<open>Laws\<close>

locale kube_api =
  fixes K :: "'w kube" and live :: "'w \<Rightarrow> objects" and env :: "objects \<Rightarrow> objects \<Rightarrow> bool"
  assumes get_Authelia_reads: "get_Authelia K k w = (ra, w') \<Longrightarrow> env\<^sup>*\<^sup>* (live w) (live w')"
    and get_OAuthClient_reads: "get_OAuthClient K k w = (rc, w') \<Longrightarrow> env\<^sup>*\<^sup>* (live w) (live w')"
    and get_Secret_reads: "get_Secret K k w = (rs, w') \<Longrightarrow> env\<^sup>*\<^sup>* (live w) (live w')"
    and get_PVC_reads: "get_PVC K k w = (rp, w') \<Longrightarrow> env\<^sup>*\<^sup>* (live w) (live w')"
    and list_Authelias_reads: "list_Authelias K w = (las, w') \<Longrightarrow> env\<^sup>*\<^sup>* (live w) (live w')"
    and list_OAuthClients_reads: "list_OAuthClients K w = (lcs, w') \<Longrightarrow> env\<^sup>*\<^sup>* (live w) (live w')"
    and list_Ingresses_reads: "list_Ingresses K w = (lis, w') \<Longrightarrow> env\<^sup>*\<^sup>* (live w) (live w')"
    and create_PVC_effect:
      "create_PVC K p w = (ru, w') \<Longrightarrow> around env (wrote_PVC p) (live w) (live w')"
    and cou_Secret_effect:
      "cou_Secret K s f w = (r, w') \<Longrightarrow> around env (wrote_Secret s f) (live w) (live w')"
    and cou_ConfigMap_effect:
      "cou_ConfigMap K cm g w = (rcm, w') \<Longrightarrow> around env (wrote_ConfigMap cm g) (live w) (live w')"
    and cou_Service_effect:
      "cou_Service K v h w = (rv, w') \<Longrightarrow> around env (wrote_Service v h) (live w) (live w')"
    and cou_Deployment_effect:
      "cou_Deployment K d i w = (rd, w') \<Longrightarrow> around env (wrote_Deployment d i) (live w) (live w')"
    and status_Authelia_effect:
      "status_Authelia K a w = (ru, w') \<Longrightarrow> around env (wrote_status_Authelia a) (live w) (live w')"
    and status_OAuthClient_effect:
      "status_OAuthClient K oc w = (ru, w') \<Longrightarrow>
         around env (wrote_status_OAuthClient oc) (live w) (live w')"
    and set_owner_sets:
      "set_owner K kind own m = Inr m' \<Longrightarrow>
         m' = m\<lparr>ControllerRef := Some \<lparr>or_Kind = kind, or_Name = Name own, or_UID = UID own\<rparr>\<rparr>"
    and set_owner_refuses:
      "set_owner K kind own m = Inr m' \<Longrightarrow> ControllerRef m = Some ref \<Longrightarrow>
         or_Kind ref = kind \<and> or_Name ref = Name own"
    and set_owner_again:
      "set_owner K kind own m = Inr m' \<Longrightarrow> set_owner K kind own (m'\<lparr>UID := u\<rparr>) = Inr (m'\<lparr>UID := u\<rparr>)"

locale kube_fresh = kube_api K live quiet for K :: "'w kube" and live :: "'w \<Rightarrow> objects" +
  assumes get_Authelia_current: "get_Authelia K k w = (Inr a, w') \<Longrightarrow> o_Authelias (live w) k = Some a"
    and get_OAuthClient_current:
      "get_OAuthClient K k w = (Inr c, w') \<Longrightarrow> o_OAuthClients (live w) k = Some c"
    and get_Authelia_missing: "get_Authelia K k w = (Inl NotFound, w') \<Longrightarrow> o_Authelias (live w) k = None"
    and get_OAuthClient_missing:
      "get_OAuthClient K k w = (Inl NotFound, w') \<Longrightarrow> o_OAuthClients (live w) k = None"
    and get_Secret_current: "get_Secret K k w = (Inr s, w') \<Longrightarrow> o_Secrets (live w) k = Some s"
    and get_Secret_missing: "get_Secret K k w = (Inl NotFound, w') \<Longrightarrow> o_Secrets (live w) k = None"
    and get_PVC_current: "get_PVC K k w = (Inr p, w') \<Longrightarrow> o_PVCs (live w) k = Some p"
    and list_OAuthClients_all:
      "list_OAuthClients K w = (Inr cs, w') \<Longrightarrow> lists_all (o_OAuthClients (live w)) cs"
    and list_Ingresses_all:
      "list_Ingresses K w = (Inr ings, w') \<Longrightarrow> lists_all (o_Ingresses (live w)) ings"
    and list_Authelias_all:
      "list_Authelias K w = (Inr as, w') \<Longrightarrow> lists_all (o_Authelias (live w)) as"
    and create_PVC_done: "create_PVC K p w = (Inr u, w') \<Longrightarrow> wrote_PVC p (live w) (live w')"
    and cou_Secret_done: "cou_Secret K s f w = (Inr s', w') \<Longrightarrow>
         wrote_Secret s f (live w) (live w') \<and> o_Secrets (live w') (meta_key (s_Meta s)) = Some s'"
    and cou_ConfigMap_done: "cou_ConfigMap K cm g w = (Inr cm', w') \<Longrightarrow>
         wrote_ConfigMap cm g (live w) (live w') \<and>
         o_ConfigMaps (live w') (meta_key (cm_Meta cm)) = Some cm'"
    and cou_Service_done: "cou_Service K v h w = (Inr v', w') \<Longrightarrow>
         wrote_Service v h (live w) (live w') \<and> o_Services (live w') (meta_key (svc_Meta v)) = Some v'"
    and cou_Deployment_done: "cou_Deployment K d i w = (Inr d', w') \<Longrightarrow>
         wrote_Deployment d i (live w) (live w') \<and>
         o_Deployments (live w') (meta_key (d_Meta d)) = Some d'"
    and status_Authelia_done: "status_Authelia K a w = (Inr u, w') \<Longrightarrow>
         wrote_status_Authelia a (live w) (live w')"
    and status_OAuthClient_done: "status_OAuthClient K oc w = (Inr u, w') \<Longrightarrow>
         wrote_status_OAuthClient oc (live w) (live w')"
    and cou_Secret_rests: "cou_Secret K s f w = (rs, w') \<Longrightarrow>
         rests (o_Secrets (live w)) (meta_key (s_Meta s)) f \<Longrightarrow> live w' = live w"
    and cou_ConfigMap_rests: "cou_ConfigMap K cm g w = (rcm, w') \<Longrightarrow>
         rests (o_ConfigMaps (live w)) (meta_key (cm_Meta cm)) g \<Longrightarrow> live w' = live w"
    and cou_Service_rests: "cou_Service K v h w = (rv, w') \<Longrightarrow>
         rests (o_Services (live w)) (meta_key (svc_Meta v)) h \<Longrightarrow> live w' = live w"
    and cou_Deployment_rests: "cou_Deployment K d i w = (rd, w') \<Longrightarrow>
         rests (o_Deployments (live w)) (meta_key (d_Meta d)) i \<Longrightarrow> live w' = live w"
begin

lemmas list_OAuthClients_current = list_OAuthClients_all[THEN lists_all_set]

lemmas list_Ingresses_current = list_Ingresses_all[THEN lists_all_set]

lemmas list_Authelias_current = list_Authelias_all[THEN lists_all_set]

end

section \<open>An in-memory server\<close>

text \<open>
  The world of the in-memory server: the objects of each kind in creation order, the tape
  the mutate functions draw on, a counter for UIDs, and a queue of failures: each call takes
  one entry, and an entry with a message makes the call fail.
\<close>

record server =
  m_Authelias :: "(nsname \<times> Authelia) list"
  m_OAuthClients :: "(nsname \<times> AutheliaOAuthClient) list"
  m_Ingresses :: "(nsname \<times> Ingress) list"
  m_Secrets :: "(nsname \<times> Secret) list"
  m_ConfigMaps :: "(nsname \<times> ConfigMap) list"
  m_Services :: "(nsname \<times> Service) list"
  m_Deployments :: "(nsname \<times> DeploymentObj) list"
  m_PVCs :: "(nsname \<times> PersistentVolumeClaim) list"
  m_tape :: bytes
  m_uids :: nat
  m_faults :: "string option list"

definition mem_live :: "server \<Rightarrow> objects" where
  "mem_live w =
     \<lparr>o_Authelias = map_of (m_Authelias w), o_OAuthClients = map_of (m_OAuthClients w),
      o_Ingresses = map_of (m_Ingresses w), o_Secrets = map_of (m_Secrets w),
      o_ConfigMaps = map_of (m_ConfigMaps w), o_Services = map_of (m_Services w),
      o_Deployments = map_of (m_Deployments w), o_PVCs = map_of (m_PVCs w)\<rparr>"

definition mem_call :: "(server, 'a) act \<Rightarrow> (server, 'a) act" where
  "mem_call call w =
     (case m_faults w of
        [] \<Rightarrow> call w
      | Some e # fs \<Rightarrow> (Inl (ApiOther e), w\<lparr>m_faults := fs\<rparr>)
      | None # fs \<Rightarrow> call (w\<lparr>m_faults := fs\<rparr>))"

definition mem_get :: "(server \<Rightarrow> (nsname \<times> 'o) list) \<Rightarrow> nsname \<Rightarrow> (server, 'o) act" where
  "mem_get store k = mem_call (\<lambda>w.
     (case map_of (store w) k of Some x \<Rightarrow> Inr x | None \<Rightarrow> Inl NotFound, w))"

text \<open>Listing: one entry per key.\<close>

definition mem_list :: "(server \<Rightarrow> (nsname \<times> 'o) list) \<Rightarrow> (server, 'o list) act" where
  "mem_list store = mem_call (\<lambda>w. (Inr (map snd (AList.clearjunk (store w))), w))"

definition new_uid :: "server \<Rightarrow> ObjectMeta \<Rightarrow> ObjectMeta" where
  "new_uid w m = (if UID m = [] then m\<lparr>UID := ''uid'' @ replicate (m_uids w) (CHR ''i'')\<rparr> else m)"

definition mem_cou :: "(server \<Rightarrow> (nsname \<times> 'o) list) \<Rightarrow> ((nsname \<times> 'o) list \<Rightarrow> server \<Rightarrow> server) \<Rightarrow>
    (server \<Rightarrow> 'o \<Rightarrow> 'o) \<Rightarrow> ('o \<Rightarrow> ObjectMeta) \<Rightarrow> 'o \<Rightarrow> ('o \<Rightarrow> (bytes, 'o) act) \<Rightarrow> (server, 'o) act" where
  "mem_cou store set_store fin meta obj f = mem_call (\<lambda>w.
     (let k = meta_key (meta obj) in
      case f (current (map_of (store w)) k obj) (m_tape w) of
        (Inl e, t) \<Rightarrow> (Inl e, w\<lparr>m_tape := t\<rparr>)
      | (Inr m, t) \<Rightarrow>
          (if map_of (store w) k = Some m then (Inr m, w\<lparr>m_tape := t\<rparr>)
           else
             (let x = fin w m in
              (Inr x, set_store (AList.update k x (store w)) (w\<lparr>m_tape := t, m_uids := m_uids w + 1\<rparr>))))))"

definition fin_Secret :: "server \<Rightarrow> Secret \<Rightarrow> Secret" where
  "fin_Secret w x = x\<lparr>s_Meta := new_uid w (s_Meta x)\<rparr>"

definition fin_ConfigMap :: "server \<Rightarrow> ConfigMap \<Rightarrow> ConfigMap" where
  "fin_ConfigMap w x = x\<lparr>cm_Meta := new_uid w (cm_Meta x)\<rparr>"

definition fin_Service :: "server \<Rightarrow> Service \<Rightarrow> Service" where
  "fin_Service w x = x\<lparr>svc_Meta := new_uid w (svc_Meta x), svc_ClusterIP := ''10.0.0.1''\<rparr>"

text \<open>Status is a subresource: a write keeps the replica count the server has.\<close>

definition fin_Deployment :: "server \<Rightarrow> DeploymentObj \<Rightarrow> DeploymentObj" where
  "fin_Deployment w x =
     x\<lparr>d_Meta := new_uid w (d_Meta x),
       d_ReadyReplicas := (case map_of (m_Deployments w) (meta_key (d_Meta x)) of
                             Some old \<Rightarrow> d_ReadyReplicas old | None \<Rightarrow> 0)\<rparr>"

definition mem_create_PVC :: "PersistentVolumeClaim \<Rightarrow> (server, unit) act" where
  "mem_create_PVC p = mem_call (\<lambda>w.
     (let k = meta_key (pvc_Meta p) in
      if map_of (m_PVCs w) k \<noteq> None then (Inl AlreadyExists, w)
      else (Inr (), w\<lparr>m_PVCs := AList.update k (p\<lparr>pvc_Meta := new_uid w (pvc_Meta p)\<rparr>) (m_PVCs w),
                      m_uids := m_uids w + 1\<rparr>)))"

definition mem_status_Authelia :: "Authelia \<Rightarrow> (server, unit) act" where
  "mem_status_Authelia a = mem_call (\<lambda>w.
     (let k = meta_key (a_Meta a) in
      case map_of (m_Authelias w) k of
        None \<Rightarrow> (Inl NotFound, w)
      | Some a0 \<Rightarrow>
          (Inr (), w\<lparr>m_Authelias := AList.update k (a0\<lparr>a_Status := a_Status a\<rparr>) (m_Authelias w)\<rparr>)))"

definition mem_status_OAuthClient :: "AutheliaOAuthClient \<Rightarrow> (server, unit) act" where
  "mem_status_OAuthClient c = mem_call (\<lambda>w.
     (let k = meta_key (c_Meta c) in
      case map_of (m_OAuthClients w) k of
        None \<Rightarrow> (Inl NotFound, w)
      | Some c0 \<Rightarrow>
          (Inr (), w\<lparr>m_OAuthClients :=
             AList.update k (c0\<lparr>c_Status := c_Status c\<rparr>) (m_OAuthClients w)\<rparr>)))"

definition mem_set_owner :: "string \<Rightarrow> ObjectMeta \<Rightarrow> ObjectMeta \<Rightarrow> ObjectMeta result" where
  "mem_set_owner kind own m =
     (if Namespace own \<noteq> Namespace m then Inl (OwnerError ''cross-namespace owner'')
      else case ControllerRef m of
             Some ref \<Rightarrow> (if or_Kind ref \<noteq> kind \<or> or_Name ref \<noteq> Name own then Inl (OwnerError ''already owned'')
               else Inr (m\<lparr>ControllerRef := Some \<lparr>or_Kind = kind, or_Name = Name own, or_UID = UID own\<rparr>\<rparr>))
           | None \<Rightarrow> Inr (m\<lparr>ControllerRef := Some \<lparr>or_Kind = kind, or_Name = Name own, or_UID = UID own\<rparr>\<rparr>))"

definition mem_kube :: "server kube" where
  "mem_kube =
     \<lparr>get_Authelia = mem_get m_Authelias, get_OAuthClient = mem_get m_OAuthClients,
      get_Secret = mem_get m_Secrets, get_PVC = mem_get m_PVCs,
      list_Authelias = mem_list m_Authelias, list_OAuthClients = mem_list m_OAuthClients,
      list_Ingresses = mem_list m_Ingresses, create_PVC = mem_create_PVC,
      cou_Secret = mem_cou m_Secrets (\<lambda>xs w. w\<lparr>m_Secrets := xs\<rparr>) fin_Secret s_Meta,
      cou_ConfigMap = mem_cou m_ConfigMaps (\<lambda>xs w. w\<lparr>m_ConfigMaps := xs\<rparr>) fin_ConfigMap cm_Meta,
      cou_Service = mem_cou m_Services (\<lambda>xs w. w\<lparr>m_Services := xs\<rparr>) fin_Service svc_Meta,
      cou_Deployment = mem_cou m_Deployments (\<lambda>xs w. w\<lparr>m_Deployments := xs\<rparr>) fin_Deployment d_Meta,
      status_Authelia = mem_status_Authelia, status_OAuthClient = mem_status_OAuthClient,
      set_owner = mem_set_owner\<rparr>"

lemma mem_live_faults [simp]: "mem_live (w\<lparr>m_faults := fs\<rparr>) = mem_live w"
  by (simp add: mem_live_def)

lemma mem_live_tape [simp]: "mem_live (w\<lparr>m_tape := t\<rparr>) = mem_live w"
  by (simp add: mem_live_def)

lemma mem_call_cases:
  assumes "mem_call call w = (r, w')"
  obtains (fault) e fs where "r = Inl (ApiOther e)" "w' = w\<lparr>m_faults := fs\<rparr>"
    | (served) v where "call v = (r, w')" "v = w \<or> (\<exists>fs. v = w\<lparr>m_faults := fs\<rparr>)"
  using assms by (auto simp: mem_call_def split: list.splits option.splits)

lemma mem_get_result:
  assumes "mem_get store k w = (r, w')" and "\<And>w fs. store (w\<lparr>m_faults := fs\<rparr>) = store w"
  shows "mem_live w' = mem_live w \<and> (r = Inl NotFound \<longrightarrow> map_of (store w) k = None) \<and>
    (\<forall>x. r = Inr x \<longrightarrow> map_of (store w) k = Some x)"
  using assms(1)[unfolded mem_get_def]
  by (cases rule: mem_call_cases) (auto simp: assms(2) split: option.splits)

lemma mem_list_result:
  assumes "mem_list store w = (r, w')" and "\<And>w fs. store (w\<lparr>m_faults := fs\<rparr>) = store w"
  shows "mem_live w' = mem_live w \<and> (\<forall>xs. r = Inr xs \<longrightarrow> lists_all (map_of (store w)) xs)"
proof -
  let ?cj = "AList.clearjunk (store w)"
  have "the (map_of (store w) k) = v" if "(k, v) \<in> set ?cj" for k v
    using that map_of_is_SomeI[OF distinct_clearjunk] by (fastforce simp: map_of_clearjunk)
  then have "map snd ?cj = map (\<lambda>k. the (map_of (store w) k)) (map fst ?cj)" by auto
  then have "lists_all (map_of (store w)) (map snd ?cj)"
    unfolding lists_all_def using distinct_clearjunk[of "store w"] clearjunk_keys_set[of "store w"]
    by (intro exI[of _ "map fst ?cj"]) (simp add: dom_map_of_conv_image_fst)
  with assms(1)[unfolded mem_list_def] show ?thesis
    by (elim mem_call_cases) (auto simp: assms(2))
qed

lemma mem_cou_result:
  assumes "mem_cou store set_store fin meta obj f w = (r, w')"
    and st: "\<And>w fs. store (w\<lparr>m_faults := fs\<rparr>) = store w"
    and fin: "\<And>w m. written m (fin w m)" and refl: "\<And>m. written m m"
  obtains (failed) e where "r = Inl e" "mem_live w' = mem_live w"
    | (same) x where "r = Inr x" "map_of (store w) (meta_key (meta obj)) = Some x"
      "cou_result written (map_of (store w)) (meta_key (meta obj)) obj f x" "mem_live w' = mem_live w"
    | (stored) x v where "r = Inr x"
      "cou_result written (map_of (store w)) (meta_key (meta obj)) obj f x"
      "w' = set_store (AList.update (meta_key (meta obj)) x (store w)) v" "mem_live v = mem_live w"
      "\<not> rests (map_of (store w)) (meta_key (meta obj)) f"
  using assms(1)[unfolded mem_cou_def]
proof (cases rule: mem_call_cases)
  case (fault e fs)
  then show thesis using failed by simp
next
  case (served v)
  let ?k = "meta_key (meta obj)"
  have v: "store v = store w" "mem_live v = mem_live w" using served(2) st by auto
  obtain res t where run: "f (current (map_of (store v)) ?k obj) (m_tape v) = (res, t)"
    by (cases "f (current (map_of (store v)) ?k obj) (m_tape v)")
  show thesis
  proof (cases res)
    case (Inl e)
    with served(1) run v show thesis by (intro failed[of e]) (auto simp: Let_def)
  next
    case (Inr m)
    have made: "mutated f (current (map_of (store w)) ?k obj) m"
      using run Inr v by (auto simp: mutated_def)
    show thesis
    proof (cases "map_of (store w) ?k = Some m")
      case True
      with served(1) run Inr v made refl show thesis
        by (intro same[of m]) (auto simp: Let_def cou_result_def)
    next
      case False
      have "mem_live (v\<lparr>m_tape := t, m_uids := m_uids v + 1\<rparr>) = mem_live w"
        using v by (simp add: mem_live_def)
      moreover have "\<not> rests (map_of (store w)) ?k f"
        using False run Inr v by (force simp: rests_def current_def)
      ultimately show thesis using served(1) run Inr v False made fin
        by (intro stored[of "fin v m" "v\<lparr>m_tape := t, m_uids := m_uids v + 1\<rparr>"])
          (auto simp: Let_def cou_result_def)
    qed
  qed
qed

lemma new_uid_UID: "\<exists>u. new_uid w m = m\<lparr>UID := u\<rparr>"
  by (auto simp: new_uid_def intro: exI[of _ "UID m"])

lemma fin_written:
  "written_Secret s (fin_Secret w s)" "written_ConfigMap c (fin_ConfigMap w c)"
  "written_Service v (fin_Service w v)" "written_Deployment d (fin_Deployment w d)"
  using new_uid_UID[of w "s_Meta s"] new_uid_UID[of w "cm_Meta c"] new_uid_UID[of w "svc_Meta v"]
    new_uid_UID[of w "d_Meta d"]
  by (auto simp: written_defs fin_Secret_def fin_ConfigMap_def fin_Service_def fin_Deployment_def)
    blast+

lemma mem_cou_Secret_result:
  assumes "cou_Secret mem_kube s f w = (r, w')"
  shows "(\<exists>e. r = Inl e \<and> mem_live w' = mem_live w) \<or>
    (\<exists>s'. r = Inr s' \<and> o_Secrets (mem_live w') (meta_key (s_Meta s)) = Some s' \<and>
      cou_result written_Secret (o_Secrets (mem_live w)) (meta_key (s_Meta s)) s f s' \<and>
      mem_live w' = (mem_live w)\<lparr>o_Secrets := (o_Secrets (mem_live w))(meta_key (s_Meta s) \<mapsto> s')\<rparr> \<and>
      (rests (o_Secrets (mem_live w)) (meta_key (s_Meta s)) f \<longrightarrow> mem_live w' = mem_live w))"
  using assms unfolding mem_kube_def kube.simps
  by (rule mem_cou_result[where written = written_Secret])
    (auto simp: fin_written written_refl mem_live_def update_conv' fun_upd_idem)

lemma mem_cou_ConfigMap_result:
  assumes "cou_ConfigMap mem_kube s f w = (r, w')"
  shows "(\<exists>e. r = Inl e \<and> mem_live w' = mem_live w) \<or>
    (\<exists>s'. r = Inr s' \<and> o_ConfigMaps (mem_live w') (meta_key (cm_Meta s)) = Some s' \<and>
      cou_result written_ConfigMap (o_ConfigMaps (mem_live w)) (meta_key (cm_Meta s)) s f s' \<and>
      mem_live w' = (mem_live w)\<lparr>o_ConfigMaps := (o_ConfigMaps (mem_live w))(meta_key (cm_Meta s) \<mapsto> s')\<rparr> \<and>
      (rests (o_ConfigMaps (mem_live w)) (meta_key (cm_Meta s)) f \<longrightarrow> mem_live w' = mem_live w))"
  using assms unfolding mem_kube_def kube.simps
  by (rule mem_cou_result[where written = written_ConfigMap])
    (auto simp: fin_written written_refl mem_live_def update_conv' fun_upd_idem)

lemma mem_cou_Service_result:
  assumes "cou_Service mem_kube s f w = (r, w')"
  shows "(\<exists>e. r = Inl e \<and> mem_live w' = mem_live w) \<or>
    (\<exists>s'. r = Inr s' \<and> o_Services (mem_live w') (meta_key (svc_Meta s)) = Some s' \<and>
      cou_result written_Service (o_Services (mem_live w)) (meta_key (svc_Meta s)) s f s' \<and>
      mem_live w' = (mem_live w)\<lparr>o_Services := (o_Services (mem_live w))(meta_key (svc_Meta s) \<mapsto> s')\<rparr> \<and>
      (rests (o_Services (mem_live w)) (meta_key (svc_Meta s)) f \<longrightarrow> mem_live w' = mem_live w))"
  using assms unfolding mem_kube_def kube.simps
  by (rule mem_cou_result[where written = written_Service])
    (auto simp: fin_written written_refl mem_live_def update_conv' fun_upd_idem)

lemma mem_cou_Deployment_result:
  assumes "cou_Deployment mem_kube s f w = (r, w')"
  shows "(\<exists>e. r = Inl e \<and> mem_live w' = mem_live w) \<or>
    (\<exists>s'. r = Inr s' \<and> o_Deployments (mem_live w') (meta_key (d_Meta s)) = Some s' \<and>
      cou_result written_Deployment (o_Deployments (mem_live w)) (meta_key (d_Meta s)) s f s' \<and>
      mem_live w' = (mem_live w)\<lparr>o_Deployments := (o_Deployments (mem_live w))(meta_key (d_Meta s) \<mapsto> s')\<rparr> \<and>
      (rests (o_Deployments (mem_live w)) (meta_key (d_Meta s)) f \<longrightarrow> mem_live w' = mem_live w))"
  using assms unfolding mem_kube_def kube.simps
  by (rule mem_cou_result[where written = written_Deployment])
    (auto simp: fin_written written_refl mem_live_def update_conv' fun_upd_idem)

lemma mem_create_PVC_result:
  assumes "create_PVC mem_kube p w = (r, w')"
  shows "(\<exists>e. r = Inl e \<and> mem_live w' = mem_live w) \<or>
    (r = Inr () \<and> o_PVCs (mem_live w) (meta_key (pvc_Meta p)) = None \<and> (\<exists>s. written_PVC p s \<and>
      mem_live w' = (mem_live w)\<lparr>o_PVCs := (o_PVCs (mem_live w))(meta_key (pvc_Meta p) \<mapsto> s)\<rparr>))"
  using assms unfolding mem_kube_def kube.simps mem_create_PVC_def
proof (cases rule: mem_call_cases)
  case (served v)
  obtain u where "new_uid v (pvc_Meta p) = (pvc_Meta p)\<lparr>UID := u\<rparr>" using new_uid_UID by blast
  with served show ?thesis
    by (auto simp: mem_live_def update_conv' written_PVC_def Let_def split: if_splits)
qed auto

lemma mem_status_Authelia_result:
  assumes "status_Authelia mem_kube a w = (r, w')"
  shows "(\<exists>e. r = Inl e \<and> mem_live w' = mem_live w) \<or>
    (r = Inr () \<and> (\<exists>a0. o_Authelias (mem_live w) (meta_key (a_Meta a)) = Some a0 \<and>
      mem_live w' = (mem_live w)\<lparr>o_Authelias :=
        (o_Authelias (mem_live w))(meta_key (a_Meta a) \<mapsto> a0\<lparr>a_Status := a_Status a\<rparr>)\<rparr>))"
  using assms unfolding mem_kube_def kube.simps mem_status_Authelia_def
  by (cases rule: mem_call_cases)
    (auto simp: mem_live_def update_conv' Let_def split: option.splits)

lemma mem_status_OAuthClient_result:
  assumes "status_OAuthClient mem_kube c w = (r, w')"
  shows "(\<exists>e. r = Inl e \<and> mem_live w' = mem_live w) \<or>
    (r = Inr () \<and> (\<exists>c0. o_OAuthClients (mem_live w) (meta_key (c_Meta c)) = Some c0 \<and>
      mem_live w' = (mem_live w)\<lparr>o_OAuthClients :=
        (o_OAuthClients (mem_live w))(meta_key (c_Meta c) \<mapsto> c0\<lparr>c_Status := c_Status c\<rparr>)\<rparr>))"
  using assms unfolding mem_kube_def kube.simps mem_status_OAuthClient_def
  by (cases rule: mem_call_cases)
    (auto simp: mem_live_def update_conv' Let_def split: option.splits)

lemma mem_read_results:
  "get_Authelia mem_kube k w = (ra, w') \<Longrightarrow> mem_live w' = mem_live w \<and>
     (ra = Inl NotFound \<longrightarrow> o_Authelias (mem_live w) k = None) \<and>
     (\<forall>x. ra = Inr x \<longrightarrow> o_Authelias (mem_live w) k = Some x)"
  "get_OAuthClient mem_kube k w = (rc, w') \<Longrightarrow> mem_live w' = mem_live w \<and>
     (rc = Inl NotFound \<longrightarrow> o_OAuthClients (mem_live w) k = None) \<and>
     (\<forall>x. rc = Inr x \<longrightarrow> o_OAuthClients (mem_live w) k = Some x)"
  "get_Secret mem_kube k w = (rs, w') \<Longrightarrow> mem_live w' = mem_live w \<and>
     (rs = Inl NotFound \<longrightarrow> o_Secrets (mem_live w) k = None) \<and>
     (\<forall>x. rs = Inr x \<longrightarrow> o_Secrets (mem_live w) k = Some x)"
  "get_PVC mem_kube k w = (rp, w') \<Longrightarrow> mem_live w' = mem_live w \<and>
     (\<forall>x. rp = Inr x \<longrightarrow> o_PVCs (mem_live w) k = Some x)"
  "list_Authelias mem_kube w = (las, w') \<Longrightarrow> mem_live w' = mem_live w \<and>
     (\<forall>xs. las = Inr xs \<longrightarrow> lists_all (o_Authelias (mem_live w)) xs)"
  "list_OAuthClients mem_kube w = (lcs, w') \<Longrightarrow> mem_live w' = mem_live w \<and>
     (\<forall>xs. lcs = Inr xs \<longrightarrow> lists_all (o_OAuthClients (mem_live w)) xs)"
  "list_Ingresses mem_kube w = (lis, w') \<Longrightarrow> mem_live w' = mem_live w \<and>
     (\<forall>xs. lis = Inr xs \<longrightarrow> lists_all (o_Ingresses (mem_live w)) xs)"
  subgoal using mem_get_result[of m_Authelias k w ra w'] by (simp add: mem_kube_def mem_live_def)
  subgoal using mem_get_result[of m_OAuthClients k w rc w'] by (simp add: mem_kube_def mem_live_def)
  subgoal using mem_get_result[of m_Secrets k w rs w'] by (simp add: mem_kube_def mem_live_def)
  subgoal using mem_get_result[of m_PVCs k w rp w'] by (simp add: mem_kube_def mem_live_def)
  subgoal using mem_list_result[of m_Authelias w las w'] by (simp add: mem_kube_def mem_live_def)
  subgoal using mem_list_result[of m_OAuthClients w lcs w'] by (simp add: mem_kube_def mem_live_def)
  subgoal using mem_list_result[of m_Ingresses w lis w'] by (simp add: mem_kube_def mem_live_def)
  done

lemma mem_set_owner_result:
  assumes "set_owner mem_kube kind own m = Inr m'"
  shows "m' = m\<lparr>ControllerRef := Some \<lparr>or_Kind = kind, or_Name = Name own, or_UID = UID own\<rparr>\<rparr> \<and>
    (\<forall>ref. ControllerRef m = Some ref \<longrightarrow> or_Kind ref = kind \<and> or_Name ref = Name own)"
  using assms by (auto simp: mem_kube_def mem_set_owner_def split: if_splits option.splits)

lemma mem_set_owner_again:
  "set_owner mem_kube kind own m = Inr m' \<Longrightarrow>
   set_owner mem_kube kind own (m'\<lparr>UID := u\<rparr>) = Inr (m'\<lparr>UID := u\<rparr>)"
proof -
  assume "set_owner mem_kube kind own m = Inr m'"
  then have "Namespace own = Namespace m" and
    "m' = m\<lparr>ControllerRef := Some \<lparr>or_Kind = kind, or_Name = Name own, or_UID = UID own\<rparr>\<rparr>"
    by (simp_all add: mem_kube_def mem_set_owner_def split: if_splits option.splits)
  then show ?thesis by (simp add: mem_kube_def mem_set_owner_def)
qed

interpretation mem: kube_fresh mem_kube mem_live
  by (unfold_locales; (erule mem_set_owner_again | auto dest!: mem_read_results mem_create_PVC_result
      mem_cou_Secret_result mem_cou_ConfigMap_result mem_cou_Service_result mem_cou_Deployment_result
      mem_status_Authelia_result mem_status_OAuthClient_result mem_set_owner_result
      simp: wrote_defs Let_def))

text \<open>A server without objects, and the equations that run calls on a concrete server.\<close>

definition empty_server :: server where
  "empty_server =
     \<lparr>m_Authelias = [], m_OAuthClients = [], m_Ingresses = [], m_Secrets = [], m_ConfigMaps = [],
      m_Services = [], m_Deployments = [], m_PVCs = [], m_tape = [], m_uids = 0, m_faults = []\<rparr>"

lemmas mem_run_simps = mem_kube_def mem_get_def mem_list_def mem_cou_def mem_call_def mem_create_PVC_def
  mem_status_Authelia_def mem_status_OAuthClient_def mem_set_owner_def fin_Secret_def
  fin_ConfigMap_def fin_Service_def fin_Deployment_def new_uid_def new_meta_def meta_key_def
  current_def empty_server_def bindA_run

end
