(* ===== verification/OAuthClientController.thy ===== *)
theory OAuthClientController
  imports Secrets KubeApi
begin

text \<open>
  \<open>internal/controller/autheliaoauthclient_controller.go\<close>: the controller that keeps one Secret
  per OAuth client.

  \<open>oauthMutate\<close> is the closure handed to \<open>CreateOrUpdate\<close>, \<open>ReconcileOAuthClient\<close> the method
  \<open>Reconcile\<close>. The part of the closure that generates values keeps the contract
  \<open>fill_once\<close>; the properties lift it to what any run of the reconciler, whatever the
  client returns, can do to the Secrets of the cluster.
\<close>

section \<open>Definitions\<close>

definition generateSecret :: "(bytes, string) act" where
  "generateSecret = bindA (rand_Read 48) (\<lambda>buf. returnA (RawURLEncoding buf))"

text \<open>\<open>string(m[key])\<close>: the zero value for a missing key.\<close>

definition data_value :: "datamap \<Rightarrow> string \<Rightarrow> bytes" where
  "data_value d k = (case d k of Some v \<Rightarrow> v | None \<Rightarrow> [])"

text \<open>Lines 79 to 92: the secret and its digest, each generated once.\<close>

definition fillClientSecret :: "bool \<Rightarrow> datamap \<Rightarrow> (bytes, datamap) act" where
  "fillClientSecret fipsOnly d =
     bindA (fill_key generateSecret ''client_secret'' d) (\<lambda>d.
     fill_key (hashClientSecret fipsOnly (data_value d ''client_secret'')) ''client_secret_digest'' d)"

definition setOwner :: "'w kube \<Rightarrow> string \<Rightarrow> ObjectMeta \<Rightarrow> Secret \<Rightarrow> Secret result" where
  "setOwner K kind own s =
     bindR (set_owner K kind own (s_Meta s)) (\<lambda>m. Inr (s\<lparr>s_Meta := m\<rparr>))"

definition oauthMutate :: "'w kube \<Rightarrow> bool \<Rightarrow> AutheliaOAuthClient \<Rightarrow> string \<Rightarrow> Secret \<Rightarrow>
    (bytes, Secret) act" where
  "oauthMutate K fipsOnly oauthClient clientID secret =
     (let labels = (case Labels (s_Meta secret) of None \<Rightarrow> Map.empty | Some l \<Rightarrow> l);
          secret1 = secret\<lparr>s_Meta := (s_Meta secret)\<lparr>Labels :=
              Some (labels(''app.kubernetes.io/managed-by'' \<mapsto> ''heliop''))\<rparr>,
            s_Type := ''Opaque''\<rparr>;
          data0 = (case s_Data secret of None \<Rightarrow> Map.empty | Some d \<Rightarrow> d);
          data1 = data0(''client_id'' \<mapsto> clientID)
      in if Public (c_Spec oauthClient) then
           liftR (setOwner K ''AutheliaOAuthClient'' (c_Meta oauthClient)
             (secret1\<lparr>s_Data :=
                Some (data1(''client_secret'' := None, ''client_secret_digest'' := None))\<rparr>))
         else
           bindA (fillClientSecret fipsOnly data1) (\<lambda>data2.
             liftR (setOwner K ''AutheliaOAuthClient'' (c_Meta oauthClient)
               (secret1\<lparr>s_Data := Some data2\<rparr>))))"

definition oauthSecretName :: "AutheliaOAuthClient \<Rightarrow> string" where
  "oauthSecretName c = Name (c_Meta c) @ ''-oauth-secret''"

definition effectiveClientID :: "AutheliaOAuthClient \<Rightarrow> string" where
  "effectiveClientID c = (if ClientID (c_Spec c) = [] then Name (c_Meta c) else ClientID (c_Spec c))"

text \<open>\<open>&corev1.Secret\{ObjectMeta: metav1.ObjectMeta\{Name: n, Namespace: ns\}\}\<close>.\<close>

definition newSecret :: "string \<Rightarrow> string \<Rightarrow> Secret" where
  "newSecret n ns = \<lparr>s_Meta = new_meta n ns, s_Type = [], s_Data = None\<rparr>"

definition ReconcileOAuthClient :: "'w kube \<Rightarrow> bool \<Rightarrow> nsname \<Rightarrow> ('w, Result) act" where
  "ReconcileOAuthClient K fipsOnly req w =
     (case get_OAuthClient K req w of
        (Inl e, w') \<Rightarrow> (IgnoreNotFound e, w')
      | (Inr oauthClient, w') \<Rightarrow>
          bindA (cou_Secret K (newSecret (oauthSecretName oauthClient) (Namespace (c_Meta oauthClient)))
                  (oauthMutate K fipsOnly oauthClient (effectiveClientID oauthClient))) (\<lambda>_.
          bindA (if SecretName (c_Status oauthClient) \<noteq> oauthSecretName oauthClient
                 then status_OAuthClient K (oauthClient\<lparr>c_Status :=
                        (c_Status oauthClient)\<lparr>SecretName := oauthSecretName oauthClient\<rparr>\<rparr>)
                 else returnA ()) (\<lambda>_.
          returnA \<lparr>RequeueAfter = 0\<rparr>)) w')"

section \<open>The generated values\<close>

lemma generateSecret_Inr:
  assumes "generateSecret t = (Inr v, t')"
  shows "length v = 64 \<and> set v \<subseteq> set (base64_letters @ ''-_'')"
proof -
  obtain buf where "length buf = 48" "v = RawURLEncoding buf"
    using assms by (auto simp: generateSecret_def rand_Read_def elim!: bindA_Inr
        intro: that[of "take 48 t"] split: if_splits)
  then show ?thesis
    using set_base64_raw[of "base64_letters @ ''-_''" buf]
    by (auto simp: RawURLEncoding_def length_base64_raw base64_letters_def)
qed

lemma hashClientSecret_nonempty: "hashClientSecret f s t = (Inr v, t') \<Longrightarrow> v \<noteq> []"
  by (auto simp: hashClientSecret_def elim!: bindA_Inr)

definition clientSecretKeys :: "string set" where
  "clientSecretKeys = {''client_secret'', ''client_secret_digest''}"

lemma fillClientSecret_once: "fill_once (fillClientSecret fips) clientSecretKeys"
proof -
  have "fill_once (\<lambda>d. fill_key generateSecret ''client_secret'' d) {''client_secret''}"
    by (rule fill_once_key) (use generateSecret_Inr in fastforce)
  moreover have "fill_once (\<lambda>d. fill_key (hashClientSecret fips (data_value d ''client_secret''))
      ''client_secret_digest'' d) {''client_secret_digest''}"
    by (rule fill_once_key) (rule hashClientSecret_nonempty)
  ultimately have "fill_once (\<lambda>d. fillClientSecret fips d)
      ({''client_secret''} \<union> {''client_secret_digest''})"
    unfolding fillClientSecret_def by (rule fill_once_seq)
  then show ?thesis by (simp add: clientSecretKeys_def insert_commute)
qed

interpretation oauth: fill_once "fillClientSecret fips" clientSecretKeys for fips
  by (rule fillClientSecret_once)

text \<open>A digest that hashing the secret can produce.\<close>

definition digest_of :: "string \<Rightarrow> string \<Rightarrow> bool" where
  "digest_of secret digest \<longleftrightarrow> (\<exists>fips t t'. hashClientSecret fips secret t = (Inr digest, t'))"

text \<open>A present digest belongs to the present secret.\<close>

definition consistent :: "datamap \<Rightarrow> bool" where
  "consistent d \<longleftrightarrow>
     (has_value d ''client_secret_digest'' \<longrightarrow>
      digest_of (data_value d ''client_secret'') (data_value d ''client_secret_digest'') \<and>
      has_value d ''client_secret'')"

lemma fillClientSecret_cases:
  assumes "fillClientSecret fips d t = (Inr d', t')"
  obtains d1 where
    "if has_value d ''client_secret'' then d1 = d
     else (\<exists>v. length v = 64 \<and> set v \<subseteq> set (base64_letters @ ''-_'') \<and> d1 = d(''client_secret'' \<mapsto> v))"
    "if has_value d1 ''client_secret_digest'' then d' = d1
     else (\<exists>h. digest_of (data_value d1 ''client_secret'') h \<and> h \<noteq> [] \<and>
                 d' = d1(''client_secret_digest'' \<mapsto> h))"
proof -
  obtain d1 t1 where runs: "fill_key generateSecret ''client_secret'' d t = (Inr d1, t1)"
    "fill_key (hashClientSecret fips (data_value d1 ''client_secret'')) ''client_secret_digest'' d1 t1 =
      (Inr d', t')"
    using assms unfolding fillClientSecret_def by (rule bindA_Inr)
  show thesis
  proof (rule that)
    show "if has_value d ''client_secret'' then d1 = d
      else (\<exists>v. length v = 64 \<and> set v \<subseteq> set (base64_letters @ ''-_'') \<and> d1 = d(''client_secret'' \<mapsto> v))"
      using runs(1)
    proof (cases rule: fill_key_Inr)
      case (generated v)
      with generateSecret_Inr[OF generated(2)] show ?thesis by auto
    qed simp
    show "if has_value d1 ''client_secret_digest'' then d' = d1
     else (\<exists>h. digest_of (data_value d1 ''client_secret'') h \<and> h \<noteq> [] \<and>
                 d' = d1(''client_secret_digest'' \<mapsto> h))"
      using runs(2)
    proof (cases rule: fill_key_Inr)
      case (generated h)
      then have "digest_of (data_value d1 ''client_secret'') h" unfolding digest_of_def by blast
      with generated hashClientSecret_nonempty[OF generated(2)] show ?thesis by auto
    qed simp
  qed
qed

lemma fillClientSecret_consistent:
  assumes run: "fillClientSecret fips d t = (Inr d', t')" and "consistent d"
  shows "consistent d'"
  using run
proof (cases rule: fillClientSecret_cases)
  case (1 d1)
  have "consistent d1" and "has_value d1 ''client_secret''"
    using 1(1) assms(2)
    by (auto simp: consistent_def has_value_def data_value_def split: if_splits)
  then show ?thesis
    using 1(2) by (auto simp: consistent_def has_value_def data_value_def split: if_splits)
qed

section \<open>The mutate function\<close>

definition secret_data :: "Secret \<Rightarrow> datamap" where
  "secret_data s = (case s_Data s of None \<Rightarrow> Map.empty | Some d \<Rightarrow> d)"

definition ownerRef :: "string \<Rightarrow> ObjectMeta \<Rightarrow> OwnerReference" where
  "ownerRef kind own = \<lparr>or_Kind = kind, or_Name = Name own, or_UID = UID own\<rparr>"

text \<open>The controller of an object, if it has one, has the kind and the name of the given owner.\<close>

definition ownable :: "string \<Rightarrow> ObjectMeta \<Rightarrow> ObjectMeta \<Rightarrow> bool" where
  "ownable kind own m \<longleftrightarrow>
     (\<forall>ref. ControllerRef m = Some ref \<longrightarrow> or_Kind ref = kind \<and> or_Name ref = Name own)"

context kube_api
begin

lemma set_owner_Inr:
  "set_owner K kind own m = Inr m' \<Longrightarrow> m' = m\<lparr>ControllerRef := Some (ownerRef kind own)\<rparr> \<and>
     ownable kind own m"
  using set_owner_sets set_owner_refuses by (auto simp: ownerRef_def ownable_def)

lemma setOwner_Inr:
  "setOwner K kind own s = Inr s' \<Longrightarrow>
     s' = s\<lparr>s_Meta := (s_Meta s)\<lparr>ControllerRef := Some (ownerRef kind own)\<rparr>\<rparr> \<and>
     ownable kind own (s_Meta s)"
  using set_owner_Inr by (auto simp: setOwner_def)

lemma oauthMutate_result:
  assumes "mutated (oauthMutate K fips c cid) s m"
  shows "secret_data m ''client_id'' = Some cid \<and> s_Type m = ''Opaque'' \<and>
    ControllerRef (s_Meta m) = Some (ownerRef ''AutheliaOAuthClient'' (c_Meta c)) \<and>
    ownable ''AutheliaOAuthClient'' (c_Meta c) (s_Meta s) \<and>
    (if Public (c_Spec c)
     then secret_data m = (secret_data s)(''client_id'' \<mapsto> cid, ''client_secret'' := None, ''client_secret_digest'' := None)
     else \<exists>t t'. fillClientSecret fips ((secret_data s)(''client_id'' \<mapsto> cid)) t = (Inr (secret_data m), t'))"
proof (cases "Public (c_Spec c)")
  case True
  with assms show ?thesis
    by (auto simp: mutated_def oauthMutate_def Let_def secret_data_def ownable_def dest!: setOwner_Inr)
next
  case False
  with assms obtain d t t' where run: "fillClientSecret fips ((secret_data s)(''client_id'' \<mapsto> cid)) t = (Inr d, t')"
    and m: "s_Data m = Some d" "s_Type m = ''Opaque''"
      "ControllerRef (s_Meta m) = Some (ownerRef ''AutheliaOAuthClient'' (c_Meta c))"
      "ownable ''AutheliaOAuthClient'' (c_Meta c) (s_Meta s)"
    by (auto simp: mutated_def oauthMutate_def Let_def secret_data_def ownable_def
        elim!: bindA_Inr dest!: setOwner_Inr)
  have "d ''client_id'' = Some cid"
    using oauth.untouched[OF run, of "''client_id''"] by (simp add: clientSecretKeys_def)
  with False run m show ?thesis by (auto simp: secret_data_def)
qed

end

section \<open>The reconciler as a sequence of atomic writes\<close>

text \<open>The object and the mutate function of the Secret write, and the status write.\<close>

abbreviation oauthSecret :: "AutheliaOAuthClient \<Rightarrow> Secret" where
  "oauthSecret c \<equiv> newSecret (oauthSecretName c) (Namespace (c_Meta c))"

abbreviation oauthSecretKey :: "AutheliaOAuthClient \<Rightarrow> nsname" where
  "oauthSecretKey c \<equiv> (Namespace (c_Meta c), oauthSecretName c)"

abbreviation withSecretName :: "AutheliaOAuthClient \<Rightarrow> AutheliaOAuthClient" where
  "withSecretName c \<equiv> c\<lparr>c_Status := (c_Status c)\<lparr>SecretName := oauthSecretName c\<rparr>\<rparr>"

lemma key_newSecret [simp]: "meta_key (s_Meta (newSecret n ns)) = (ns, n)"
  by (simp add: newSecret_def new_meta_def meta_key_def)

inductive oauth_write :: "'w kube \<Rightarrow> bool \<Rightarrow> AutheliaOAuthClient \<Rightarrow> objects \<Rightarrow> objects \<Rightarrow> bool"
  for K fips c where
  secret: "wrote_Secret (oauthSecret c) (oauthMutate K fips c (effectiveClientID c)) L L' \<Longrightarrow>
    oauth_write K fips c L L'"
| status: "wrote_status_OAuthClient (withSecretName c) L L' \<Longrightarrow> oauth_write K fips c L L'"

text \<open>A field of a Secret has a value.\<close>

definition field_is :: "nsname \<Rightarrow> string \<Rightarrow> bytes \<Rightarrow> objects \<Rightarrow> bool" where
  "field_is k f v L \<longleftrightarrow> (\<exists>s. o_Secrets L k = Some s \<and> secret_data s f = Some v)"

lemma secret_data_written: "written_Secret m s \<Longrightarrow> secret_data s = secret_data m"
  by (auto simp: written_Secret_def secret_data_def)

context kube_api
begin

lemma oauth_write_keeps_field:
  assumes "oauth_write K fips c L L'" and "field_is k f v L" and "v \<noteq> []" and "f \<noteq> ''client_id''"
    and "\<not> Public (c_Spec c) \<or> k \<noteq> oauthSecretKey c"
  shows "field_is k f v L'"
  using assms(1)
proof cases
  case secret
  then obtain x m where x: "mutated (oauthMutate K fips c (effectiveClientID c))
        (current (o_Secrets L) (oauthSecretKey c) (oauthSecret c)) m"
      "written_Secret m x" "L' = L\<lparr>o_Secrets := (o_Secrets L)(oauthSecretKey c \<mapsto> x)\<rparr>"
    by (rule wrote_SecretE) simp
  show ?thesis
  proof (cases "k = oauthSecretKey c")
    case True
    with assms(2) obtain s where s: "o_Secrets L k = Some s" "secret_data s f = Some v"
      by (auto simp: field_is_def)
    have "\<not> Public (c_Spec c)" using assms(5) True by simp
    with oauthMutate_result[OF x(1)] s True obtain t t' where
      "fillClientSecret fips ((secret_data s)(''client_id'' \<mapsto> effectiveClientID c)) t = (Inr (secret_data m), t')"
      by (auto simp: current_def)
    from oauth.preserve[OF this, of f] s assms(3,4) have "secret_data m f = Some v"
      by (simp add: has_value_def)
    with x True secret_data_written show ?thesis by (auto simp: field_is_def)
  next
    case False
    with assms(2) x(3) show ?thesis by (auto simp: field_is_def)
  qed
next
  case status
  with assms(2) show ?thesis by (auto simp: wrote_status_OAuthClient_def field_is_def Let_def)
qed

lemma oauth_write_foreign:
  assumes "oauth_write K fips c L L'" and "o_Secrets L k = Some s"
    and "ControllerRef (s_Meta s) = Some ref" and "or_Kind ref \<noteq> ''AutheliaOAuthClient'' \<or> or_Name ref \<noteq> Name (c_Meta c)"
  shows "o_Secrets L' k = Some s"
  using assms(1)
proof cases
  case secret
  then obtain m x where x: "mutated (oauthMutate K fips c (effectiveClientID c))
        (current (o_Secrets L) (oauthSecretKey c) (oauthSecret c)) m"
      "L' = L\<lparr>o_Secrets := (o_Secrets L)(oauthSecretKey c \<mapsto> x)\<rparr>"
    by (rule wrote_SecretE) simp
  have "k \<noteq> oauthSecretKey c"
    using oauthMutate_result[OF x(1)] assms(2-4) by (auto simp: current_def ownable_def)
  with x(2) assms(2) show ?thesis by simp
next
  case status
  with assms(2) show ?thesis by (auto simp: wrote_status_OAuthClient_def Let_def)
qed

lemma ReconcileOAuthClient_steps:
  assumes run: "ReconcileOAuthClient K fips req w = (r, w')" and get: "get_OAuthClient K req w = (Inr c, w0)"
  shows "(\<lambda>L L'. env L L' \<or> oauth_write K fips c L L')\<^sup>*\<^sup>* (live w) (live w')"
    (is "?R\<^sup>*\<^sup>* _ _")
proof -
  let ?rest = "bindA (cou_Secret K (oauthSecret c) (oauthMutate K fips c (effectiveClientID c))) (\<lambda>_.
      bindA (if SecretName (c_Status c) \<noteq> oauthSecretName c then status_OAuthClient K (withSecretName c)
             else returnA ()) (\<lambda>_. returnA \<lparr>RequeueAfter = 0\<rparr>))"
  have "moves live ?R (cou_Secret K (oauthSecret c) (oauthMutate K fips c (effectiveClientID c)))"
    by (rule moves_around) (erule cou_Secret_effect, rule oauth_write.secret)
  moreover have "moves live ?R (status_OAuthClient K (withSecretName c))"
    by (rule moves_around) (erule status_OAuthClient_effect, rule oauth_write.status)
  ultimately have "moves live ?R ?rest" by (intro moves_intros)
  moreover have "?rest w0 = (r, w')" using run get by (simp add: ReconcileOAuthClient_def)
  ultimately have "?R\<^sup>*\<^sup>* (live w0) (live w')" by (rule movesD)
  moreover have "?R\<^sup>*\<^sup>* (live w) (live w0)"
    using get_OAuthClient_reads[OF get] by (rule rtranclp_weaken) simp
  ultimately show ?thesis by simp
qed

end

section \<open>What a successful run establishes\<close>

context kube_fresh
begin

lemma ReconcileOAuthClient_done:
  assumes run: "ReconcileOAuthClient K fips req w = (Inr res, w')"
    and get: "get_OAuthClient K req w = (Inr c, w0)"
  shows "\<exists>L1. wrote_Secret (oauthSecret c) (oauthMutate K fips c (effectiveClientID c)) (live w) L1 \<and>
    (if SecretName (c_Status c) \<noteq> oauthSecretName c
     then wrote_status_OAuthClient (withSecretName c) L1 (live w') else live w' = L1)"
proof -
  have w0: "live w0 = live w" using get_OAuthClient_reads[OF get] by simp
  from run get have "bindA (cou_Secret K (oauthSecret c) (oauthMutate K fips c (effectiveClientID c))) (\<lambda>_.
      bindA (if SecretName (c_Status c) \<noteq> oauthSecretName c then status_OAuthClient K (withSecretName c)
             else returnA ()) (\<lambda>_. returnA \<lparr>RequeueAfter = 0\<rparr>)) w0 = (Inr res, w')"
    by (simp add: ReconcileOAuthClient_def)
  then obtain s w1 u where "cou_Secret K (oauthSecret c) (oauthMutate K fips c (effectiveClientID c)) w0 = (Inr s, w1)"
    and st: "(if SecretName (c_Status c) \<noteq> oauthSecretName c then status_OAuthClient K (withSecretName c)
             else returnA ()) w1 = (Inr u, w')"
    by (auto elim!: bindA_Inr)
  then have "wrote_Secret (oauthSecret c) (oauthMutate K fips c (effectiveClientID c)) (live w) (live w1)"
    using cou_Secret_done w0 by metis
  moreover have "if SecretName (c_Status c) \<noteq> oauthSecretName c
     then wrote_status_OAuthClient (withSecretName c) (live w1) (live w') else live w' = live w1"
    using st status_OAuthClient_done by (auto split: if_splits)
  ultimately show ?thesis by blast
qed

lemma oauth_established:
  assumes run: "ReconcileOAuthClient K fips req w = (Inr res, w')"
    and get: "get_OAuthClient K req w = (Inr c, w0)" and key: "meta_key (c_Meta c) = req"
  shows "(\<exists>s. o_Secrets (live w') (oauthSecretKey c) = Some s \<and>
      ControllerRef (s_Meta s) = Some (ownerRef ''AutheliaOAuthClient'' (c_Meta c)) \<and>
      secret_data s ''client_id'' = Some (effectiveClientID c) \<and>
      (if Public (c_Spec c) then secret_data s ''client_secret'' = None \<and>
           secret_data s ''client_secret_digest'' = None
       else has_value (secret_data s) ''client_secret'' \<and> has_value (secret_data s) ''client_secret_digest'')) \<and>
    (\<exists>c'. o_OAuthClients (live w') req = Some c' \<and> SecretName (c_Status c') = oauthSecretName c)"
proof -
  obtain L1 where sec: "wrote_Secret (oauthSecret c) (oauthMutate K fips c (effectiveClientID c)) (live w) L1"
    and st: "if SecretName (c_Status c) \<noteq> oauthSecretName c
     then wrote_status_OAuthClient (withSecretName c) L1 (live w') else live w' = L1"
    using ReconcileOAuthClient_done[OF run get] by blast
  from sec obtain m x where m: "mutated (oauthMutate K fips c (effectiveClientID c))
        (current (o_Secrets (live w)) (oauthSecretKey c) (oauthSecret c)) m"
      "written_Secret m x" "L1 = (live w)\<lparr>o_Secrets := (o_Secrets (live w))(oauthSecretKey c \<mapsto> x)\<rparr>"
    by (rule wrote_SecretE) simp
  have x: "o_Secrets (live w') (oauthSecretKey c) = Some x"
    using m(3) st by (auto simp: wrote_status_OAuthClient_def Let_def split: if_splits)
  have cref: "ControllerRef (s_Meta x) = ControllerRef (s_Meta m)"
    using m(2) by (auto simp: written_Secret_def)
  have filled: "has_value (secret_data m) k" if "\<not> Public (c_Spec c)" "k \<in> clientSecretKeys" for k
    using oauthMutate_result[OF m(1)] that oauth.complete by fastforce
  have status: "\<exists>c'. o_OAuthClients (live w') req = Some c' \<and> SecretName (c_Status c') = oauthSecretName c"
    using st m(3) key get_OAuthClient_current[OF get]
    by (auto simp: wrote_status_OAuthClient_def Let_def split: if_splits)
  show ?thesis
    using x status cref oauthMutate_result[OF m(1)] filled secret_data_written[OF m(2)]
    by (auto simp: clientSecretKeys_def)
qed

end

section \<open>Properties\<close>

text \<open>A server with a confidential client whose Secret exists, for the witnesses.\<close>

definition sample_oauth_secret :: Secret where
  "sample_oauth_secret =
     (newSecret ''grafana-oauth-secret'' ''web'')\<lparr>s_Data :=
        Some [''client_secret'' \<mapsto> ''s3cret'', ''client_secret_digest'' \<mapsto> ''digest-a'']\<rparr>"

definition sample_oauth_server :: server where
  "sample_oauth_server =
     empty_server\<lparr>m_OAuthClients := [((''web'', ''grafana''), sample_oauth)],
       m_Secrets := [((''web'', ''grafana-oauth-secret''), sample_oauth_secret)]\<rparr>"

definition sample_foreign_secret :: Secret where
  "sample_foreign_secret =
     sample_oauth_secret\<lparr>s_Meta := (new_meta ''grafana-oauth-secret'' ''web'')\<lparr>ControllerRef :=
       Some \<lparr>or_Kind = ''Vault'', or_Name = ''v'', or_UID = ''other''\<rparr>\<rparr>\<rparr>"

definition sample_foreign_server :: server where
  "sample_foreign_server =
     sample_oauth_server\<lparr>m_Secrets := [((''web'', ''grafana-oauth-secret''), sample_foreign_secret)]\<rparr>"

lemma fill_done:
  "has_value d ''client_secret'' \<Longrightarrow> has_value d ''client_secret_digest'' \<Longrightarrow>
   fillClientSecret fips d t = (Inr d, t)"
  by (rule oauth.stable) (auto simp: clientSecretKeys_def)

lemmas sample_oauth_simps = sample_oauth_server_def sample_oauth_def sample_oauth_secret_def
  sample_spec_def newSecret_def

lemma sample_get_client:
  "get_OAuthClient mem_kube (''web'', ''grafana'') sample_oauth_server = (Inr sample_oauth, sample_oauth_server)"
  by (simp add: mem_run_simps sample_oauth_simps)

lemma sample_oauth_run:
  "\<exists>w'. ReconcileOAuthClient mem_kube False (''web'', ''grafana'') sample_oauth_server =
     (Inr \<lparr>RequeueAfter = 0\<rparr>, w')"
  by (simp add: ReconcileOAuthClient_def mem_run_simps sample_oauth_simps Let_def oauthMutate_def
      fill_done setOwner_def oauthSecretName_def has_value_def effectiveClientID_def)

lemma sample_field:
  "field_is (''web'', ''grafana-oauth-secret'') ''client_secret'' ''s3cret'' (mem_live sample_oauth_server)"
  by (simp add: field_is_def mem_live_def sample_oauth_simps secret_data_def)

text \<open>In any cluster, with stale caches, failing calls and other actors at work, a run of the
  OAuth client reconciler changes the objects only by its two atomic writes: the client's
  own Secret, through the mutate function, and the client's status.\<close>

theorem oauth_refines_writes:
  assumes "kube_api K live env" and "get_OAuthClient K req w = (Inr c, w0)"
    and "ReconcileOAuthClient K fips req w = (r, w')"
  shows "(\<lambda>L L'. env L L' \<or> oauth_write K fips c L L')\<^sup>*\<^sup>* (live w) (live w')"
  by (rule kube_api.ReconcileOAuthClient_steps[OF assms(1,3,2)])

theorem oauth_refines_writes_witness:
  "(\<lambda>L L'. quiet L L' \<or> oauth_write mem_kube False sample_oauth L L')\<^sup>*\<^sup>* (mem_live sample_oauth_server)
     (mem_live (snd (ReconcileOAuthClient mem_kube False (''web'', ''grafana'') sample_oauth_server)))"
  by (rule oauth_refines_writes[OF mem.kube_api_axioms sample_get_client prod.collapse[symmetric]])

text \<open>A client secret is never rotated: as long as the client is confidential and nobody
  else changes it, a value in any Secret (the generated secret, its digest, or anything but
  the client ID) survives every run of the reconciler, successful or not, whatever the API
  server answers.\<close>

theorem client_secret_never_rotated:
  assumes "kube_api K live env" and "get_OAuthClient K req w = (Inr c, w0)"
    and "ReconcileOAuthClient K fips req w = (r, w')"
    and "\<not> Public (c_Spec c)" and "v \<noteq> []" and "f \<noteq> ''client_id''"
    and "\<And>L L'. env L L' \<Longrightarrow> field_is k f v L \<Longrightarrow> field_is k f v L'"
    and "field_is k f v (live w)"
  shows "field_is k f v (live w')"
  using kube_api.ReconcileOAuthClient_steps[OF assms(1,3,2)] assms(8)
  by (rule rtranclp_keeps) (use assms kube_api.oauth_write_keeps_field[OF assms(1)] in blast)

theorem client_secret_never_rotated_witness:
  "field_is (''web'', ''grafana-oauth-secret'') ''client_secret'' ''s3cret''
     (mem_live (snd (ReconcileOAuthClient mem_kube False (''web'', ''grafana'') sample_oauth_server)))"
  by (rule client_secret_never_rotated[OF mem.kube_api_axioms sample_get_client prod.collapse[symmetric]
        _ _ _ _ sample_field]) (simp_all add: sample_oauth_simps quiet_def)

text \<open>C9: When the reconciler reports success in a quiet cluster, the client's Secret exists, is
  owned by the client, holds the effective client ID and, for a confidential client, a
  secret and a digest, for a public client neither; and the client's status names it.\<close>

theorem oauth_reconcile_establishes:
  assumes "kube_fresh K live" and "get_OAuthClient K req w = (Inr c, w0)"
    and "meta_key (c_Meta c) = req" and "ReconcileOAuthClient K fips req w = (Inr res, w')"
  shows "(\<exists>s. o_Secrets (live w') (oauthSecretKey c) = Some s \<and>
      ControllerRef (s_Meta s) = Some (ownerRef ''AutheliaOAuthClient'' (c_Meta c)) \<and>
      secret_data s ''client_id'' = Some (effectiveClientID c) \<and>
      (if Public (c_Spec c) then secret_data s ''client_secret'' = None \<and>
           secret_data s ''client_secret_digest'' = None
       else has_value (secret_data s) ''client_secret'' \<and> has_value (secret_data s) ''client_secret_digest'')) \<and>
    (\<exists>c'. o_OAuthClients (live w') req = Some c' \<and> SecretName (c_Status c') = oauthSecretName c)"
  by (rule kube_fresh.oauth_established[OF assms(1,4,2,3)])

theorem oauth_reconcile_establishes_witness:
  "\<exists>c'. o_OAuthClients (mem_live (snd (ReconcileOAuthClient mem_kube False (''web'', ''grafana'')
       sample_oauth_server))) (''web'', ''grafana'') = Some c' \<and>
     SecretName (c_Status c') = ''grafana-oauth-secret''"
proof -
  obtain w' where run: "ReconcileOAuthClient mem_kube False (''web'', ''grafana'') sample_oauth_server =
     (Inr \<lparr>RequeueAfter = 0\<rparr>, w')" using sample_oauth_run by blast
  have "meta_key (c_Meta sample_oauth) = (''web'', ''grafana'')"
    by (simp add: sample_oauth_def new_meta_def meta_key_def)
  from oauth_reconcile_establishes[OF mem.kube_fresh_axioms sample_get_client this run] run
  show ?thesis by (simp add: oauthSecretName_def sample_oauth_def new_meta_def)
qed

text \<open>The digest belongs to the secret: if a digest that is present matches the secret that
  is present, it does so after the generation step as well, and a digest that is
  generated is the hash of the secret stored beside it.\<close>

theorem client_digest_consistent:
  assumes "fillClientSecret fips d tape = (Inr d', tape')" and "consistent d"
  shows "consistent d' \<and> has_value d' ''client_secret_digest''"
  using fillClientSecret_consistent[OF assms] oauth.complete[OF assms(1)]
  by (auto simp: clientSecretKeys_def)

theorem client_digest_consistent_witness:
  "\<exists>d d' tape. fillClientSecret False d [] = (Inr d', tape) \<and> consistent d'"
proof -
  obtain h t' where h: "hashClientSecret False ''s'' (replicate 16 (CHR ''A'')) = (Inr h, t')"
    using hashClientSecret_total by blast
  let ?d = "[''client_secret'' \<mapsto> ''s'', ''client_secret_digest'' \<mapsto> h]"
  have c: "consistent ?d" using h by (auto simp: consistent_def digest_of_def data_value_def has_value_def)
  have "fillClientSecret False ?d [] = (Inr ?d, [])"
    by (rule fill_done) (use hashClientSecret_nonempty[OF h] in \<open>simp_all add: has_value_def\<close>)
  with client_digest_consistent[OF this c] show ?thesis by blast
qed

text \<open>C33: Secret and digest are filled independently: when the secret of a Secret is missing or empty and
  its digest is not, the next run generates a new secret and keeps the old digest, whatever it
  is, without looking at the secret. What is left is consistent only if the old digest happens
  to be a digest of the new secret; otherwise the configuration rendered from it rejects the
  client.\<close>

theorem stale_digest_kept:
  assumes "\<not> has_value d ''client_secret''" and "has_value d ''client_secret_digest''" and "48 \<le> length tape"
  shows "\<exists>d'. fillClientSecret fips d tape = (Inr d', drop 48 tape) \<and>
    d' = d(''client_secret'' \<mapsto> RawURLEncoding (take 48 tape)) \<and>
    d' ''client_secret_digest'' = d ''client_secret_digest'' \<and>
    (consistent d' \<longleftrightarrow> digest_of (RawURLEncoding (take 48 tape)) (data_value d ''client_secret_digest''))"
proof -
  let ?v = "RawURLEncoding (take 48 tape)"
  let ?d = "d(''client_secret'' \<mapsto> ?v)"
  have gen: "generateSecret tape = (Inr ?v, drop 48 tape)"
    using assms(3) by (simp add: generateSecret_def bindA_run rand_Read_def)
  have "?v \<noteq> []" using generateSecret_Inr[OF gen] by auto
  then have new: "has_value ?d ''client_secret''" "has_value ?d ''client_secret_digest''"
    using assms(2) by (simp_all add: has_value_def)
  have run: "fillClientSecret fips d tape = (Inr ?d, drop 48 tape)"
    using assms(1) gen new(2) by (simp add: fillClientSecret_def fill_key_def bindA_run)
  have "consistent ?d \<longleftrightarrow> digest_of ?v (data_value d ''client_secret_digest'')"
    using new by (simp add: consistent_def data_value_def)
  with run show ?thesis by simp
qed

theorem stale_digest_kept_witness:
  "\<exists>d'. fillClientSecret False [''client_secret_digest'' \<mapsto> ''old''] (replicate 48 (CHR ''A'')) = (Inr d', []) \<and>
     d' ''client_secret_digest'' = Some ''old'' \<and> \<not> consistent d'"
proof -
  have "\<not> digest_of s ''old''" for s
    by (auto simp: digest_of_def hashClientSecret_def elim!: bindA_Inr)
  then show ?thesis
    using stale_digest_kept[of "[''client_secret_digest'' \<mapsto> ''old'']" "replicate 48 (CHR ''A'')" False]
    by (auto simp: has_value_def data_value_def)
qed

text \<open>A Secret that another controller owns is never written: whatever the API server
  answers, it is the same after the run, provided nobody else changes it.\<close>

theorem foreign_secret_untouched:
  assumes "kube_api K live env" and "get_OAuthClient K req w = (Inr c, w0)"
    and "ReconcileOAuthClient K fips req w = (r, w')"
    and "ControllerRef (s_Meta s) = Some ref" and "or_Kind ref \<noteq> ''AutheliaOAuthClient'' \<or> or_Name ref \<noteq> Name (c_Meta c)"
    and "\<And>L L'. env L L' \<Longrightarrow> o_Secrets L k = Some s \<Longrightarrow> o_Secrets L' k = Some s"
    and "o_Secrets (live w) k = Some s"
  shows "o_Secrets (live w') k = Some s"
  using kube_api.ReconcileOAuthClient_steps[OF assms(1,3,2)] assms(7)
  by (rule rtranclp_keeps) (use assms(4-6) kube_api.oauth_write_foreign[OF assms(1)] in blast)

theorem foreign_secret_untouched_witness:
  "o_Secrets (mem_live (snd (ReconcileOAuthClient mem_kube False (''web'', ''grafana'') sample_foreign_server)))
     (''web'', ''grafana-oauth-secret'') = Some sample_foreign_secret"
proof -
  have get: "get_OAuthClient mem_kube (''web'', ''grafana'') sample_foreign_server =
      (Inr sample_oauth, sample_foreign_server)"
    by (simp add: mem_run_simps sample_oauth_simps sample_foreign_server_def)
  have own: "ControllerRef (s_Meta sample_foreign_secret) =
      Some \<lparr>or_Kind = ''Vault'', or_Name = ''v'', or_UID = ''other''\<rparr>"
    by (simp add: sample_foreign_secret_def)
  have other: "or_Kind \<lparr>or_Kind = ''Vault'', or_Name = ''v'', or_UID = ''other''\<rparr> \<noteq> ''AutheliaOAuthClient'' \<or>
      or_Name \<lparr>or_Kind = ''Vault'', or_Name = ''v'', or_UID = ''other''\<rparr> \<noteq> Name (c_Meta sample_oauth)"
    by (simp add: sample_oauth_def new_meta_def)
  have s: "o_Secrets (mem_live sample_foreign_server) (''web'', ''grafana-oauth-secret'') =
      Some sample_foreign_secret"
    by (simp add: mem_live_def sample_foreign_server_def)
  obtain r w' where run: "ReconcileOAuthClient mem_kube False (''web'', ''grafana'') sample_foreign_server = (r, w')"
    by (rule prod.exhaust)
  from foreign_secret_untouched[OF mem.kube_api_axioms get run own other _ s]
  show ?thesis by (simp add: run quiet_def)
qed

end
