(* ===== verification/AutheliaController.thy ===== *)
theory AutheliaController
  imports Render OAuthClientController
begin

text \<open>
  \<open>internal/controller/authelia_controller.go\<close>: the controller of the Authelia resource.

  \<open>ReconcileAuthelia\<close> is the method \<open>Reconcile\<close>, built from one definition per helper method,
  in the order of the file. The library functions it reaches (\<open>sort.Slice\<close>,
  \<open>yaml.Marshal\<close>, RSA key generation) are the fields of \<open>golib\<close>.

  The lemmas view a run as a sequence of atomic writes, \<open>authelia_write\<close>, for what holds of
  every run (no secret is rotated, no claim is lost, a configuration that does not render
  writes nothing), and in a quiet cluster show what a successful run leaves behind.
\<close>

section \<open>Definitions\<close>

record golib =
  lib_sort_Slice :: slice_sorter
  lib_yaml_Marshal :: "gomap \<Rightarrow> string option"
  lib_rsa_GenerateKey :: rsa_gen

definition clientTargets :: "AutheliaOAuthClient \<Rightarrow> Authelia \<Rightarrow> bool" where
  "clientTargets c a =
     (if aref_Name (AutheliaRef (c_Spec c)) \<noteq> authName a then False
      else (let ns = (if aref_Namespace (AutheliaRef (c_Spec c)) = [] then Namespace (c_Meta c)
                      else aref_Namespace (AutheliaRef (c_Spec c)))
            in ns = authNamespace a))"

definition clientSecretDigest :: "'w kube \<Rightarrow> AutheliaOAuthClient \<Rightarrow> ('w, string) act" where
  "clientSecretDigest K c w =
     (let name = (if SecretName (c_Status c) = [] then Name (c_Meta c) @ ''-oauth-secret''
                  else SecretName (c_Status c))
      in case get_Secret K (Namespace (c_Meta c), name) w of
           (Inl e, w') \<Rightarrow> (if e = NotFound then Inr [] else Inl e, w')
         | (Inr secret, w') \<Rightarrow> (Inr (data_value (secret_data secret) ''client_secret_digest''), w'))"

text \<open>The loop of \<open>collectClients\<close>; the pair is (\<open>clients\<close>, \<open>missing\<close>).\<close>

fun collectLoop :: "'w kube \<Rightarrow> Authelia \<Rightarrow> AutheliaOAuthClient list \<Rightarrow> oidcClient list \<times> nat \<Rightarrow>
    ('w, oidcClient list \<times> nat) act" where
  "collectLoop K a [] acc = returnA acc"
| "collectLoop K a (c # cs) acc =
     (if \<not> clientTargets c a then collectLoop K a cs acc
      else
        (let spec = (c_Spec c)\<lparr>ClientID := effectiveClientID c\<rparr>; (clients, missing) = acc in
         if Public (c_Spec c)
         then collectLoop K a cs (clients @ [\<lparr>oc_spec = spec, oc_secretDigest = []\<rparr>], missing)
         else bindA (clientSecretDigest K c) (\<lambda>digest.
           if digest = [] then collectLoop K a cs (clients, missing + 1)
           else collectLoop K a cs (clients @ [\<lparr>oc_spec = spec, oc_secretDigest = digest\<rparr>], missing))))"

definition collectClients :: "'w kube \<Rightarrow> Authelia \<Rightarrow> ('w, oidcClient list \<times> nat) act" where
  "collectClients K a = bindA (list_OAuthClients K) (\<lambda>items. collectLoop K a items ([], 0))"

definition coreMutate :: "'w kube \<Rightarrow> rsa_gen \<Rightarrow> Authelia \<Rightarrow> Secret \<Rightarrow> (bytes, Secret) act" where
  "coreMutate K rsa a secret =
     (let secret1 = (if Labels (s_Meta secret) = None
                     then secret\<lparr>s_Meta := (s_Meta secret)\<lparr>Labels := Some (labelsFor a)\<rparr>\<rparr> else secret);
          secret2 = secret1\<lparr>s_Type := ''Opaque''\<rparr>
      in bindA (generatedCoreSecretData rsa (s_Data secret2)) (\<lambda>data.
           liftR (setOwner K ''Authelia'' (a_Meta a) (secret2\<lparr>s_Data := Some data\<rparr>))))"

definition reconcileCoreSecret :: "'w kube \<Rightarrow> rsa_gen \<Rightarrow> Authelia \<Rightarrow> ('w, unit) act" where
  "reconcileCoreSecret K rsa a =
     (if ExistingSecret (Deployment (a_Spec a)) \<noteq> [] then returnA ()
      else bindA (cou_Secret K (newSecret (coreSecretName a) (authNamespace a)) (coreMutate K rsa a))
             (\<lambda>_. returnA ()))"

definition reconcileDataPVC :: "'w kube \<Rightarrow> Authelia \<Rightarrow> ('w, unit) act" where
  "reconcileDataPVC K a w =
     (if VolumeClaimTemplate (Deployment (a_Spec a)) = None then (Inr (), w)
      else case get_PVC K (authNamespace a, dataPVCName a) w of
             (Inr pvc, w') \<Rightarrow> (Inr (), w')
           | (Inl e, w') \<Rightarrow>
               (if e \<noteq> NotFound then (Inl e, w')
                else bindA (liftR (buildDataPVC a)) (create_PVC K) w'))"

definition configMapMutate :: "'w kube \<Rightarrow> Authelia \<Rightarrow> ConfigMap \<Rightarrow> ConfigMap \<Rightarrow> (bytes, ConfigMap) act" where
  "configMapMutate K a desired cm =
     (let cm1 = cm\<lparr>cm_Meta := (cm_Meta cm)\<lparr>Labels := Labels (cm_Meta desired)\<rparr>, cm_Data := cm_Data desired\<rparr>
      in liftR (bindR (set_owner K ''Authelia'' (a_Meta a) (cm_Meta cm1)) (\<lambda>m. Inr (cm1\<lparr>cm_Meta := m\<rparr>))))"

definition reconcileConfigMap :: "'w kube \<Rightarrow> Authelia \<Rightarrow> string \<Rightarrow> ('w, unit) act" where
  "reconcileConfigMap K a rendered =
     (let desired = buildConfigMap a rendered in
      bindA (cou_ConfigMap K
          \<lparr>cm_Meta = new_meta (Name (cm_Meta desired)) (Namespace (cm_Meta desired)), cm_Data = Map.empty\<rparr>
          (configMapMutate K a desired)) (\<lambda>_. returnA ()))"

definition serviceMutate :: "'w kube \<Rightarrow> Authelia \<Rightarrow> Service \<Rightarrow> Service \<Rightarrow> (bytes, Service) act" where
  "serviceMutate K a desired svc =
     (let svc1 = svc\<lparr>svc_Meta := (svc_Meta svc)\<lparr>Labels := Labels (svc_Meta desired)\<rparr>,
                     svc_Type := svc_Type desired, svc_Selector := svc_Selector desired,
                     svc_Ports := svc_Ports desired\<rparr>
      in liftR (bindR (set_owner K ''Authelia'' (a_Meta a) (svc_Meta svc1)) (\<lambda>m. Inr (svc1\<lparr>svc_Meta := m\<rparr>))))"

definition newService :: "string \<Rightarrow> string \<Rightarrow> Service" where
  "newService n ns = \<lparr>svc_Meta = new_meta n ns, svc_Type = [], svc_Selector = Map.empty, svc_Ports = [],
     svc_ClusterIP = []\<rparr>"

definition reconcileService :: "'w kube \<Rightarrow> Authelia \<Rightarrow> ('w, unit) act" where
  "reconcileService K a =
     (let desired = buildService a in
      bindA (cou_Service K (newService (Name (svc_Meta desired)) (Namespace (svc_Meta desired)))
              (serviceMutate K a desired)) (\<lambda>_. returnA ()))"

definition deploymentMutate :: "'w kube \<Rightarrow> Authelia \<Rightarrow> DeploymentObj \<Rightarrow> DeploymentObj \<Rightarrow>
    (bytes, DeploymentObj) act" where
  "deploymentMutate K a desired dep =
     (let dep1 = dep\<lparr>d_Meta := (d_Meta dep)\<lparr>Labels := Labels (d_Meta desired)\<rparr>, d_Spec := d_Spec desired\<rparr>
      in liftR (bindR (set_owner K ''Authelia'' (a_Meta a) (d_Meta dep1)) (\<lambda>m. Inr (dep1\<lparr>d_Meta := m\<rparr>))))"

text \<open>\<open>&appsv1.Deployment\{ObjectMeta: ...\}\<close>: every other field is the zero value.\<close>

definition newDeployment :: "string \<Rightarrow> string \<Rightarrow> DeploymentObj" where
  "newDeployment n ns =
     \<lparr>d_Meta = new_meta n ns,
      d_Spec = \<lparr>ds_Replicas = None, ds_RevisionHistoryLimit = None, ds_Selector = Map.empty,
        ds_Template = \<lparr>pod_Labels = Map.empty, pod_Annotations = Map.empty,
          pod_EnableServiceLinks = None, pod_Containers = [], pod_Volumes = []\<rparr>\<rparr>,
      d_ReadyReplicas = 0\<rparr>"

definition reconcileDeployment :: "'w kube \<Rightarrow> Authelia \<Rightarrow> bool \<Rightarrow> string \<Rightarrow> ('w, int32) act" where
  "reconcileDeployment K a oidcEnabled checksum =
     (let desired = buildDeployment a oidcEnabled checksum in
      bindA (cou_Deployment K (newDeployment (Name (d_Meta desired)) (Namespace (d_Meta desired)))
              (deploymentMutate K a desired)) (\<lambda>dep. returnA (d_ReadyReplicas dep)))"

definition updateStatus :: "'w kube \<Rightarrow> Authelia \<Rightarrow> int32 \<Rightarrow> string list \<Rightarrow> string list \<Rightarrow> ('w, unit) act" where
  "updateStatus K a ready clientIDs ruleDomains =
     status_Authelia K (a\<lparr>a_Status := (a_Status a)\<lparr>ReadyReplicas := ready, OIDCClients := clientIDs,
       AccessControlRules := ruleDomains\<rparr>\<rparr>)"

text \<open>\<open>rules = append(rules, ingressAccessRules(...)...)\<close> over the listed Ingresses.\<close>

fun appendRules :: "Ingress list \<Rightarrow> accessRule list result" where
  "appendRules [] = Inr []"
| "appendRules (ing # ings) =
     bindR (ingressAccessRules ing) (\<lambda>rs. bindR (appendRules ings) (\<lambda>rest. Inr (rs @ rest)))"

text \<open>
  \<open>for _, d := range ar.rule["domain"].([]any)\<close> with \<open>d.(string)\<close>: both type assertions panic
  on another dynamic type.
\<close>

definition domainsOf :: "json smap \<Rightarrow> string list result" where
  "domainsOf rule =
     (case sm_lookup rule ''domain'' of
        Some (JArr ds) \<Rightarrow>
          collectR (\<lambda>d. case d of JStr s \<Rightarrow> Inr (Some s)
                               | _ \<Rightarrow> Inl (Panic ''interface conversion'')) ds
      | _ \<Rightarrow> Inl (Panic ''interface conversion''))"

fun appendDomains :: "accessRule list \<Rightarrow> string list result" where
  "appendDomains [] = Inr []"
| "appendDomains (ar # ars) =
     bindR (domainsOf (ar_rule ar)) (\<lambda>ds. bindR (appendDomains ars) (\<lambda>rest. Inr (ds @ rest)))"

definition collectIngressRules :: "'w kube \<Rightarrow> ('w, json smap list \<times> string list) act" where
  "collectIngressRules K =
     bindA (list_Ingresses K) (\<lambda>items.
     bindA (liftR (appendRules items)) (\<lambda>rules.
     (let sorted = sortAccessRules rules in
      bindA (liftR (appendDomains sorted)) (\<lambda>domains.
      returnA (map ar_rule sorted, domains)))))"

definition second :: nat where
  "second = 1000000000"

text \<open>
  \<open>Reconcile\<close> in three parts: the writes (lines 82 to 112), preceded by the collection and the
  rendering (lines 67 to 80), preceded by the lookup of the resource.
\<close>

definition writeObjects :: "'w kube \<Rightarrow> golib \<Rightarrow> Authelia \<Rightarrow> oidcClient list \<Rightarrow> nat \<Rightarrow> string list \<Rightarrow>
    string \<Rightarrow> ('w, Result) act" where
  "writeObjects K lib authelia clients missing ruleDomains renderedConfig =
     bindA (reconcileCoreSecret K (lib_rsa_GenerateKey lib) authelia) (\<lambda>_.
     bindA (reconcileConfigMap K authelia renderedConfig) (\<lambda>_.
     bindA (reconcileService K authelia) (\<lambda>_.
     bindA (reconcileDataPVC K authelia) (\<lambda>_.
     bindA (reconcileDeployment K authelia (clients \<noteq> []) (configChecksum renderedConfig)) (\<lambda>readyReplicas.
     bindA (updateStatus K authelia readyReplicas (sort (map (\<lambda>c. ClientID (oc_spec c)) clients))
             ruleDomains) (\<lambda>_.
     returnA \<lparr>RequeueAfter = (if missing > 0 then 10 * second else 0)\<rparr>))))))"

definition reconcileBody :: "'w kube \<Rightarrow> golib \<Rightarrow> Authelia \<Rightarrow> ('w, Result) act" where
  "reconcileBody K lib authelia =
     bindA (collectClients K authelia) (\<lambda>(clients, missing).
     bindA (collectIngressRules K) (\<lambda>(ingressRules, ruleDomains).
     bindA (liftR (renderConfig (lib_sort_Slice lib) (lib_yaml_Marshal lib) (Settings (a_Spec authelia))
              clients ingressRules (Hostname (a_Spec authelia)))) (\<lambda>renderedConfig.
     writeObjects K lib authelia clients missing ruleDomains renderedConfig)))"

definition ReconcileAuthelia :: "'w kube \<Rightarrow> golib \<Rightarrow> nsname \<Rightarrow> ('w, Result) act" where
  "ReconcileAuthelia K lib req w =
     (case get_Authelia K req w of
        (Inl e, w') \<Rightarrow> (IgnoreNotFound e, w')
      | (Inr authelia, w') \<Rightarrow> reconcileBody K lib authelia w')"

section \<open>The reconciler as a sequence of atomic writes\<close>

abbreviation coreSecretKey :: "Authelia \<Rightarrow> nsname" where
  "coreSecretKey a \<equiv> (authNamespace a, coreSecretName a)"

abbreviation newConfigMap :: "Authelia \<Rightarrow> ConfigMap" where
  "newConfigMap a \<equiv> \<lparr>cm_Meta = new_meta (configMapName a) (authNamespace a), cm_Data = Map.empty\<rparr>"

text \<open>The resource with the three fields of the status that \<open>updateStatus\<close> sets.\<close>

abbreviation withStatus :: "Authelia \<Rightarrow> int32 \<Rightarrow> string list \<Rightarrow> string list \<Rightarrow> Authelia" where
  "withStatus a n ids ds \<equiv>
     a\<lparr>a_Status := (a_Status a)\<lparr>ReadyReplicas := n, OIDCClients := ids, AccessControlRules := ds\<rparr>\<rparr>"

inductive authelia_write :: "'w kube \<Rightarrow> golib \<Rightarrow> Authelia \<Rightarrow> objects \<Rightarrow> objects \<Rightarrow> bool"
  for K lib a where
  core: "ExistingSecret (Deployment (a_Spec a)) = [] \<Longrightarrow>
    wrote_Secret (newSecret (coreSecretName a) (authNamespace a)) (coreMutate K (lib_rsa_GenerateKey lib) a) L L' \<Longrightarrow>
    authelia_write K lib a L L'"
| config: "wrote_ConfigMap (newConfigMap a) (configMapMutate K a (buildConfigMap a rendered)) L L' \<Longrightarrow>
    authelia_write K lib a L L'"
| service: "wrote_Service (newService (authName a) (authNamespace a)) (serviceMutate K a (buildService a)) L L' \<Longrightarrow>
    authelia_write K lib a L L'"
| claim: "buildDataPVC a = Inr p \<Longrightarrow> wrote_PVC p L L' \<Longrightarrow> authelia_write K lib a L L'"
| deploy: "wrote_Deployment (newDeployment (authName a) (authNamespace a))
    (deploymentMutate K a (buildDeployment a oidc checksum)) L L' \<Longrightarrow> authelia_write K lib a L L'"
| status: "wrote_status_Authelia (withStatus a n ids ds) L L' \<Longrightarrow> authelia_write K lib a L L'"

lemma desired_keys [simp]:
  "Name (cm_Meta (buildConfigMap a r)) = configMapName a"
  "Namespace (cm_Meta (buildConfigMap a r)) = authNamespace a"
  "Name (svc_Meta (buildService a)) = authName a"
  "Namespace (svc_Meta (buildService a)) = authNamespace a"
  "Name (d_Meta (buildDeployment a b cs)) = authName a"
  "Namespace (d_Meta (buildDeployment a b cs)) = authNamespace a"
  by (simp_all add: buildConfigMap_def buildService_def buildDeployment_def new_meta_def Let_def)

context kube_api
begin

abbreviation authelia_steps :: "golib \<Rightarrow> Authelia \<Rightarrow> objects \<Rightarrow> objects \<Rightarrow> bool" where
  "authelia_steps lib a \<equiv> \<lambda>L L'. env L L' \<or> authelia_write K lib a L L'"

lemma moves_clientSecretDigest [moves_intros]:
  "moves live (\<lambda>L L'. env L L' \<or> P L L') (clientSecretDigest K c)"
proof (rule moves_env)
  fix w r w'
  assume "clientSecretDigest K c w = (r, w')"
  then show "env\<^sup>*\<^sup>* (live w) (live w')"
    by (auto simp: clientSecretDigest_def Let_def dest!: get_Secret_reads split: prod.splits sum.splits)
qed

lemma moves_collectLoop: "moves live (\<lambda>L L'. env L L' \<or> P L L') (collectLoop K a cs acc)"
proof (induction cs arbitrary: acc)
  case (Cons c cs)
  then show ?case by (cases acc) (auto simp: Let_def intro!: moves_intros)
qed (simp add: moves_intros del: act_run)

lemma moves_collectClients: "moves live (\<lambda>L L'. env L L' \<or> P L L') (collectClients K a)"
  unfolding collectClients_def
  by (intro moves_intros moves_collectLoop moves_env list_OAuthClients_reads)

lemma moves_collectIngressRules: "moves live (\<lambda>L L'. env L L' \<or> P L L') (collectIngressRules K)"
  unfolding collectIngressRules_def Let_def
  by (intro moves_intros moves_env list_Ingresses_reads)

lemma moves_reconcileCoreSecret:
  "moves live (authelia_steps lib a) (reconcileCoreSecret K (lib_rsa_GenerateKey lib) a)"
  unfolding reconcileCoreSecret_def
proof (intro moves_intros)
  assume "\<not> ExistingSecret (Deployment (a_Spec a)) \<noteq> []"
  then show "moves live (authelia_steps lib a)
      (cou_Secret K (newSecret (coreSecretName a) (authNamespace a)) (coreMutate K (lib_rsa_GenerateKey lib) a))"
    by (intro moves_around) (erule cou_Secret_effect, rule authelia_write.core, simp_all)
qed

lemma moves_reconcileConfigMap: "moves live (authelia_steps lib a) (reconcileConfigMap K a rendered)"
  unfolding reconcileConfigMap_def Let_def desired_keys
  by (intro moves_intros moves_around) (erule cou_ConfigMap_effect, erule authelia_write.config)

lemma moves_reconcileService: "moves live (authelia_steps lib a) (reconcileService K a)"
  unfolding reconcileService_def Let_def desired_keys
  by (intro moves_intros moves_around) (erule cou_Service_effect, erule authelia_write.service)

lemma moves_reconcileDeployment: "moves live (authelia_steps lib a) (reconcileDeployment K a oidc cs)"
  unfolding reconcileDeployment_def Let_def desired_keys
  by (intro moves_intros moves_around) (erule cou_Deployment_effect, erule authelia_write.deploy)

lemma moves_updateStatus: "moves live (authelia_steps lib a) (updateStatus K a ready ids ds)"
  unfolding updateStatus_def
  by (intro moves_around) (erule status_Authelia_effect, erule authelia_write.status)

lemma moves_reconcileDataPVC: "moves live (authelia_steps lib a) (reconcileDataPVC K a)"
  unfolding moves_def
proof (intro allI impI)
  fix w r w'
  assume run: "reconcileDataPVC K a w = (r, w')"
  have create: "moves live (authelia_steps lib a) (bindA (liftR (buildDataPVC a)) (create_PVC K))"
  proof (cases "buildDataPVC a")
    case (Inl e)
    then show ?thesis by (simp add: moves_def bindA_def)
  next
    case (Inr p)
    have "moves live (authelia_steps lib a) (create_PVC K p)"
      by (intro moves_around) (erule create_PVC_effect, erule authelia_write.claim[OF Inr])
    moreover have "bindA (liftR (buildDataPVC a)) (create_PVC K) = create_PVC K p"
      by (rule ext) (simp add: bindA_def Inr)
    ultimately show ?thesis by simp
  qed
  obtain q v where get: "get_PVC K (authNamespace a, dataPVCName a) w = (q, v)" by (rule prod.exhaust)
  have "(authelia_steps lib a)\<^sup>*\<^sup>* (live w) (live v)"
    using get_PVC_reads[OF get] by (rule rtranclp_weaken) simp
  with run get movesD[OF create, of v r w'] show "(authelia_steps lib a)\<^sup>*\<^sup>* (live w) (live w')"
    by (auto simp: reconcileDataPVC_def split: if_splits sum.splits)
qed

lemma moves_writeObjects: "moves live (authelia_steps lib a) (writeObjects K lib a clients missing ds rendered)"
  unfolding writeObjects_def
  by (intro moves_intros moves_reconcileCoreSecret moves_reconcileConfigMap moves_reconcileService
      moves_reconcileDataPVC moves_reconcileDeployment moves_updateStatus)

lemma moves_reconcileBody: "moves live (authelia_steps lib a) (reconcileBody K lib a)"
  unfolding reconcileBody_def case_prod_unfold
  by (intro moves_intros moves_collectClients moves_collectIngressRules moves_writeObjects)

lemma ReconcileAuthelia_steps:
  assumes run: "ReconcileAuthelia K lib req w = (r, w')" and get: "get_Authelia K req w = (Inr a, w0)"
  shows "(authelia_steps lib a)\<^sup>*\<^sup>* (live w) (live w')"
proof -
  have "(authelia_steps lib a)\<^sup>*\<^sup>* (live w) (live w0)"
    using get_Authelia_reads[OF get] by (rule rtranclp_weaken) simp
  moreover have "reconcileBody K lib a w0 = (r, w')" using run get by (simp add: ReconcileAuthelia_def)
  note movesD[OF moves_reconcileBody this]
  ultimately show ?thesis by simp
qed

lemma coreMutate_result:
  assumes "mutated (coreMutate K rsa a) s m"
  shows "(\<exists>t t'. generatedCoreSecretData rsa (Some (secret_data s)) t = (Inr (secret_data m), t')) \<and>
    ControllerRef (s_Meta m) = Some (ownerRef ''Authelia'' (a_Meta a)) \<and> ownable ''Authelia'' (a_Meta a) (s_Meta s)"
proof -
  have nil: "generatedCoreSecretData rsa (s_Data x) = generatedCoreSecretData rsa (Some (secret_data x))" for x
    by (cases "s_Data x") (simp_all add: secret_data_def)
  from assms show ?thesis
    by (auto simp: mutated_def coreMutate_def Let_def nil ownable_def secret_data_def split: if_splits
        elim!: bindA_Inr dest!: setOwner_Inr) blast+
qed

lemma authelia_write_keeps_field:
  assumes "authelia_write K lib a L L'" and "field_is k f v L" and "v \<noteq> []"
  shows "field_is k f v L'"
  using assms(1)
proof cases
  case core
  from core(2) obtain m x where x: "mutated (coreMutate K (lib_rsa_GenerateKey lib) a)
        (current (o_Secrets L) (coreSecretKey a) (newSecret (coreSecretName a) (authNamespace a))) m"
      "written_Secret m x" "L' = L\<lparr>o_Secrets := (o_Secrets L)(coreSecretKey a \<mapsto> x)\<rparr>"
    by (rule wrote_SecretE) simp
  show ?thesis
  proof (cases "k = coreSecretKey a")
    case True
    with assms(2) obtain s where s: "o_Secrets L k = Some s" "secret_data s f = Some v"
      by (auto simp: field_is_def)
    with coreMutate_result[OF x(1)] True obtain t t' where
      "generatedCoreSecretData (lib_rsa_GenerateKey lib) (Some (secret_data s)) t = (Inr (secret_data m), t')"
      by (auto simp: current_def)
    from core.preserve[OF this, of f] s assms(3) have "secret_data m f = Some v"
      by (simp add: has_value_def)
    with x True secret_data_written show ?thesis by (auto simp: field_is_def)
  next
    case False
    with assms(2) x(3) show ?thesis by (auto simp: field_is_def)
  qed
qed (use assms(2) in \<open>auto simp: wrote_defs field_is_def Let_def\<close>)

lemma authelia_write_keeps_claim:
  assumes "authelia_write K lib a L L'" and "o_PVCs L k = Some p"
  shows "o_PVCs L' k = Some p"
  using assms by cases (auto simp: wrote_defs Let_def)

lemma authelia_write_keeps_specs:
  assumes "authelia_write K lib a L L'"
  shows "o_OAuthClients L' = o_OAuthClients L \<and> o_Ingresses L' = o_Ingresses L \<and>
    (\<forall>k. map_option (\<lambda>x. (a_Meta x, a_Spec x)) (o_Authelias L' k) =
         map_option (\<lambda>x. (a_Meta x, a_Spec x)) (o_Authelias L k))"
  using assms by cases (auto simp: wrote_defs Let_def)

end

section \<open>Collecting clients\<close>

text \<open>
  The client an OAuth client resource contributes, given the digest found for it, and
  whether it is still waiting for one.
\<close>

definition rendered_client :: "AutheliaOAuthClient \<Rightarrow> string \<Rightarrow> oidcClient" where
  "rendered_client c digest =
     \<lparr>oc_spec = (c_Spec c)\<lparr>ClientID := effectiveClientID c\<rparr>,
      oc_secretDigest = (if Public (c_Spec c) then [] else digest)\<rparr>"

definition digestIn :: "objects \<Rightarrow> AutheliaOAuthClient \<Rightarrow> string" where
  "digestIn L c =
     (let name = (if SecretName (c_Status c) = [] then Name (c_Meta c) @ ''-oauth-secret''
                  else SecretName (c_Status c))
      in case o_Secrets L (Namespace (c_Meta c), name) of
           None \<Rightarrow> [] | Some s \<Rightarrow> data_value (secret_data s) ''client_secret_digest'')"

definition ready :: "objects \<Rightarrow> AutheliaOAuthClient \<Rightarrow> bool" where
  "ready L c \<longleftrightarrow> Public (c_Spec c) \<or> digestIn L c \<noteq> []"

context kube_fresh
begin

lemma clientSecretDigest_current:
  assumes "clientSecretDigest K c w = (Inr d, w')"
  shows "d = digestIn (live w) c \<and> live w' = live w"
proof -
  let ?k = "(Namespace (c_Meta c), if SecretName (c_Status c) = [] then Name (c_Meta c) @ ''-oauth-secret''
     else SecretName (c_Status c))"
  obtain q v where get: "get_Secret K ?k w = (q, v)" by (rule prod.exhaust)
  have "live v = live w" using get_Secret_reads[OF get] by simp
  with assms get get_Secret_current get_Secret_missing show ?thesis
    by (auto simp: clientSecretDigest_def digestIn_def Let_def split: sum.splits if_splits)
qed

lemma collectLoop_current:
  assumes "collectLoop K a cs (clients, missing) w = (Inr (clients', missing'), w')"
  shows "live w' = live w \<and>
    clients' = clients @ map (\<lambda>c. rendered_client c (digestIn (live w) c))
       (filter (\<lambda>c. clientTargets c a \<and> ready (live w) c) cs) \<and>
    missing' = missing + length (filter (\<lambda>c. clientTargets c a \<and> \<not> ready (live w) c) cs)"
  using assms
proof (induction cs arbitrary: clients missing w)
  case (Cons c cs)
  consider "\<not> clientTargets c a" | "clientTargets c a" "Public (c_Spec c)"
    | "clientTargets c a" "\<not> Public (c_Spec c)" by blast
  then show ?case
  proof cases
    case 3
    with Cons.prems obtain d w1 where d: "clientSecretDigest K c w = (Inr d, w1)"
      and rest: "(if d = [] then collectLoop K a cs (clients, missing + 1)
         else collectLoop K a cs (clients @ [\<lparr>oc_spec = (c_Spec c)\<lparr>ClientID := effectiveClientID c\<rparr>,
           oc_secretDigest = d\<rparr>], missing)) w1 = (Inr (clients', missing'), w')"
      by (auto simp: Let_def elim!: bindA_Inr)
    note cur = clientSecretDigest_current[OF d]
    show ?thesis
    proof (cases "d = []")
      case True
      with rest have "collectLoop K a cs (clients, missing + 1) w1 = (Inr (clients', missing'), w')" by simp
      from Cons.IH[OF this] cur 3 True show ?thesis by (simp add: ready_def)
    next
      case False
      with rest have "collectLoop K a cs (clients @ [\<lparr>oc_spec = (c_Spec c)\<lparr>ClientID := effectiveClientID c\<rparr>,
           oc_secretDigest = d\<rparr>], missing) w1 = (Inr (clients', missing'), w')" by simp
      from Cons.IH[OF this] cur 3 False show ?thesis by (simp add: ready_def rendered_client_def)
    qed
  next
    case 2
    with Cons.prems have "collectLoop K a cs (clients @ [\<lparr>oc_spec = (c_Spec c)\<lparr>ClientID := effectiveClientID c\<rparr>,
           oc_secretDigest = []\<rparr>], missing) w = (Inr (clients', missing'), w')" by (simp add: Let_def)
    from Cons.IH[OF this] 2 show ?thesis by (simp add: ready_def rendered_client_def)
  next
    case 1
    with Cons.prems have "collectLoop K a cs (clients, missing) w = (Inr (clients', missing'), w')" by simp
    from Cons.IH[OF this] 1 show ?thesis by simp
  qed
qed simp

end

section \<open>Collecting access rules\<close>

lemma appendRules_total: "appendRules ings = Inr (concat (map rulesOf ings))"
  by (induction ings) (simp_all add: ingressAccessRules_rulesOf)

text \<open>The domains of a generated rule.\<close>

definition ruleDomains :: "accessRule \<Rightarrow> string list" where
  "ruleDomains r =
     (case sm_lookup (ar_rule r) ''domain'' of
        Some (JArr ds) \<Rightarrow> List.map_filter (\<lambda>d. case d of JStr s \<Rightarrow> Some s | _ \<Rightarrow> None) ds
      | _ \<Rightarrow> [])"

lemma map_filter_JStr: "List.map_filter (\<lambda>d. case d of JStr s \<Rightarrow> Some s | _ \<Rightarrow> None) (map JStr ds) = ds"
  by (induction ds) (simp_all add: List.map_filter_simps)

lemma collectR_JStr:
  "collectR (\<lambda>d. case d of JStr s \<Rightarrow> Inr (Some s) | _ \<Rightarrow> Inl (Panic ''interface conversion'')) (map JStr ds) = Inr ds"
  by (induction ds) simp_all

lemma rule_domain_field:
  "r \<in> set (rulesOf ing) \<Longrightarrow> sm_lookup (ar_rule r) ''domain'' = Some (JArr (map JStr (ingressDomains ing)))"
  by (auto simp: set_rulesOf)

lemma rule_domains:
  "r \<in> set (rulesOf ing) \<Longrightarrow> ruleDomains r = ingressDomains ing"
  "r \<in> set (rulesOf ing) \<Longrightarrow> domainsOf (ar_rule r) = Inr (ruleDomains r)"
  by (simp_all add: ruleDomains_def domainsOf_def rule_domain_field map_filter_JStr collectR_JStr)

lemma appendDomains_total:
  "(\<And>r. r \<in> set rs \<Longrightarrow> \<exists>ing. r \<in> set (rulesOf ing)) \<Longrightarrow>
   appendDomains rs = Inr (concat (map ruleDomains rs))"
proof (induction rs)
  case (Cons r rs)
  from Cons.prems[of r] obtain ing where "r \<in> set (rulesOf ing)" by auto
  with Cons show ?case by (simp add: rule_domains(2))
qed simp

text \<open>The access rules of a list of Ingresses, in the order they are rendered.\<close>

definition allRules :: "Ingress list \<Rightarrow> accessRule list" where
  "allRules ings = sortAccessRules (concat (map rulesOf ings))"

lemma collectIngressRules_eq:
  "collectIngressRules K w =
     (case list_Ingresses K w of
        (Inl e, w') \<Rightarrow> (Inl e, w')
      | (Inr ings, w') \<Rightarrow> (Inr (map ar_rule (allRules ings), concat (map ruleDomains (allRules ings))), w'))"
proof -
  have "appendDomains (allRules ings) = Inr (concat (map ruleDomains (allRules ings)))" for ings
    by (rule appendDomains_total) (auto simp: allRules_def)
  then show ?thesis
    by (auto simp: collectIngressRules_def bindA_def appendRules_total Let_def allRules_def[symmetric]
        split: prod.splits sum.splits)
qed

section \<open>What the writes leave behind\<close>

text \<open>
  What one reconcile wants the cluster to hold: the objects built from the resource, the
  clients and the rendered text, under the Authelia resource as owner.
\<close>

definition config_stored :: "Authelia \<Rightarrow> string \<Rightarrow> objects \<Rightarrow> bool" where
  "config_stored a rendered L \<longleftrightarrow>
     (\<exists>cm. o_ConfigMaps L (authNamespace a, configMapName a) = Some cm \<and>
        cm_Data cm = [''configuration.yaml'' \<mapsto> rendered] \<and>
        ControllerRef (cm_Meta cm) = Some (ownerRef ''Authelia'' (a_Meta a)))"

definition service_stored :: "Authelia \<Rightarrow> objects \<Rightarrow> bool" where
  "service_stored a L \<longleftrightarrow>
     (\<exists>v. o_Services L (authNamespace a, authName a) = Some v \<and>
        svc_Selector v = selectorFor a \<and> svc_Ports v = svc_Ports (buildService a) \<and>
        ControllerRef (svc_Meta v) = Some (ownerRef ''Authelia'' (a_Meta a)))"

definition deployment_stored :: "Authelia \<Rightarrow> bool \<Rightarrow> string \<Rightarrow> objects \<Rightarrow> bool" where
  "deployment_stored a oidc rendered L \<longleftrightarrow>
     (\<exists>d. o_Deployments L (authNamespace a, authName a) = Some d \<and>
        d_Spec d = d_Spec (buildDeployment a oidc (configChecksum rendered)) \<and>
        ControllerRef (d_Meta d) = Some (ownerRef ''Authelia'' (a_Meta a)))"

definition claim_stored :: "Authelia \<Rightarrow> objects \<Rightarrow> bool" where
  "claim_stored a L \<longleftrightarrow>
     (VolumeClaimTemplate (Deployment (a_Spec a)) \<noteq> None \<longrightarrow>
      o_PVCs L (authNamespace a, dataPVCName a) \<noteq> None)"

definition core_stored :: "Authelia \<Rightarrow> objects \<Rightarrow> bool" where
  "core_stored a L \<longleftrightarrow>
     (ExistingSecret (Deployment (a_Spec a)) = [] \<longrightarrow>
      (\<exists>s. o_Secrets L (coreSecretKey a) = Some s \<and> (\<forall>k \<in> coreKeys. has_value (secret_data s) k) \<and>
         ControllerRef (s_Meta s) = Some (ownerRef ''Authelia'' (a_Meta a))))"

lemmas stored_defs = config_stored_def service_stored_def deployment_stored_def claim_stored_def core_stored_def

context kube_api
begin

lemma configMap_written:
  assumes "wrote_ConfigMap (newConfigMap a) (configMapMutate K a (buildConfigMap a rendered)) L L'"
  shows "config_stored a rendered L'"
  using assms
  by (auto simp: wrote_ConfigMap_def cou_result_def mutated_def configMapMutate_def Let_def
      config_stored_def written_ConfigMap_def buildConfigMap_def new_meta_def meta_key_def dest!: set_owner_Inr)

lemma service_written:
  assumes "wrote_Service (newService (authName a) (authNamespace a)) (serviceMutate K a (buildService a)) L L'"
  shows "service_stored a L'"
  using assms
  by (auto simp: wrote_Service_def cou_result_def mutated_def serviceMutate_def Let_def newService_def
      service_stored_def written_Service_def buildService_def new_meta_def meta_key_def dest!: set_owner_Inr)

lemma deployment_written:
  assumes "wrote_Deployment (newDeployment (authName a) (authNamespace a))
    (deploymentMutate K a (buildDeployment a oidc (configChecksum rendered))) L L'"
  shows "deployment_stored a oidc rendered L'"
  using assms
  by (auto simp: wrote_Deployment_def cou_result_def mutated_def deploymentMutate_def Let_def newDeployment_def
      deployment_stored_def written_Deployment_def new_meta_def meta_key_def dest!: set_owner_Inr)

lemma core_written:
  assumes "wrote_Secret (newSecret (coreSecretName a) (authNamespace a)) (coreMutate K rsa a) L L'"
  shows "core_stored a L'"
proof -
  from assms obtain m x where x: "mutated (coreMutate K rsa a)
        (current (o_Secrets L) (coreSecretKey a) (newSecret (coreSecretName a) (authNamespace a))) m"
      "written_Secret m x" "L' = L\<lparr>o_Secrets := (o_Secrets L)(coreSecretKey a \<mapsto> x)\<rparr>"
    by (rule wrote_SecretE) simp
  have "has_value (secret_data m) k" if "k \<in> coreKeys" for k
    using coreMutate_result[OF x(1)] core.complete that by blast
  moreover have "ControllerRef (s_Meta x) = ControllerRef (s_Meta m)"
    using x(2) by (auto simp: written_Secret_def)
  ultimately show ?thesis
    using x coreMutate_result[OF x(1)] secret_data_written[OF x(2)] by (auto simp: core_stored_def)
qed

end

lemma writeObjects_runs:
  assumes "writeObjects K lib a clients missing ds rendered w = (Inr res, w')"
  obtains u1 w1 u2 w2 u3 w3 u4 w4 n w5 u6 where
    "reconcileCoreSecret K (lib_rsa_GenerateKey lib) a w = (Inr u1, w1)"
    "reconcileConfigMap K a rendered w1 = (Inr u2, w2)"
    "reconcileService K a w2 = (Inr u3, w3)"
    "reconcileDataPVC K a w3 = (Inr u4, w4)"
    "reconcileDeployment K a (clients \<noteq> []) (configChecksum rendered) w4 = (Inr n, w5)"
    "updateStatus K a n (sort (map (\<lambda>c. ClientID (oc_spec c)) clients)) ds w5 = (Inr u6, w')"
    "res = \<lparr>RequeueAfter = (if missing > 0 then 10 * second else 0)\<rparr>"
proof -
  let ?ids = "sort (map (\<lambda>c. ClientID (oc_spec c)) clients)"
  let ?res = "\<lparr>RequeueAfter = (if missing > 0 then 10 * second else 0)\<rparr>"
  obtain u1 w1 where r1: "reconcileCoreSecret K (lib_rsa_GenerateKey lib) a w = (Inr u1, w1)"
    and 1: "bindA (reconcileConfigMap K a rendered) (\<lambda>_. bindA (reconcileService K a) (\<lambda>_.
      bindA (reconcileDataPVC K a) (\<lambda>_. bindA (reconcileDeployment K a (clients \<noteq> []) (configChecksum rendered))
        (\<lambda>n. bindA (updateStatus K a n ?ids ds) (\<lambda>_. returnA ?res))))) w1 = (Inr res, w')"
    using assms unfolding writeObjects_def by (rule bindA_Inr)
  from 1 obtain u2 w2 where r2: "reconcileConfigMap K a rendered w1 = (Inr u2, w2)"
    and 2: "bindA (reconcileService K a) (\<lambda>_.
      bindA (reconcileDataPVC K a) (\<lambda>_. bindA (reconcileDeployment K a (clients \<noteq> []) (configChecksum rendered))
        (\<lambda>n. bindA (updateStatus K a n ?ids ds) (\<lambda>_. returnA ?res)))) w2 = (Inr res, w')"
    by (rule bindA_Inr)
  from 2 obtain u3 w3 where r3: "reconcileService K a w2 = (Inr u3, w3)"
    and 3: "bindA (reconcileDataPVC K a) (\<lambda>_. bindA (reconcileDeployment K a (clients \<noteq> []) (configChecksum rendered))
        (\<lambda>n. bindA (updateStatus K a n ?ids ds) (\<lambda>_. returnA ?res))) w3 = (Inr res, w')"
    by (rule bindA_Inr)
  from 3 obtain u4 w4 where r4: "reconcileDataPVC K a w3 = (Inr u4, w4)"
    and 4: "bindA (reconcileDeployment K a (clients \<noteq> []) (configChecksum rendered))
        (\<lambda>n. bindA (updateStatus K a n ?ids ds) (\<lambda>_. returnA ?res)) w4 = (Inr res, w')"
    by (rule bindA_Inr)
  from 4 obtain n w5 where r5: "reconcileDeployment K a (clients \<noteq> []) (configChecksum rendered) w4 = (Inr n, w5)"
    and 5: "bindA (updateStatus K a n ?ids ds) (\<lambda>_. returnA ?res) w5 = (Inr res, w')"
    by (rule bindA_Inr)
  from 5 obtain u6 where r6: "updateStatus K a n ?ids ds w5 = (Inr u6, w')" and r7: "res = ?res"
    by (rule bindA_Inr) simp
  show thesis by (rule that[OF r1 r2 r3 r4 r5 r6 r7])
qed

text \<open>A write of one kind keeps what is stored of the others.\<close>

lemma stored_frames:
  "wrote_Service v h L L' \<Longrightarrow> config_stored a r L \<Longrightarrow> config_stored a r L'"
  "wrote_PVC p L L' \<Longrightarrow> config_stored a r L \<Longrightarrow> config_stored a r L'"
  "wrote_Deployment d i L L' \<Longrightarrow> config_stored a r L \<Longrightarrow> config_stored a r L'"
  "wrote_status_Authelia b L L' \<Longrightarrow> config_stored a r L \<Longrightarrow> config_stored a r L'"
  "wrote_PVC p L L' \<Longrightarrow> service_stored a L \<Longrightarrow> service_stored a L'"
  "wrote_Deployment d i L L' \<Longrightarrow> service_stored a L \<Longrightarrow> service_stored a L'"
  "wrote_status_Authelia b L L' \<Longrightarrow> service_stored a L \<Longrightarrow> service_stored a L'"
  "wrote_Deployment d i L L' \<Longrightarrow> claim_stored a L \<Longrightarrow> claim_stored a L'"
  "wrote_status_Authelia b L L' \<Longrightarrow> claim_stored a L \<Longrightarrow> claim_stored a L'"
  "wrote_status_Authelia b L L' \<Longrightarrow> deployment_stored a oidc r L \<Longrightarrow> deployment_stored a oidc r L'"
  "wrote_ConfigMap cm g L L' \<Longrightarrow> core_stored a L \<Longrightarrow> core_stored a L'"
  "wrote_Service v h L L' \<Longrightarrow> core_stored a L \<Longrightarrow> core_stored a L'"
  "wrote_PVC p L L' \<Longrightarrow> core_stored a L \<Longrightarrow> core_stored a L'"
  "wrote_Deployment d i L L' \<Longrightarrow> core_stored a L \<Longrightarrow> core_stored a L'"
  "wrote_status_Authelia b L L' \<Longrightarrow> core_stored a L \<Longrightarrow> core_stored a L'"
  by (auto simp: wrote_defs Let_def stored_defs)

context kube_fresh
begin

lemma reconcileCoreSecret_done:
  assumes "reconcileCoreSecret K rsa a w = (Inr u, w')"
  shows "core_stored a (live w')"
  using assms
  by (auto simp: reconcileCoreSecret_def core_stored_def split: if_splits elim!: bindA_Inr
      dest!: cou_Secret_done core_written)

lemma reconcileConfigMap_done:
  assumes "reconcileConfigMap K a rendered w = (Inr u, w')"
  shows "wrote_ConfigMap (newConfigMap a) (configMapMutate K a (buildConfigMap a rendered)) (live w) (live w')"
  using assms by (auto simp: reconcileConfigMap_def Let_def elim!: bindA_Inr dest!: cou_ConfigMap_done)

lemma reconcileService_done:
  assumes "reconcileService K a w = (Inr u, w')"
  shows "wrote_Service (newService (authName a) (authNamespace a)) (serviceMutate K a (buildService a))
    (live w) (live w')"
  using assms by (auto simp: reconcileService_def Let_def elim!: bindA_Inr dest!: cou_Service_done)

lemma reconcileDataPVC_done:
  assumes "reconcileDataPVC K a w = (Inr u, w')"
  shows "claim_stored a (live w') \<and> (live w' = live w \<or> (\<exists>p. wrote_PVC p (live w) (live w')))"
proof (cases "VolumeClaimTemplate (Deployment (a_Spec a))")
  case None
  with assms show ?thesis by (simp add: reconcileDataPVC_def claim_stored_def)
next
  case (Some spec)
  obtain q v where get: "get_PVC K (authNamespace a, dataPVCName a) w = (q, v)" by (rule prod.exhaust)
  have v: "live v = live w" using get_PVC_reads[OF get] by simp
  obtain p where p: "buildDataPVC a = Inr p" "meta_key (pvc_Meta p) = (authNamespace a, dataPVCName a)"
    using Some by (auto simp: buildDataPVC_def meta_key_def new_meta_def)
  show ?thesis
  proof (cases q)
    case (Inr pvc)
    with assms get Some v get_PVC_current[of "(authNamespace a, dataPVCName a)" w pvc v] show ?thesis
      by (auto simp: reconcileDataPVC_def claim_stored_def)
  next
    case (Inl e)
    with assms get Some p have "create_PVC K p v = (Inr u, w')"
      by (auto simp: reconcileDataPVC_def bindA_def split: if_splits)
    from create_PVC_done[OF this] v have wrote: "wrote_PVC p (live w) (live w')" by simp
    then have "claim_stored a (live w')" using p(2) by (auto simp: wrote_PVC_def Let_def claim_stored_def)
    with wrote show ?thesis by blast
  qed
qed

lemma reconcileDeployment_done:
  assumes "reconcileDeployment K a oidc cs w = (Inr n, w')"
  shows "wrote_Deployment (newDeployment (authName a) (authNamespace a))
    (deploymentMutate K a (buildDeployment a oidc cs)) (live w) (live w')"
  using assms by (auto simp: reconcileDeployment_def Let_def elim!: bindA_Inr dest!: cou_Deployment_done)

lemma writeObjects_done:
  assumes "writeObjects K lib a clients missing ds rendered w = (Inr res, w')"
  shows "core_stored a (live w') \<and> config_stored a rendered (live w') \<and> service_stored a (live w') \<and>
    claim_stored a (live w') \<and> deployment_stored a (clients \<noteq> []) rendered (live w') \<and>
    (\<exists>a' n. o_Authelias (live w') (meta_key (a_Meta a)) = Some a' \<and>
       a_Status a' = (a_Status a)\<lparr>ReadyReplicas := n,
         OIDCClients := sort (map (\<lambda>c. ClientID (oc_spec c)) clients), AccessControlRules := ds\<rparr>) \<and>
    res = \<lparr>RequeueAfter = (if missing > 0 then 10 * second else 0)\<rparr>"
  using assms
proof (cases rule: writeObjects_runs)
  case (1 u1 w1 u2 w2 u3 w3 u4 w4 n w5 u6)
  note s1 = reconcileCoreSecret_done[OF 1(1)] and s2 = reconcileConfigMap_done[OF 1(2)]
    and s3 = reconcileService_done[OF 1(3)] and s4 = reconcileDataPVC_done[OF 1(4)]
    and s5 = reconcileDeployment_done[OF 1(5)] and s6 = status_Authelia_done[OF 1(6)[unfolded updateStatus_def]]
  have config: "config_stored a rendered (live w4)"
    using stored_frames(1)[OF s3 configMap_written[OF s2]] s4 stored_frames(2) by auto
  have service: "service_stored a (live w4)" using service_written[OF s3] s4 stored_frames(5) by auto
  have core: "core_stored a (live w4)"
    using stored_frames(12)[OF s3 stored_frames(11)[OF s2 s1]] s4 stored_frames(13) by auto
  have status: "\<exists>a' n. o_Authelias (live w') (meta_key (a_Meta a)) = Some a' \<and>
       a_Status a' = (a_Status a)\<lparr>ReadyReplicas := n,
         OIDCClients := sort (map (\<lambda>c. ClientID (oc_spec c)) clients), AccessControlRules := ds\<rparr>"
    using s6 by (auto simp: wrote_status_Authelia_def Let_def)
  show ?thesis
    using stored_frames(15)[OF s6 stored_frames(14)[OF s5 core]]
      stored_frames(4)[OF s6 stored_frames(3)[OF s5 config]]
      stored_frames(7)[OF s6 stored_frames(6)[OF s5 service]]
      stored_frames(9)[OF s6 stored_frames(8)[OF s5 conjunct1[OF s4]]]
      stored_frames(10)[OF s6 deployment_written[OF s5]] status 1(7)
    by blast
qed

text \<open>The same steps when they may fail: what they can have changed.\<close>

lemma reconcileCoreSecret_any:
  "reconcileCoreSecret K rsa a w = (r, w') \<Longrightarrow> o_Deployments (live w') = o_Deployments (live w)"
  by (auto simp: reconcileCoreSecret_def wrote_Secret_def Let_def split: if_splits
      elim!: bindA_cases dest!: cou_Secret_effect)

lemma reconcileConfigMap_any:
  "reconcileConfigMap K a rendered w = (r, w') \<Longrightarrow> o_Deployments (live w') = o_Deployments (live w)"
  by (auto simp: reconcileConfigMap_def wrote_ConfigMap_def Let_def elim!: bindA_cases dest!: cou_ConfigMap_effect)

lemma reconcileService_any:
  "reconcileService K a w = (r, w') \<Longrightarrow>
     o_Deployments (live w') = o_Deployments (live w) \<and> o_ConfigMaps (live w') = o_ConfigMaps (live w)"
  by (auto simp: reconcileService_def wrote_Service_def Let_def elim!: bindA_cases dest!: cou_Service_effect)

lemma reconcileDataPVC_any:
  assumes "reconcileDataPVC K a w = (r, w')"
  shows "o_Deployments (live w') = o_Deployments (live w) \<and> o_ConfigMaps (live w') = o_ConfigMaps (live w)"
proof -
  obtain q v where get: "get_PVC K (authNamespace a, dataPVCName a) w = (q, v)" by (rule prod.exhaust)
  have "live v = live w" using get_PVC_reads[OF get] by simp
  with assms get show ?thesis
    by (auto simp: reconcileDataPVC_def wrote_PVC_def Let_def split: if_splits sum.splits
        elim!: bindA_cases dest!: create_PVC_effect)
qed

lemma reconcileDeployment_any:
  assumes "reconcileDeployment K a oidc (configChecksum rendered) w = (r, w')"
  shows "o_ConfigMaps (live w') = o_ConfigMaps (live w) \<and>
    (o_Deployments (live w') = o_Deployments (live w) \<or> deployment_stored a oidc rendered (live w'))"
proof -
  have "live w' = live w \<or> wrote_Deployment (newDeployment (authName a) (authNamespace a))
      (deploymentMutate K a (buildDeployment a oidc (configChecksum rendered))) (live w) (live w')"
    using assms by (auto simp: reconcileDeployment_def Let_def elim!: bindA_cases dest!: cou_Deployment_effect)
  then show ?thesis
  proof
    assume wrote: "wrote_Deployment (newDeployment (authName a) (authNamespace a))
      (deploymentMutate K a (buildDeployment a oidc (configChecksum rendered))) (live w) (live w')"
    then have "o_ConfigMaps (live w') = o_ConfigMaps (live w)" by (auto simp: wrote_Deployment_def Let_def)
    with deployment_written[OF wrote] show ?thesis by blast
  qed simp
qed

lemma updateStatus_any:
  "updateStatus K a n ids ds w = (r, w') \<Longrightarrow>
     o_Deployments (live w') = o_Deployments (live w) \<and> o_ConfigMaps (live w') = o_ConfigMaps (live w)"
  by (auto simp: updateStatus_def wrote_status_Authelia_def Let_def dest!: status_Authelia_effect)

lemma writeObjects_coupled:
  assumes "writeObjects K lib a clients missing ds rendered w = (r, w')"
  shows "o_Deployments (live w') = o_Deployments (live w) \<or>
    (config_stored a rendered (live w') \<and> deployment_stored a (clients \<noteq> []) rendered (live w'))"
proof -
  have cong: "config_stored a rendered L' = config_stored a rendered L"
    "deployment_stored a b rendered L' = deployment_stored a b rendered L"
    if "o_ConfigMaps L' = o_ConfigMaps L" "o_Deployments L' = o_Deployments L" for L L' b
    using that by (simp_all add: config_stored_def deployment_stored_def)
  from assms show ?thesis
    unfolding writeObjects_def
  proof (cases rule: bindA_cases)
    case (passed u1 w1)
    note d1 = reconcileCoreSecret_any[OF passed(1)]
    from passed(2) show ?thesis
    proof (cases rule: bindA_cases)
      case (passed u2 w2)
      note d2 = reconcileConfigMap_any[OF passed(1)]
      have c2: "config_stored a rendered (live w2)"
        by (rule configMap_written[OF reconcileConfigMap_done[OF passed(1)]])
      from passed(2) show ?thesis
      proof (cases rule: bindA_cases)
        case (passed u3 w3)
        note d3 = reconcileService_any[OF passed(1)]
        from passed(2) show ?thesis
        proof (cases rule: bindA_cases)
          case (passed u4 w4)
          note d4 = reconcileDataPVC_any[OF passed(1)]
          have c4: "config_stored a rendered (live w4)" using c2 d3 d4 by (simp add: config_stored_def)
          from passed(2) show ?thesis
          proof (cases rule: bindA_cases)
            case (failed e)
            from reconcileDeployment_any[OF failed(1)] c4 d1 d2 d3 d4 show ?thesis
              by (auto simp: config_stored_def)
          next
            case (passed n w5)
            note d5 = reconcileDeployment_any[OF passed(1)]
            have "o_Deployments (live w') = o_Deployments (live w5) \<and> o_ConfigMaps (live w') = o_ConfigMaps (live w5)"
              using passed(2) by (cases rule: bindA_cases) (auto dest!: updateStatus_any)
            with cong[of "live w'" "live w5"] d5 c4 d1 d2 d3 d4 show ?thesis
              by (auto simp: config_stored_def)
          qed
        qed (use d1 d2 d3 reconcileDataPVC_any in auto)
      qed (use d1 d2 reconcileService_any in auto)
    qed (use d1 reconcileConfigMap_any in auto)
  qed (use reconcileCoreSecret_any in auto)
qed

text \<open>The reading part of a run changes nothing.\<close>

lemma collectClients_reads: "collectClients K a w = (r, w') \<Longrightarrow> live w' = live w"
  using movesD[OF moves_collectClients[where P = quiet]] by simp

lemma collectIngressRules_reads: "collectIngressRules K w = (r, w') \<Longrightarrow> live w' = live w"
  using movesD[OF moves_collectIngressRules[where P = quiet]] by simp

lemma collectClients_current:
  assumes "collectClients K a w = (Inr (clients, missing), w')"
  obtains cs where "lists_all (o_OAuthClients (live w)) cs"
    "clients = map (\<lambda>c. rendered_client c (digestIn (live w) c))
       (filter (\<lambda>c. clientTargets c a \<and> ready (live w) c) cs)"
    "missing = length (filter (\<lambda>c. clientTargets c a \<and> \<not> ready (live w) c) cs)"
proof -
  obtain cs w1 where list: "list_OAuthClients K w = (Inr cs, w1)"
    and loop: "collectLoop K a cs ([], 0) w1 = (Inr (clients, missing), w')"
    using assms unfolding collectClients_def by (rule bindA_Inr)
  have "live w1 = live w" using list_OAuthClients_reads[OF list] by simp
  with collectLoop_current[OF loop] list_OAuthClients_all[OF list] show thesis by (intro that[of cs]) auto
qed

lemma collectIngressRules_current:
  assumes "collectIngressRules K w = (Inr (rules, ds), w')"
  obtains ings where "lists_all (o_Ingresses (live w)) ings" "rules = map ar_rule (allRules ings)"
    "ds = concat (map ruleDomains (allRules ings))"
  using assms list_Ingresses_all
  by (fastforce simp: collectIngressRules_eq split: prod.splits sum.splits)

lemma reconcileBody_runs:
  assumes "reconcileBody K lib a w = (r, w')"
  obtains (early) e where "r = Inl e" "live w' = live w"
    | (wrote) clients missing w1 rules ds w2 rendered where
      "collectClients K a w = (Inr (clients, missing), w1)" "collectIngressRules K w1 = (Inr (rules, ds), w2)"
      "renderConfig (lib_sort_Slice lib) (lib_yaml_Marshal lib) (Settings (a_Spec a)) clients rules
         (Hostname (a_Spec a)) = Inr rendered"
      "writeObjects K lib a clients missing ds rendered w2 = (r, w')" "live w1 = live w" "live w2 = live w"
  using assms unfolding reconcileBody_def
proof (cases rule: bindA_cases)
  case (failed e)
  with collectClients_reads early show thesis by auto
next
  case (passed cm w1)
  obtain clients missing where cm: "cm = (clients, missing)" by (rule prod.exhaust)
  note l1 = collectClients_reads[OF passed(1)]
  from passed(2)[unfolded cm prod.case] show thesis
  proof (cases rule: bindA_cases)
    case (failed e)
    with collectIngressRules_reads l1 early show thesis by auto
  next
    case inner: (passed rd w2)
    obtain rules ds where rd: "rd = (rules, ds)" by (rule prod.exhaust)
    note l2 = collectIngressRules_reads[OF inner(1)]
    from inner(2)[unfolded rd prod.case] show thesis
    proof (cases rule: bindA_cases)
      case (failed e)
      with l1 l2 early show thesis by auto
    next
      case (passed rendered w3)
      then show thesis
        using wrote[of clients missing w1 rules ds w2 rendered] \<open>collectClients K a w = (Inr cm, w1)\<close> cm
          inner(1) rd l1 l2 by auto
    qed
  qed
qed

lemma authelia_established:
  assumes get: "get_Authelia K req w = (Inr a, w0)" and key: "meta_key (a_Meta a) = req"
    and run: "ReconcileAuthelia K lib req w = (Inr res, w')"
  shows "\<exists>cs ings rendered. set cs = ran (o_OAuthClients (live w)) \<and> set ings = ran (o_Ingresses (live w)) \<and>
    (let clients = map (\<lambda>c. rendered_client c (digestIn (live w) c))
                     (filter (\<lambda>c. clientTargets c a \<and> ready (live w) c) cs);
         rules = allRules ings
     in renderConfig (lib_sort_Slice lib) (lib_yaml_Marshal lib) (Settings (a_Spec a)) clients
          (map ar_rule rules) (Hostname (a_Spec a)) = Inr rendered \<and>
        core_stored a (live w') \<and> config_stored a rendered (live w') \<and> service_stored a (live w') \<and>
        claim_stored a (live w') \<and> deployment_stored a (clients \<noteq> []) rendered (live w') \<and>
        (\<exists>a'. o_Authelias (live w') req = Some a' \<and>
           OIDCClients (a_Status a') = sort (map (\<lambda>c. ClientID (oc_spec c)) clients) \<and>
           AccessControlRules (a_Status a') = concat (map ruleDomains rules)) \<and>
        RequeueAfter res = (if \<exists>c \<in> set cs. clientTargets c a \<and> \<not> ready (live w) c
                            then 10 * second else 0))"
proof -
  have w0: "live w0 = live w" using get_Authelia_reads[OF get] by simp
  from get run have "reconcileBody K lib a w0 = (Inr res, w')" by (simp add: ReconcileAuthelia_def)
  then show ?thesis
  proof (cases rule: reconcileBody_runs)
    case (wrote clients missing w1 rules ds w2 rendered)
    obtain cs where cs: "lists_all (o_OAuthClients (live w)) cs"
      "clients = map (\<lambda>c. rendered_client c (digestIn (live w) c))
         (filter (\<lambda>c. clientTargets c a \<and> ready (live w) c) cs)"
      "missing = length (filter (\<lambda>c. clientTargets c a \<and> \<not> ready (live w) c) cs)"
      by (rule collectClients_current[OF wrote(1), unfolded w0])
    obtain ings where ings: "lists_all (o_Ingresses (live w)) ings" "rules = map ar_rule (allRules ings)"
      "ds = concat (map ruleDomains (allRules ings))"
      by (rule collectIngressRules_current[OF wrote(2), unfolded wrote(5) w0])
    have "(missing > 0) = (\<exists>c \<in> set cs. clientTargets c a \<and> \<not> ready (live w) c)"
      by (auto simp: cs(3) filter_empty_conv)
    with writeObjects_done[OF wrote(4)] wrote(3) cs ings key lists_all_set[OF cs(1)] lists_all_set[OF ings(1)]
    show ?thesis by (intro exI[of _ cs] exI[of _ ings] exI[of _ rendered]) (auto simp: Let_def)
  qed simp
qed

lemma reconcile_coupled:
  assumes get: "get_Authelia K req w = (Inr a, w0)" and run: "ReconcileAuthelia K lib req w = (r, w')"
  shows "o_Deployments (live w') = o_Deployments (live w) \<or>
    (\<exists>oidc rendered. config_stored a rendered (live w') \<and> deployment_stored a oidc rendered (live w'))"
proof -
  have w0: "live w0 = live w" using get_Authelia_reads[OF get] by simp
  from get run have "reconcileBody K lib a w0 = (r, w')" by (simp add: ReconcileAuthelia_def)
  then show ?thesis
  proof (cases rule: reconcileBody_runs)
    case (wrote clients missing w1 rules ds w2 rendered)
    from writeObjects_coupled[OF wrote(4)] wrote(6) w0 show ?thesis by auto
  qed (simp add: w0)
qed

lemma reconcile_unrendered:
  assumes get: "get_Authelia K req w = (Inr a, w0)" and run: "ReconcileAuthelia K lib req w = (r, w')"
    and fails: "\<And>clients rules. \<exists>e. renderConfig (lib_sort_Slice lib) (lib_yaml_Marshal lib)
        (Settings (a_Spec a)) clients rules (Hostname (a_Spec a)) = Inl e"
  shows "live w' = live w \<and> (\<exists>e. r = Inl e)"
proof -
  have w0: "live w0 = live w" using get_Authelia_reads[OF get] by simp
  from get run have "reconcileBody K lib a w0 = (r, w')" by (simp add: ReconcileAuthelia_def)
  then show ?thesis
  proof (cases rule: reconcileBody_runs)
    case (wrote clients missing w1 rules ds w2 rendered)
    with fails[of clients rules] show ?thesis by simp
  qed (simp add: w0)
qed

end

section \<open>Properties\<close>

text \<open>A server with one instance, one waiting client and one annotated Ingress.\<close>

definition sample_lib :: golib where
  "sample_lib =
     \<lparr>lib_sort_Slice = stable_sort, lib_yaml_Marshal = (\<lambda>_. Some ''yaml''), lib_rsa_GenerateKey = sample_rsa\<rparr>"

definition sample_server :: server where
  "sample_server =
     empty_server\<lparr>m_Authelias := [((''auth'', ''sso''), sample_authelia)],
       m_OAuthClients := [((''web'', ''grafana''), sample_oauth)],
       m_Ingresses := [((''web'', ''grafana''), sample_ingress)],
       m_PVCs := [((''auth'', ''old''), \<lparr>pvc_Meta = new_meta ''old'' ''auth'', pvc_Spec = JNull\<rparr>)],
       m_Secrets := [((''auth'', ''keep''), (newSecret ''keep'' ''auth'')\<lparr>s_Data := Some [''k'' \<mapsto> ''v'']\<rparr>)],
       m_tape := sample_tape\<rparr>"

definition sample_bad :: Authelia where
  "sample_bad = sample_authelia\<lparr>a_Spec := (a_Spec sample_authelia)\<lparr>Settings :=
     sample_settings\<lparr>AdditionalConfig := Some ''[1]''\<rparr>\<rparr>\<rparr>"

definition sample_bad_server :: server where
  "sample_bad_server = sample_server\<lparr>m_Authelias := [((''auth'', ''sso''), sample_bad)]\<rparr>"

lemma sample_get: "get_Authelia mem_kube (''auth'', ''sso'') sample_server = (Inr sample_authelia, sample_server)"
  by (simp add: mem_run_simps sample_server_def)

lemma sample_key: "meta_key (a_Meta sample_authelia) = (''auth'', ''sso'')"
  by (simp add: sample_authelia_def meta_key_def)

lemma sample_render:
  "renderConfig stable_sort (\<lambda>_. Some ''yaml'') sample_settings [] [ar_rule sample_rule_1, ar_rule sample_rule]
     ''sso.example.com'' = Inr ''yaml''"
  by code_simp

lemma sample_rules: "allRules [sample_ingress] = [sample_rule_1, sample_rule]"
  by code_simp

lemma sample_run:
  "\<exists>w'. ReconcileAuthelia mem_kube sample_lib (''auth'', ''sso'') sample_server =
     (Inr \<lparr>RequeueAfter = 10 * second\<rparr>, w')"
proof -
  obtain d t where "generatedCoreSecretData sample_rsa (Some Map.empty) sample_tape = (Inr d, t)"
    using sample_core_run by auto
  then show ?thesis
    by (simp add: ReconcileAuthelia_def sample_server_def sample_lib_def mem_run_simps reconcileBody_def
        collectClients_def collectIngressRules_eq sample_rules clientTargets_def sample_oauth_def
        sample_spec_def sample_authelia_def clientSecretDigest_def sample_render Let_def writeObjects_def
        reconcileCoreSecret_def coreMutate_def newSecret_def coreSecretName_def setOwner_def
        reconcileConfigMap_def configMapMutate_def reconcileService_def serviceMutate_def newService_def
        reconcileDataPVC_def buildDataPVC_def dataPVCName_def reconcileDeployment_def
        deploymentMutate_def newDeployment_def updateStatus_def)
qed

text \<open>In any cluster, with stale caches, failing calls and other actors at work, a run of the
  Authelia reconciler changes the objects only by six kinds of atomic writes, each through
  the mutate function of the code: core Secret, ConfigMap, Service, data claim, Deployment
  and the status of the resource.\<close>

theorem authelia_refines_writes:
  assumes "kube_api K live env" and "get_Authelia K req w = (Inr a, w0)"
    and "ReconcileAuthelia K lib req w = (r, w')"
  shows "(\<lambda>L L'. env L L' \<or> authelia_write K lib a L L')\<^sup>*\<^sup>* (live w) (live w')"
  by (rule kube_api.ReconcileAuthelia_steps[OF assms(1,3,2)])

theorem authelia_refines_writes_witness:
  "(\<lambda>L L'. quiet L L' \<or> authelia_write mem_kube sample_lib sample_authelia L L')\<^sup>*\<^sup>* (mem_live sample_server)
     (mem_live (snd (ReconcileAuthelia mem_kube sample_lib (''auth'', ''sso'') sample_server)))"
  by (rule authelia_refines_writes[OF mem.kube_api_axioms sample_get prod.collapse[symmetric]])

text \<open>The Authelia reconciler never rotates a secret: no value of any field of any Secret is
  changed or removed by a run, successful or not, whatever the API server answers, as long
  as nobody else changes it.\<close>

theorem core_secret_never_rotated:
  assumes "kube_api K live env" and "get_Authelia K req w = (Inr a, w0)"
    and "ReconcileAuthelia K lib req w = (r, w')" and "v \<noteq> []"
    and "\<And>L L'. env L L' \<Longrightarrow> field_is k f v L \<Longrightarrow> field_is k f v L'"
    and "field_is k f v (live w)"
  shows "field_is k f v (live w')"
  using kube_api.ReconcileAuthelia_steps[OF assms(1,3,2)] assms(6)
  by (rule rtranclp_keeps) (use assms(4,5) kube_api.authelia_write_keeps_field[OF assms(1)] in blast)

theorem core_secret_never_rotated_witness:
  "field_is (''auth'', ''keep'') ''k'' ''v''
     (mem_live (snd (ReconcileAuthelia mem_kube sample_lib (''auth'', ''sso'') sample_server)))"
proof (rule core_secret_never_rotated[OF mem.kube_api_axioms sample_get prod.collapse[symmetric]])
  show "field_is (''auth'', ''keep'') ''k'' ''v'' (mem_live sample_server)"
    by (simp add: field_is_def mem_live_def sample_server_def secret_data_def)
qed (simp_all add: quiet_def)

text \<open>Data is retained: a persistent volume claim, once there, is neither changed, replaced
  nor deleted by a run of the reconciler.\<close>

theorem data_claim_retained:
  assumes "kube_api K live env" and "get_Authelia K req w = (Inr a, w0)"
    and "ReconcileAuthelia K lib req w = (r, w')"
    and "\<And>L L'. env L L' \<Longrightarrow> o_PVCs L k = Some p \<Longrightarrow> o_PVCs L' k = Some p"
    and "o_PVCs (live w) k = Some p"
  shows "o_PVCs (live w') k = Some p"
  using kube_api.ReconcileAuthelia_steps[OF assms(1,3,2)] assms(5)
  by (rule rtranclp_keeps) (use assms(4) kube_api.authelia_write_keeps_claim[OF assms(1)] in blast)

theorem data_claim_retained_witness:
  "o_PVCs (mem_live (snd (ReconcileAuthelia mem_kube sample_lib (''auth'', ''sso'') sample_server)))
     (''auth'', ''old'') = Some \<lparr>pvc_Meta = new_meta ''old'' ''auth'', pvc_Spec = JNull\<rparr>"
  by (rule data_claim_retained[OF mem.kube_api_axioms sample_get prod.collapse[symmetric]])
    (simp_all add: quiet_def mem_live_def sample_server_def)

text \<open>C1: When the reconciler reports success in a quiet cluster, the objects are those the
  resource calls for: with the clients that target it and are ready, and the rules of all
  Ingresses, the configuration has been rendered; the ConfigMap holds that text, the
  Deployment is the one built for it and carries its checksum, the Service and the core
  Secret are in place, a configured claim exists, and the status lists the client IDs in
  order and the domains of the rules. A delay of ten seconds is asked for exactly when a
  client is still waiting for its secret.\<close>

theorem authelia_reconcile_establishes:
  assumes "kube_fresh K live" and "get_Authelia K req w = (Inr a, w0)" and "meta_key (a_Meta a) = req"
    and "ReconcileAuthelia K lib req w = (Inr res, w')"
  shows "\<exists>cs ings rendered. set cs = ran (o_OAuthClients (live w)) \<and> set ings = ran (o_Ingresses (live w)) \<and>
    (let clients = map (\<lambda>c. rendered_client c (digestIn (live w) c))
                     (filter (\<lambda>c. clientTargets c a \<and> ready (live w) c) cs);
         rules = allRules ings
     in renderConfig (lib_sort_Slice lib) (lib_yaml_Marshal lib) (Settings (a_Spec a)) clients
          (map ar_rule rules) (Hostname (a_Spec a)) = Inr rendered \<and>
        core_stored a (live w') \<and> config_stored a rendered (live w') \<and> service_stored a (live w') \<and>
        claim_stored a (live w') \<and> deployment_stored a (clients \<noteq> []) rendered (live w') \<and>
        (\<exists>a'. o_Authelias (live w') req = Some a' \<and>
           OIDCClients (a_Status a') = sort (map (\<lambda>c. ClientID (oc_spec c)) clients) \<and>
           AccessControlRules (a_Status a') = concat (map ruleDomains rules)) \<and>
        RequeueAfter res = (if \<exists>c \<in> set cs. clientTargets c a \<and> \<not> ready (live w) c
                            then 10 * second else 0))"
  by (rule kube_fresh.authelia_established[OF assms])

theorem authelia_reconcile_establishes_witness:
  "\<exists>rendered. config_stored sample_authelia rendered
     (mem_live (snd (ReconcileAuthelia mem_kube sample_lib (''auth'', ''sso'') sample_server)))"
proof -
  obtain w' where run: "ReconcileAuthelia mem_kube sample_lib (''auth'', ''sso'') sample_server =
     (Inr \<lparr>RequeueAfter = 10 * second\<rparr>, w')" using sample_run by blast
  from authelia_reconcile_establishes[OF mem.kube_fresh_axioms sample_get sample_key run] run
  show ?thesis by (auto simp: Let_def)
qed

text \<open>C7: The Deployment is never ahead of the ConfigMap: in a quiet cluster, however a run ends,
  either no Deployment was touched, or the ConfigMap holds the very text whose checksum the
  Deployment carries, so that a rollout always starts Pods with the new configuration.\<close>

theorem deployment_never_ahead:
  assumes "kube_fresh K live" and "get_Authelia K req w = (Inr a, w0)"
    and "ReconcileAuthelia K lib req w = (r, w')"
  shows "o_Deployments (live w') = o_Deployments (live w) \<or>
    (\<exists>oidc rendered. config_stored a rendered (live w') \<and> deployment_stored a oidc rendered (live w'))"
  by (rule kube_fresh.reconcile_coupled[OF assms])

theorem deployment_never_ahead_witness:
  "\<exists>oidc rendered. config_stored sample_authelia rendered
       (mem_live (snd (ReconcileAuthelia mem_kube sample_lib (''auth'', ''sso'') sample_server))) \<and>
     deployment_stored sample_authelia oidc rendered
       (mem_live (snd (ReconcileAuthelia mem_kube sample_lib (''auth'', ''sso'') sample_server)))"
proof -
  obtain w' where run: "ReconcileAuthelia mem_kube sample_lib (''auth'', ''sso'') sample_server =
     (Inr \<lparr>RequeueAfter = 10 * second\<rparr>, w')" using sample_run by blast
  have none: "o_Deployments (mem_live sample_server) (''auth'', ''sso'') = None"
    by (simp add: mem_live_def sample_server_def empty_server_def)
  have "o_Deployments (mem_live w') (''auth'', ''sso'') \<noteq> None"
    using mem.authelia_established[OF sample_get sample_key run]
    by (auto simp: deployment_stored_def Let_def sample_authelia_def)
  with none have "o_Deployments (mem_live w') \<noteq> o_Deployments (mem_live sample_server)" by metis
  with deployment_never_ahead[OF mem.kube_fresh_axioms sample_get run] run show ?thesis by simp
qed

text \<open>C14: A configuration that cannot be rendered harms nothing: when \<open>additionalConfig\<close> is
  neither a JSON object nor \<open>null\<close>, the run ends with an error before the first write and
  every object of the cluster is as before.\<close>

theorem bad_config_writes_nothing:
  assumes "kube_fresh K live" and "get_Authelia K req w = (Inr a, w0)"
    and "ReconcileAuthelia K lib req w = (r, w')"
    and "AdditionalConfig (Settings (a_Spec a)) = Some raw" and "raw \<noteq> []" and "json_Unmarshal raw = None"
  shows "live w' = live w \<and> (\<exists>e. r = Inl e)"
proof (rule kube_fresh.reconcile_unrendered[OF assms(1-3)])
  fix clients rules
  show "\<exists>e. renderConfig (lib_sort_Slice lib) (lib_yaml_Marshal lib)
        (Settings (a_Spec a)) clients rules (Hostname (a_Spec a)) = Inl e"
    using assms(4-6) by (simp add: renderConfig_def renderRoot_def initialRoot_def)
qed

theorem bad_config_writes_nothing_witness:
  "mem_live (snd (ReconcileAuthelia mem_kube sample_lib (''auth'', ''sso'') sample_bad_server)) =
   mem_live sample_bad_server"
proof -
  have get: "get_Authelia mem_kube (''auth'', ''sso'') sample_bad_server = (Inr sample_bad, sample_bad_server)"
    by (simp add: mem_run_simps sample_bad_server_def sample_server_def)
  have raw: "AdditionalConfig (Settings (a_Spec sample_bad)) = Some ''[1]''"
    by (simp add: sample_bad_def)
  have "json_Unmarshal ''[1]'' = None" by code_simp
  from bad_config_writes_nothing[OF mem.kube_fresh_axioms get prod.collapse[symmetric] raw _ this]
  show ?thesis by simp
qed

text \<open>C25: Collecting access rules never panics and never drops a rule: it returns what the list
  call returns on failure, and otherwise the rules of all listed Ingresses, most specific
  first, with exactly the domains of those rules; and for the same Ingresses listed in
  another order the result is the same.\<close>

theorem collected_rules_deterministic:
  assumes "list_Ingresses K w = (Inr ings, w')" and "list_Ingresses K v = (Inr ings', v')"
    and "mset ings = mset ings'" and "list_all plain_ingress ings"
    and "distinct (map (meta_key \<circ> ing_Meta) ings)"
  shows "collectIngressRules K w = (Inr (map ar_rule (allRules ings), concat (map ruleDomains (allRules ings))), w') \<and>
    fst (collectIngressRules K v) = fst (collectIngressRules K w) \<and>
    mset (allRules ings) = mset (concat (map rulesOf ings))"
  using assms(1,2) sorted_rules_perm[OF assms(3-5)] concat_map_mset_cong[OF assms(3), of rulesOf]
  by (simp add: collectIngressRules_eq allRules_def sortAccessRules_def)

theorem collected_rules_deterministic_witness:
  "fst (collectIngressRules mem_kube sample_server) =
   Inr (map ar_rule [sample_rule_1, sample_rule], concat (map ruleDomains [sample_rule_1, sample_rule]))"
proof -
  have l: "list_Ingresses mem_kube sample_server = (Inr [sample_ingress], sample_server)"
    by (simp add: mem_run_simps sample_server_def)
  have "list_all plain_ingress [sample_ingress]" by code_simp
  from collected_rules_deterministic[OF l l refl this] show ?thesis by (simp add: sample_rules)
qed

end
