(* ===== verification/EventRouting.thy ===== *)
theory EventRouting
  imports AutheliaController
begin

text \<open>
  Which events lead to which reconciles: the map functions and the two \<open>SetupWithManager\<close>
  methods.

  \<open>SetupWithManager\<close> hands a description of the watches to the builder of controller-runtime:
  the kind the controller is for, the kinds it owns, the kinds it watches through a map
  function. The two descriptions are \<open>autheliaSetup\<close> and \<open>oauthSetup\<close>. What the builder does
  with a description is not code of the repository: the locale \<open>event_source\<close> states its
  documented behaviour, and \<open>enqueue\<close> is an implementation it is interpreted on.
\<close>

section \<open>Map functions\<close>

text \<open>The objects a watch delivers.\<close>

datatype watched =
    WatchedAuthelia Authelia
  | WatchedDeployment DeploymentObj
  | WatchedService Service
  | WatchedConfigMap ConfigMap
  | WatchedSecret Secret
  | WatchedClient AutheliaOAuthClient
  | WatchedIngress Ingress

definition mapIngressToAuthelia :: "'w kube \<Rightarrow> watched \<Rightarrow> 'w \<Rightarrow> nsname list \<times> 'w" where
  "mapIngressToAuthelia K obj w =
     (case obj of
        WatchedIngress ing \<Rightarrow>
          (if \<not> hasRuleAnnotations ing then ([], w)
           else case list_Authelias K w of
                  (Inl e, w') \<Rightarrow> ([], w')
                | (Inr items, w') \<Rightarrow> (map (\<lambda>a. (authNamespace a, authName a)) items, w'))
      | _ \<Rightarrow> ([], w))"

definition mapClientToAuthelia :: "watched \<Rightarrow> nsname list" where
  "mapClientToAuthelia obj =
     (case obj of
        WatchedClient c \<Rightarrow>
          (let ns = (if aref_Namespace (AutheliaRef (c_Spec c)) = [] then Namespace (c_Meta c)
                     else aref_Namespace (AutheliaRef (c_Spec c)))
           in if aref_Name (AutheliaRef (c_Spec c)) = [] then []
              else [(ns, aref_Name (AutheliaRef (c_Spec c)))])
      | _ \<Rightarrow> [])"

section \<open>Watches\<close>

datatype kind = KAuthelia | KDeployment | KService | KConfigMap | KSecret | KOAuthClient | KIngress

datatype mapper = MapClientToAuthelia | MapIngressToAuthelia

record watches =
  su_Named :: string
  su_For :: kind
  su_Owns :: "kind list"
  su_Watches :: "(kind \<times> mapper) list"

definition autheliaSetup :: watches where
  "autheliaSetup =
     \<lparr>su_Named = ''authelia'', su_For = KAuthelia,
      su_Owns = [KDeployment, KService, KConfigMap, KSecret],
      su_Watches = [(KOAuthClient, MapClientToAuthelia), (KIngress, MapIngressToAuthelia)]\<rparr>"

definition oauthSetup :: watches where
  "oauthSetup =
     \<lparr>su_Named = ''autheliaoauthclient'', su_For = KOAuthClient, su_Owns = [KSecret], su_Watches = []\<rparr>"

fun kindOf :: "watched \<Rightarrow> kind" where
  "kindOf (WatchedAuthelia _) = KAuthelia"
| "kindOf (WatchedDeployment _) = KDeployment"
| "kindOf (WatchedService _) = KService"
| "kindOf (WatchedConfigMap _) = KConfigMap"
| "kindOf (WatchedSecret _) = KSecret"
| "kindOf (WatchedClient _) = KOAuthClient"
| "kindOf (WatchedIngress _) = KIngress"

fun metaOf :: "watched \<Rightarrow> ObjectMeta" where
  "metaOf (WatchedAuthelia x) = a_Meta x"
| "metaOf (WatchedDeployment x) = d_Meta x"
| "metaOf (WatchedService x) = svc_Meta x"
| "metaOf (WatchedConfigMap x) = cm_Meta x"
| "metaOf (WatchedSecret x) = s_Meta x"
| "metaOf (WatchedClient x) = c_Meta x"
| "metaOf (WatchedIngress x) = ing_Meta x"

text \<open>The kind name an owner reference carries.\<close>

fun kindName :: "kind \<Rightarrow> string" where
  "kindName KAuthelia = ''Authelia''"
| "kindName KDeployment = ''Deployment''"
| "kindName KService = ''Service''"
| "kindName KConfigMap = ''ConfigMap''"
| "kindName KSecret = ''Secret''"
| "kindName KOAuthClient = ''AutheliaOAuthClient''"
| "kindName KIngress = ''Ingress''"

definition runMapper :: "'w kube \<Rightarrow> mapper \<Rightarrow> watched \<Rightarrow> 'w \<Rightarrow> nsname list \<times> 'w" where
  "runMapper K m obj w =
     (case m of
        MapClientToAuthelia \<Rightarrow> (mapClientToAuthelia obj, w)
      | MapIngressToAuthelia \<Rightarrow> mapIngressToAuthelia K obj w)"

text \<open>
  The contract of the builder: an event for an object of the controller's own kind enqueues
  its key; for an owned kind the key of its controller, when that has the controller's
  kind; for a watched kind what the map function returns. Nothing else is enqueued.
\<close>

locale event_source =
  fixes deliver :: "'w kube \<Rightarrow> watches \<Rightarrow> watched \<Rightarrow> 'w \<Rightarrow> nsname list \<times> 'w"
  assumes for_kind: "kindOf obj = su_For su \<Longrightarrow> meta_key (metaOf obj) \<in> set (fst (deliver K su obj w))"
    and owned_kind: "kindOf obj \<in> set (su_Owns su) \<Longrightarrow> ControllerRef (metaOf obj) = Some ref \<Longrightarrow>
        or_Kind ref = kindName (su_For su) \<Longrightarrow>
        (Namespace (metaOf obj), or_Name ref) \<in> set (fst (deliver K su obj w))"
    and watched_kind: "(kindOf obj, m) \<in> set (su_Watches su) \<Longrightarrow>
        set (fst (runMapper K m obj w)) \<subseteq> set (fst (deliver K su obj w))"
    and only: "req \<in> set (fst (deliver K su obj w)) \<Longrightarrow>
        (kindOf obj = su_For su \<and> req = meta_key (metaOf obj)) \<or>
        (kindOf obj \<in> set (su_Owns su) \<and> (\<exists>ref. ControllerRef (metaOf obj) = Some ref \<and>
           or_Kind ref = kindName (su_For su) \<and> req = (Namespace (metaOf obj), or_Name ref))) \<or>
        (\<exists>m w'. (kindOf obj, m) \<in> set (su_Watches su) \<and> req \<in> set (fst (runMapper K m obj w')))"
begin

lemma client_event_enqueues:
  assumes "clientTargets c a" and "authName a \<noteq> []"
  shows "(authNamespace a, authName a) \<in> set (fst (deliver K autheliaSetup (WatchedClient c) w))"
proof -
  have "(authNamespace a, authName a) \<in> set (fst (runMapper K MapClientToAuthelia (WatchedClient c) w))"
    using assms by (auto simp: runMapper_def mapClientToAuthelia_def clientTargets_def Let_def split: if_splits)
  then show ?thesis
    using watched_kind[of "WatchedClient c" MapClientToAuthelia autheliaSetup K w]
    by (auto simp: autheliaSetup_def)
qed

lemma owned_event_enqueues:
  assumes "kindOf obj \<in> set (su_Owns autheliaSetup)"
    and "ControllerRef (metaOf obj) = Some (ownerRef ''Authelia'' (a_Meta a))"
    and "Namespace (metaOf obj) = authNamespace a"
  shows "(authNamespace a, authName a) \<in> set (fst (deliver K autheliaSetup obj w))"
  using owned_kind[OF assms(1,2), of K w] assms(3) by (simp add: ownerRef_def autheliaSetup_def)

lemma client_secret_not_routed:
  assumes "ControllerRef (s_Meta s) = Some (ownerRef ''AutheliaOAuthClient'' (c_Meta c))"
  shows "fst (deliver K autheliaSetup (WatchedSecret s) w) = []"
proof -
  have "req \<notin> set (fst (deliver K autheliaSetup (WatchedSecret s) w))" for req
    using only[of req K autheliaSetup "WatchedSecret s" w] assms
    by (auto simp: autheliaSetup_def ownerRef_def)
  then show ?thesis by (meson last_in_set)
qed

end

section \<open>An implementation of the contract\<close>

fun runMappers :: "'w kube \<Rightarrow> (kind \<times> mapper) list \<Rightarrow> watched \<Rightarrow> 'w \<Rightarrow> nsname list \<times> 'w" where
  "runMappers K [] obj w = ([], w)"
| "runMappers K ((k, m) # ms) obj w =
     (if k = kindOf obj
      then (let (reqs, w') = runMapper K m obj w; (rest, w'') = runMappers K ms obj w in (reqs @ rest, w''))
      else runMappers K ms obj w)"

definition enqueue :: "'w kube \<Rightarrow> watches \<Rightarrow> watched \<Rightarrow> 'w \<Rightarrow> nsname list \<times> 'w" where
  "enqueue K su obj w =
     (let own = (if kindOf obj = su_For su then [meta_key (metaOf obj)] else []);
          owner = (if kindOf obj \<in> set (su_Owns su) then
                     (case ControllerRef (metaOf obj) of
                        Some ref \<Rightarrow> if or_Kind ref = kindName (su_For su)
                                    then [(Namespace (metaOf obj), or_Name ref)] else []
                      | None \<Rightarrow> [])
                   else []);
          (mapped, w') = runMappers K (su_Watches su) obj w
      in (own @ owner @ mapped, w'))"

lemma set_runMappers:
  "set (fst (runMappers K ms obj w)) = (\<Union>m \<in> {m. (kindOf obj, m) \<in> set ms}. set (fst (runMapper K m obj w)))"
proof (induction ms)
  case (Cons km ms)
  obtain k m where km: "km = (k, m)" by (rule prod.exhaust)
  have "{m'. (kindOf obj, m') \<in> set (km # ms)} =
      (if k = kindOf obj then {m} else {}) \<union> {m'. (kindOf obj, m') \<in> set ms}" by (auto simp: km)
  with Cons km show ?case by (simp add: Let_def case_prod_unfold)
qed simp

lemma set_enqueue:
  "set (fst (enqueue K su obj w)) =
     (if kindOf obj = su_For su then {meta_key (metaOf obj)} else {}) \<union>
     (if kindOf obj \<in> set (su_Owns su) then
        {(Namespace (metaOf obj), or_Name ref) |ref. ControllerRef (metaOf obj) = Some ref \<and>
           or_Kind ref = kindName (su_For su)} else {}) \<union>
     set (fst (runMappers K (su_Watches su) obj w))"
  by (auto simp: enqueue_def Let_def split: prod.splits option.splits)

interpretation builder: event_source enqueue
proof
  show "req \<in> set (fst (enqueue K su obj w)) \<Longrightarrow>
        (kindOf obj = su_For su \<and> req = meta_key (metaOf obj)) \<or>
        (kindOf obj \<in> set (su_Owns su) \<and> (\<exists>ref. ControllerRef (metaOf obj) = Some ref \<and>
           or_Kind ref = kindName (su_For su) \<and> req = (Namespace (metaOf obj), or_Name ref))) \<or>
        (\<exists>m w'. (kindOf obj, m) \<in> set (su_Watches su) \<and> req \<in> set (fst (runMapper K m obj w')))"
    for req and K :: "'w kube" and su obj w
    unfolding set_enqueue set_runMappers by (force split: if_splits)
qed (auto simp: set_enqueue set_runMappers)

section \<open>Objects of an instance\<close>

text \<open>Every object of a kind is stored in the namespace of its key.\<close>

definition placed :: "('o \<Rightarrow> ObjectMeta) \<Rightarrow> (nsname \<Rightarrow> 'o option) \<Rightarrow> bool" where
  "placed meta store \<longleftrightarrow> (\<forall>k x. store k = Some x \<longrightarrow> Namespace (meta x) = fst k)"

definition all_placed :: "objects \<Rightarrow> bool" where
  "all_placed L \<longleftrightarrow> placed s_Meta (o_Secrets L) \<and> placed cm_Meta (o_ConfigMaps L) \<and>
     placed svc_Meta (o_Services L) \<and> placed d_Meta (o_Deployments L)"

lemma placed_cou:
  assumes "placed meta store" and "cou_result written store k obj f x" and "Namespace (meta obj) = fst k"
    and "\<And>cur m. mutated f cur m \<Longrightarrow> Namespace (meta m) = Namespace (meta cur)"
    and "\<And>m s. written m s \<Longrightarrow> Namespace (meta s) = Namespace (meta m)"
  shows "placed meta (store(k \<mapsto> x))"
proof -
  from assms(2) obtain m where m: "mutated f (current store k obj) m" "written m x" by (auto simp: cou_result_def)
  have "Namespace (meta (current store k obj)) = fst k"
    using assms(1,3) by (cases k) (auto simp: placed_def current_def split: option.splits)
  with assms(4)[OF m(1)] assms(5)[OF m(2)] assms(1) show ?thesis by (auto simp: placed_def)
qed

context kube_api
begin

lemma mutate_keeps_namespace:
  "mutated (coreMutate K rsa a) s s' \<Longrightarrow> Namespace (s_Meta s') = Namespace (s_Meta s)"
  "mutated (configMapMutate K a cmd) cm cm' \<Longrightarrow> Namespace (cm_Meta cm') = Namespace (cm_Meta cm)"
  "mutated (serviceMutate K a vd) v v' \<Longrightarrow> Namespace (svc_Meta v') = Namespace (svc_Meta v)"
  "mutated (deploymentMutate K a dd) d d' \<Longrightarrow> Namespace (d_Meta d') = Namespace (d_Meta d)"
  by (auto simp: mutated_def coreMutate_def configMapMutate_def serviceMutate_def deploymentMutate_def Let_def
      elim!: bindA_Inr dest!: setOwner_Inr set_owner_Inr split: if_splits)

lemma authelia_write_placed:
  assumes "authelia_write K lib a L L'" and "all_placed L"
  shows "all_placed L'"
  using assms(1)
proof cases
  case core
  then obtain x where x: "cou_result written_Secret (o_Secrets L) (coreSecretKey a) (newSecret (coreSecretName a) (authNamespace a))
      (coreMutate K (lib_rsa_GenerateKey lib) a) x" "L' = L\<lparr>o_Secrets := (o_Secrets L)(coreSecretKey a \<mapsto> x)\<rparr>"
    by (auto simp: wrote_Secret_def Let_def newSecret_def new_meta_def meta_key_def)
  have "placed s_Meta ((o_Secrets L)(coreSecretKey a \<mapsto> x))"
    by (rule placed_cou[OF _ x(1)])
      (use assms(2) in \<open>auto simp: all_placed_def newSecret_def new_meta_def written_Secret_def dest: mutate_keeps_namespace\<close>)
  with assms(2) x(2) show ?thesis by (simp add: all_placed_def)
next
  case (config rendered)
  then obtain x where x: "cou_result written_ConfigMap (o_ConfigMaps L) ((authNamespace a, configMapName a)) (newConfigMap a)
      (configMapMutate K a (buildConfigMap a rendered)) x" "L' = L\<lparr>o_ConfigMaps := (o_ConfigMaps L)((authNamespace a, configMapName a) \<mapsto> x)\<rparr>"
    by (auto simp: wrote_ConfigMap_def Let_def  new_meta_def meta_key_def)
  have "placed cm_Meta ((o_ConfigMaps L)((authNamespace a, configMapName a) \<mapsto> x))"
    by (rule placed_cou[OF _ x(1)])
      (use assms(2) in \<open>auto simp: all_placed_def  new_meta_def written_ConfigMap_def dest: mutate_keeps_namespace\<close>)
  with assms(2) x(2) show ?thesis by (simp add: all_placed_def)
next
  case service
  then obtain x where x: "cou_result written_Service (o_Services L) ((authNamespace a, authName a)) (newService (authName a) (authNamespace a))
      (serviceMutate K a (buildService a)) x" "L' = L\<lparr>o_Services := (o_Services L)((authNamespace a, authName a) \<mapsto> x)\<rparr>"
    by (auto simp: wrote_Service_def Let_def newService_def new_meta_def meta_key_def)
  have "placed svc_Meta ((o_Services L)((authNamespace a, authName a) \<mapsto> x))"
    by (rule placed_cou[OF _ x(1)])
      (use assms(2) in \<open>auto simp: all_placed_def newService_def new_meta_def written_Service_def dest: mutate_keeps_namespace\<close>)
  with assms(2) x(2) show ?thesis by (simp add: all_placed_def)
next
  case (deploy oidc checksum)
  then obtain x where x: "cou_result written_Deployment (o_Deployments L) ((authNamespace a, authName a)) (newDeployment (authName a) (authNamespace a))
      (deploymentMutate K a (buildDeployment a oidc checksum)) x" "L' = L\<lparr>o_Deployments := (o_Deployments L)((authNamespace a, authName a) \<mapsto> x)\<rparr>"
    by (auto simp: wrote_Deployment_def Let_def newDeployment_def new_meta_def meta_key_def)
  have "placed d_Meta ((o_Deployments L)((authNamespace a, authName a) \<mapsto> x))"
    by (rule placed_cou[OF _ x(1)])
      (use assms(2) in \<open>auto simp: all_placed_def newDeployment_def new_meta_def written_Deployment_def dest: mutate_keeps_namespace\<close>)
  with assms(2) x(2) show ?thesis by (simp add: all_placed_def)
qed (use assms(2) in \<open>auto simp: all_placed_def wrote_defs Let_def\<close>)

end

text \<open>The objects a reconcile keeps for a resource, as a watch would deliver them; the claim is not among
  them, it has no owner so that it outlives the resource.\<close>

definition kept_objects :: "Authelia \<Rightarrow> objects \<Rightarrow> watched option list" where
  "kept_objects a L =
     [map_option WatchedConfigMap (o_ConfigMaps L (authNamespace a, configMapName a)),
      map_option WatchedService (o_Services L (authNamespace a, authName a)),
      map_option WatchedDeployment (o_Deployments L (authNamespace a, authName a))] @
     (if ExistingSecret (Deployment (a_Spec a)) = []
      then [map_option WatchedSecret (o_Secrets L (coreSecretKey a))] else [])"

section \<open>Properties\<close>

text \<open>C26: Routing of client events agrees with \<open>collectClients\<close>: an event for an OAuth client
  enqueues an Authelia resource exactly when that resource would collect the client.\<close>

theorem client_routing_agrees:
  assumes "authName a \<noteq> []"
  shows "meta_key (a_Meta a) \<in> set (mapClientToAuthelia (WatchedClient c)) \<longleftrightarrow> clientTargets c a"
  using assms by (auto simp: mapClientToAuthelia_def clientTargets_def meta_key_def Let_def)

theorem client_routing_agrees_witness:
  "(''auth'', ''sso'') \<in> set (mapClientToAuthelia (WatchedClient sample_oauth))"
proof -
  have "authName sample_authelia \<noteq> []" by (simp add: sample_authelia_def)
  from client_routing_agrees[OF this, of sample_oauth] show ?thesis
    by (simp add: sample_key clientTargets_def) (simp add: sample_authelia_def sample_oauth_def sample_spec_def)
qed

text \<open>C27: Access rules stay current: when an Ingress that yields rules changes and the list call
  succeeds, every Authelia resource of the cluster is enqueued, for every builder that keeps
  its contract. Skipping an Ingress without rule annotations loses nothing, since it yields
  no rules.\<close>

theorem ingress_events_reach_all:
  assumes "event_source deliver" and "kube_fresh K live"
    and "list_Authelias K w = (Inr items, w')" and "rulesOf ing \<noteq> []"
    and "a \<in> ran (o_Authelias (live w))"
  shows "meta_key (a_Meta a) \<in> set (fst (deliver K autheliaSetup (WatchedIngress ing) w))"
proof -
  from assms(4) obtain r where "r \<in> set (rulesOf ing)" by (cases "rulesOf ing") auto
  then have "hasRuleAnnotations ing"
    by (auto simp: set_rulesOf set_ruleKeys hasRuleAnnotations_def list_ex_iff)
  moreover have "set items = ran (o_Authelias (live w))"
    by (rule kube_fresh.list_Authelias_current[OF assms(2,3)])
  ultimately have "meta_key (a_Meta a) \<in> set (fst (runMapper K MapIngressToAuthelia (WatchedIngress ing) w))"
    using assms(3,5) by (auto simp: runMapper_def mapIngressToAuthelia_def meta_key_def)
  then show ?thesis
    using event_source.watched_kind[OF assms(1), of "WatchedIngress ing" MapIngressToAuthelia autheliaSetup K w]
    by (auto simp: autheliaSetup_def)
qed

theorem ingress_events_reach_all_witness:
  "(''auth'', ''sso'') \<in> set (fst (enqueue mem_kube autheliaSetup (WatchedIngress sample_ingress) sample_server))"
proof -
  have l: "list_Authelias mem_kube sample_server = (Inr [sample_authelia], sample_server)"
    by (simp add: mem_run_simps sample_server_def)
  have r: "rulesOf sample_ingress \<noteq> []" by code_simp
  have a: "sample_authelia \<in> ran (o_Authelias (mem_live sample_server))"
    by (simp add: mem_live_def sample_server_def ran_def)
  from ingress_events_reach_all[OF builder.event_source_axioms mem.kube_fresh_axioms l r a]
  show ?thesis by (simp only: sample_key)
qed

text \<open>C28: The instance heals itself: after a successful reconcile the ConfigMap, the Service, the Deployment
  and the core Secret (unless the user supplies one) exist, and a later event for any of them,
  such as its deletion or an edit by hand, enqueues the Authelia resource. This needs both that
  the reconciler sets itself as controller of each and that the controller owns each kind.\<close>

theorem stored_objects_are_watched:
  assumes "event_source deliver" and "kube_fresh K live" and "all_placed (live w)"
    and "get_Authelia K req w = (Inr a, w0)" and "meta_key (a_Meta a) = req"
    and "ReconcileAuthelia K lib req w = (Inr res, w')"
  shows "\<forall>x \<in> set (kept_objects a (live w')). \<exists>obj. x = Some obj \<and>
    req \<in> set (fst (deliver K autheliaSetup obj v))"
proof -
  note api = kube_fresh.axioms(1)[OF assms(2)]
  have "all_placed (live w')"
    using kube_api.ReconcileAuthelia_steps[OF api assms(6,4)] assms(3)
    by (rule rtranclp_keeps) (auto simp: quiet_def dest: kube_api.authelia_write_placed[OF api])
  moreover obtain oidc rendered where "core_stored a (live w')" "config_stored a rendered (live w')"
      "service_stored a (live w')" "deployment_stored a oidc rendered (live w')"
    using kube_fresh.authelia_established[OF assms(2,4,5,6)] by (auto simp: Let_def)
  moreover have "req \<in> set (fst (deliver K autheliaSetup obj v))"
    if "kindOf obj \<in> {KConfigMap, KService, KDeployment, KSecret}"
      "ControllerRef (metaOf obj) = Some (ownerRef ''Authelia'' (a_Meta a))"
      "Namespace (metaOf obj) = authNamespace a" for obj
    using event_source.owned_event_enqueues[OF assms(1) _ that(2,3)] that(1) assms(5)
    by (auto simp: autheliaSetup_def meta_key_def)
  ultimately show ?thesis
    by (fastforce simp: kept_objects_def all_placed_def placed_def core_stored_def config_stored_def service_stored_def
        deployment_stored_def)
qed

theorem stored_objects_are_watched_witness:
  "\<exists>w' cm. ReconcileAuthelia mem_kube sample_lib (''auth'', ''sso'') sample_server =
       (Inr \<lparr>RequeueAfter = 10 * second\<rparr>, w') \<and>
     o_ConfigMaps (mem_live w') (''auth'', configMapName sample_authelia) = Some cm \<and>
     (''auth'', ''sso'') \<in> set (fst (enqueue mem_kube autheliaSetup (WatchedConfigMap cm) w'))"
proof -
  obtain w' where run: "ReconcileAuthelia mem_kube sample_lib (''auth'', ''sso'') sample_server =
      (Inr \<lparr>RequeueAfter = 10 * second\<rparr>, w')"
    using sample_run by auto
  have "all_placed (mem_live sample_server)"
    by (auto simp: all_placed_def placed_def mem_live_def sample_server_def empty_server_def new_meta_def
        newSecret_def split: if_splits)
  from stored_objects_are_watched[OF builder.event_source_axioms mem.kube_fresh_axioms this sample_get sample_key run,
      of w'] run
  show ?thesis by (auto simp: kept_objects_def sample_authelia_def)
qed

text \<open>C29: An event for the generated Secret of an OAuth client enqueues no Authelia resource:
  the Secret is owned by the client, not by the instance. A digest that changes without a
  change of the client resource (the Secret was deleted and generated anew) is therefore
  not rendered until something else triggers a reconcile.\<close>

theorem client_secret_event_not_routed:
  assumes "event_source deliver"
    and "ControllerRef (s_Meta s) = Some (ownerRef ''AutheliaOAuthClient'' (c_Meta c))"
  shows "fst (deliver K autheliaSetup (WatchedSecret s) w) = []"
  by (rule event_source.client_secret_not_routed[OF assms])

theorem client_secret_event_not_routed_witness:
  "fst (enqueue mem_kube autheliaSetup (WatchedSecret
     (sample_oauth_secret\<lparr>s_Meta := (new_meta ''grafana-oauth-secret'' ''web'')\<lparr>ControllerRef :=
        Some (ownerRef ''AutheliaOAuthClient'' (c_Meta sample_oauth))\<rparr>\<rparr>)) sample_server) = []"
  by (rule client_secret_event_not_routed[OF builder.event_source_axioms, of _ sample_oauth]) simp

end
