(* ===== verification/EntryPoint.thy ===== *)
theory EntryPoint
  imports EventRouting
begin

text \<open>
  The process: \<open>cmd/main.go\<close> with the scheme it registers (\<open>api/v1alpha1/groupversion_info.go\<close>).

  \<open>parseFlags\<close> is \<open>flag.Parse\<close> of Go's standard library on a set of flags; \<open>ownFlags\<close> are the
  flags \<open>main\<close> defines, and the flags the logging library binds to the same set are an
  argument. \<open>managerOptions\<close> is everything \<open>main\<close> computes from the flags. The manager of
  controller-runtime is a record of calls over an abstract world, like the client of the
  controllers; \<open>main\<close> returns the exit status of the process. The texts that are logged are
  left out.

  \<open>logged\<close> is an implementation of the calls that records them and fails when it is told to.
\<close>

section \<open>Package flag\<close>

record 'o flag =
  fl_bool :: bool
  fl_set :: "string \<Rightarrow> 'o \<Rightarrow> 'o option"

type_synonym 'o flagset = "string \<Rightarrow> 'o flag option"

definition ParseBool :: "string \<Rightarrow> bool option" where
  "ParseBool s =
     (if s \<in> {''1'', ''t'', ''T'', ''TRUE'', ''true'', ''True''} then Some True
      else if s \<in> {''0'', ''f'', ''F'', ''FALSE'', ''false'', ''False''} then Some False
      else None)"

definition StringVar :: "(string \<Rightarrow> 'o \<Rightarrow> 'o) \<Rightarrow> 'o flag" where
  "StringVar upd = \<lparr>fl_bool = False, fl_set = (\<lambda>s o'. Some (upd s o'))\<rparr>"

definition BoolVar :: "(bool \<Rightarrow> 'o \<Rightarrow> 'o) \<Rightarrow> 'o flag" where
  "BoolVar upd = \<lparr>fl_bool = True, fl_set = (\<lambda>s o'. map_option (\<lambda>b. upd b o') (ParseBool s))\<rparr>"

datatype 'o parsed = Parsed 'o "string list" | FlagHelp | FlagError

text \<open>The name of a flag argument and its value: the text after the first \<open>=\<close> that is not in front.\<close>

definition splitFlag :: "string \<Rightarrow> string \<times> string option" where
  "splitFlag name =
     (case IndexByte (tl name) (CHR ''='') of
        None \<Rightarrow> (name, None)
      | Some i \<Rightarrow> (take (Suc i) name, Some (drop (i + 2) name)))"

definition flagName :: "string \<Rightarrow> string" where
  "flagName s = (if s ! 1 = CHR ''-'' then drop 2 s else drop 1 s)"

fun parseFlags :: "'o flagset \<Rightarrow> string list \<Rightarrow> 'o \<Rightarrow> 'o parsed" where
  "parseFlags F [] o' = Parsed o' []"
| "parseFlags F (s # args) o' =
     (if length s < 2 \<or> hd s \<noteq> CHR ''-'' then Parsed o' (s # args)
      else if s = ''--'' then Parsed o' args
      else if flagName s = [] \<or> hd (flagName s) = CHR ''-'' \<or> hd (flagName s) = CHR ''='' then FlagError
      else case splitFlag (flagName s) of (n, v) \<Rightarrow>
        (case F n of
           None \<Rightarrow> (if n = ''help'' \<or> n = ''h'' then FlagHelp else FlagError)
         | Some f \<Rightarrow>
             (if fl_bool f then
                (case fl_set f (case v of None \<Rightarrow> ''true'' | Some x \<Rightarrow> x) o' of
                   None \<Rightarrow> FlagError
                 | Some o'' \<Rightarrow> parseFlags F args o'')
              else
                (case v of
                   Some x \<Rightarrow>
                     (case fl_set f x o' of None \<Rightarrow> FlagError | Some o'' \<Rightarrow> parseFlags F args o'')
                 | None \<Rightarrow>
                     (case args of
                        [] \<Rightarrow> FlagError
                      | x # rest \<Rightarrow>
                          (case fl_set f x o' of
                             None \<Rightarrow> FlagError
                           | Some o'' \<Rightarrow> parseFlags F rest o''))))))"

section \<open>Scheme\<close>

record GroupVersion =
  gv_Group :: string
  gv_Version :: string

definition SchemeGroupVersion :: GroupVersion where
  "SchemeGroupVersion = \<lparr>gv_Group = ''authelia.snosr.se'', gv_Version = ''v1alpha1''\<rparr>"

definition SchemeBuilder_Register :: "string list \<Rightarrow> string list \<Rightarrow> string list" where
  "SchemeBuilder_Register types builder = builder @ types"

definition init_authelia_types :: "string list \<Rightarrow> string list" where
  "init_authelia_types builder = SchemeBuilder_Register [''Authelia'', ''AutheliaList''] builder"

definition init_autheliaoauthclient_types :: "string list \<Rightarrow> string list" where
  "init_autheliaoauthclient_types builder =
     SchemeBuilder_Register [''AutheliaOAuthClient'', ''AutheliaOAuthClientList''] builder"

text \<open>The builder after the \<open>init\<close> functions of the package, which run in the order of the file names.\<close>

definition registeredTypes :: "string list" where
  "registeredTypes = init_autheliaoauthclient_types (init_authelia_types [])"

record 'sch scheme_api =
  NewScheme :: 'sch
  clientgo_AddToScheme :: "'sch \<Rightarrow> 'sch result"
  AddKnownTypes :: "GroupVersion \<Rightarrow> string list \<Rightarrow> 'sch \<Rightarrow> 'sch result"

definition init_scheme :: "'sch scheme_api \<Rightarrow> 'sch result" where
  "init_scheme api =
     bindR (clientgo_AddToScheme api (NewScheme api)) (AddKnownTypes api SchemeGroupVersion registeredTypes)"

section \<open>Options\<close>

text \<open>The variables of \<open>main\<close>; \<open>o_zap\<close> is what the logging library keeps for its own flags.\<close>

record 'z options =
  o_metricsAddr :: string
  o_metricsCertPath :: string
  o_metricsCertName :: string
  o_metricsCertKey :: string
  o_webhookCertPath :: string
  o_webhookCertName :: string
  o_webhookCertKey :: string
  o_enableLeaderElection :: bool
  o_probeAddr :: string
  o_secureMetrics :: bool
  o_enableHTTP2 :: bool
  o_zap :: 'z

definition defaultOptions :: "'z \<Rightarrow> 'z options" where
  "defaultOptions z =
     \<lparr>o_metricsAddr = ''0'', o_metricsCertPath = [], o_metricsCertName = ''tls.crt'',
      o_metricsCertKey = ''tls.key'', o_webhookCertPath = [], o_webhookCertName = ''tls.crt'',
      o_webhookCertKey = ''tls.key'', o_enableLeaderElection = False, o_probeAddr = '':8081'',
      o_secureMetrics = True, o_enableHTTP2 = False, o_zap = z\<rparr>"

definition ownFlags :: "(string \<times> 'z options flag) list" where
  "ownFlags =
     [(''metrics-bind-address'', StringVar (\<lambda>s o'. o'\<lparr>o_metricsAddr := s\<rparr>)),
      (''health-probe-bind-address'', StringVar (\<lambda>s o'. o'\<lparr>o_probeAddr := s\<rparr>)),
      (''leader-elect'', BoolVar (\<lambda>b o'. o'\<lparr>o_enableLeaderElection := b\<rparr>)),
      (''metrics-secure'', BoolVar (\<lambda>b o'. o'\<lparr>o_secureMetrics := b\<rparr>)),
      (''webhook-cert-path'', StringVar (\<lambda>s o'. o'\<lparr>o_webhookCertPath := s\<rparr>)),
      (''webhook-cert-name'', StringVar (\<lambda>s o'. o'\<lparr>o_webhookCertName := s\<rparr>)),
      (''webhook-cert-key'', StringVar (\<lambda>s o'. o'\<lparr>o_webhookCertKey := s\<rparr>)),
      (''metrics-cert-path'', StringVar (\<lambda>s o'. o'\<lparr>o_metricsCertPath := s\<rparr>)),
      (''metrics-cert-name'', StringVar (\<lambda>s o'. o'\<lparr>o_metricsCertName := s\<rparr>)),
      (''metrics-cert-key'', StringVar (\<lambda>s o'. o'\<lparr>o_metricsCertKey := s\<rparr>)),
      (''enable-http2'', BoolVar (\<lambda>b o'. o'\<lparr>o_enableHTTP2 := b\<rparr>))]"

text \<open>
  The flags that linked libraries add to \<open>flag.CommandLine\<close>, which act on their own state: those of
  the logging library, bound by \<open>opts.BindFlags(flag.CommandLine)\<close>, and \<open>kubeconfig\<close>, which
  controller-runtime registers when its package is initialised. The parameter \<open>zap\<close> is all of them.
\<close>

definition zapFlag :: "'z flag \<Rightarrow> 'z options flag" where
  "zapFlag f = \<lparr>fl_bool = fl_bool f,
     fl_set = (\<lambda>s o'. map_option (\<lambda>z. o'\<lparr>o_zap := z\<rparr>) (fl_set f s (o_zap o')))\<rparr>"

definition commandLine :: "'z flagset \<Rightarrow> 'z options flagset" where
  "commandLine zap n =
     (case map_of ownFlags n of Some f \<Rightarrow> Some f | None \<Rightarrow> map_option zapFlag (zap n))"

text \<open>TLS configuration, with the field the program sets.\<close>

record tlsConfig =
  NextProtos :: "string list"

definition disableHTTP2 :: "tlsConfig \<Rightarrow> tlsConfig" where
  "disableHTTP2 c = c\<lparr>NextProtos := [''http/1.1'']\<rparr>"

definition tlsOptions :: "'z options \<Rightarrow> (tlsConfig \<Rightarrow> tlsConfig) list" where
  "tlsOptions o' = (if \<not> o_enableHTTP2 o' then [] @ [disableHTTP2] else [])"

record webhookOptions =
  wh_TLSOpts :: "(tlsConfig \<Rightarrow> tlsConfig) list"
  wh_CertDir :: string
  wh_CertName :: string
  wh_KeyName :: string

definition webhookServerOptions :: "'z options \<Rightarrow> webhookOptions" where
  "webhookServerOptions o' =
     (let w = \<lparr>wh_TLSOpts = tlsOptions o', wh_CertDir = [], wh_CertName = [], wh_KeyName = []\<rparr> in
      if length (o_webhookCertPath o') > 0
      then w\<lparr>wh_CertDir := o_webhookCertPath o', wh_CertName := o_webhookCertName o',
             wh_KeyName := o_webhookCertKey o'\<rparr>
      else w)"

datatype filterProvider = WithAuthenticationAndAuthorization

record metricsOptions =
  ms_BindAddress :: string
  ms_SecureServing :: bool
  ms_TLSOpts :: "(tlsConfig \<Rightarrow> tlsConfig) list"
  ms_FilterProvider :: "filterProvider option"
  ms_CertDir :: string
  ms_CertName :: string
  ms_KeyName :: string

definition metricsServerOptions :: "'z options \<Rightarrow> metricsOptions" where
  "metricsServerOptions o' =
     (let m0 = \<lparr>ms_BindAddress = o_metricsAddr o', ms_SecureServing = o_secureMetrics o',
                ms_TLSOpts = tlsOptions o', ms_FilterProvider = None,
                ms_CertDir = [], ms_CertName = [], ms_KeyName = []\<rparr>;
          m1 = (if o_secureMetrics o'
                then m0\<lparr>ms_FilterProvider := Some WithAuthenticationAndAuthorization\<rparr> else m0) in
      if length (o_metricsCertPath o') > 0
      then m1\<lparr>ms_CertDir := o_metricsCertPath o', ms_CertName := o_metricsCertName o',
              ms_KeyName := o_metricsCertKey o'\<rparr>
      else m1)"

record 'sch managerOpts =
  mo_Scheme :: 'sch
  mo_Metrics :: metricsOptions
  mo_WebhookServer :: webhookOptions
  mo_HealthProbeBindAddress :: string
  mo_LeaderElection :: bool
  mo_LeaderElectionID :: string

definition managerOptions :: "'sch \<Rightarrow> 'z options \<Rightarrow> 'sch managerOpts" where
  "managerOptions scheme o' =
     \<lparr>mo_Scheme = scheme, mo_Metrics = metricsServerOptions o',
      mo_WebhookServer = webhookServerOptions o', mo_HealthProbeBindAddress = o_probeAddr o',
      mo_LeaderElection = o_enableLeaderElection o', mo_LeaderElectionID = ''4d05d2cf.snosr.se''\<rparr>"

section \<open>The program\<close>

text \<open>
  The calls to controller-runtime. \<open>GetConfigOrDie\<close> ends the process with status 1 where the
  model returns an error.
\<close>

record ('w, 'sch) manager_api =
  GetConfigOrDie :: "('w, unit) act"
  NewManager :: "'sch managerOpts \<Rightarrow> ('w, unit) act"
  CompleteController :: "watches \<Rightarrow> ('w, unit) act"
  AddHealthzCheck :: "string \<Rightarrow> ('w, unit) act"
  AddReadyzCheck :: "string \<Rightarrow> ('w, unit) act"
  StartManager :: "('w, unit) act"

definition runManager :: "('w, 'sch) manager_api \<Rightarrow> 'sch managerOpts \<Rightarrow> ('w, unit) act" where
  "runManager api opts =
     bindA (GetConfigOrDie api) (\<lambda>_.
     bindA (NewManager api opts) (\<lambda>_.
     bindA (CompleteController api autheliaSetup) (\<lambda>_.
     bindA (CompleteController api oauthSetup) (\<lambda>_.
     bindA (AddHealthzCheck api ''healthz'') (\<lambda>_.
     bindA (AddReadyzCheck api ''readyz'') (\<lambda>_.
     StartManager api))))))"

text \<open>The process: a panic of an \<open>init\<close> function ends it with status 2, before \<open>main\<close>.\<close>

definition main :: "'sch scheme_api \<Rightarrow> ('w, 'sch) manager_api \<Rightarrow> 'z flagset \<Rightarrow> 'z \<Rightarrow> string list \<Rightarrow>
    'w \<Rightarrow> nat \<times> 'w" where
  "main sapi api zap z args w =
     (case init_scheme sapi of
        Inl e \<Rightarrow> (2, w)
      | Inr scheme \<Rightarrow>
          (case parseFlags (commandLine zap) args (defaultOptions z) of
             FlagHelp \<Rightarrow> (0, w)
           | FlagError \<Rightarrow> (2, w)
           | Parsed o' rest \<Rightarrow>
               (case runManager api (managerOptions scheme o') w of
                  (Inl e, w') \<Rightarrow> (1, w')
                | (Inr _, w') \<Rightarrow> (0, w'))))"

section \<open>Flags that are not given\<close>

text \<open>An argument that mentions a flag, with or without a value.\<close>

definition mentions :: "string \<Rightarrow> string \<Rightarrow> bool" where
  "mentions n s \<longleftrightarrow> 2 \<le> length s \<and> hd s = CHR ''-'' \<and> fst (splitFlag (flagName s)) = n"

lemma parseFlags_step:
  assumes "parseFlags F (s # args) o1 = Parsed o2 rest"
  obtains (stop) "o2 = o1"
    | (flag) n f x o' args' where "n = fst (splitFlag (flagName s))" "2 \<le> length s" "hd s = CHR ''-''"
      "F n = Some f" "fl_set f x o1 = Some o'" "suffix args' args"
      "parseFlags F args' o' = Parsed o2 rest"
proof (cases "length s < 2 \<or> hd s \<noteq> CHR ''-'' \<or> s = ''--''")
  case True
  with assms stop show thesis by (auto split: if_splits)
next
  case False
  obtain n v where nv: "splitFlag (flagName s) = (n, v)" by (cases "splitFlag (flagName s)")
  from assms False nv obtain f where f: "F n = Some f" by (auto split: if_splits option.splits)
  have "\<exists>x o' args'. fl_set f x o1 = Some o' \<and> suffix args' args \<and>
      parseFlags F args' o' = Parsed o2 rest"
  proof (cases "fl_bool f")
    case True
    with assms False nv f have "\<exists>o'. fl_set f (case v of None \<Rightarrow> ''true'' | Some x \<Rightarrow> x) o1 = Some o' \<and>
        parseFlags F args o' = Parsed o2 rest"
      by (auto split: if_splits option.splits)
    then show ?thesis by blast
  next
    case nb: False
    show ?thesis
    proof (cases v)
      case (Some x)
      with assms False nv f nb have "\<exists>o'. fl_set f x o1 = Some o' \<and> parseFlags F args o' = Parsed o2 rest"
        by (auto split: if_splits option.splits)
      then show ?thesis by blast
    next
      case None
      with assms False nv f nb obtain x args' where args: "args = x # args'"
        by (auto split: if_splits option.splits list.splits)
      with assms False nv f nb None have "\<exists>o'. fl_set f x o1 = Some o' \<and>
          parseFlags F args' o' = Parsed o2 rest"
        by (auto split: if_splits option.splits)
      moreover have "suffix args' args" by (simp add: args suffix_Cons)
      ultimately show ?thesis by blast
    qed
  qed
  with False nv f flag show thesis by (metis fst_conv not_less)
qed

lemma parseFlags_keeps:
  assumes keeps: "\<And>m f s a b. F m = Some f \<Longrightarrow> m \<noteq> n \<Longrightarrow> fl_set f s a = Some b \<Longrightarrow> sel b = sel a"
  shows "parseFlags F args o1 = Parsed o2 rest \<Longrightarrow> \<forall>s \<in> set args. \<not> mentions n s \<Longrightarrow> sel o2 = sel o1"
proof (induction "length args" arbitrary: args o1 rule: less_induct)
  case less
  show ?case
  proof (cases args)
    case (Cons s args')
    from less.prems(1)[unfolded Cons] show ?thesis
    proof (cases rule: parseFlags_step)
      case (flag m f x o' args'')
      have "length args'' < length args" using suffix_length_le[OF flag(6)] Cons by simp
      moreover have "\<forall>s \<in> set args''. \<not> mentions n s"
        using less.prems(2) set_mono_suffix[OF flag(6)] Cons by auto
      ultimately have "sel o2 = sel o'" using flag(7) by (intro less.hyps)
      moreover have "m \<noteq> n" using less.prems(2) Cons flag(1-3) by (auto simp: mentions_def)
      with keeps flag(4,5) have "sel o' = sel o1" by blast
      ultimately show ?thesis by simp
    qed simp
  qed (use less.prems(1) in simp)
qed

lemma commandLine_cases:
  assumes "commandLine zap m = Some f" and "fl_set f s a = Some b"
  obtains (own) g where "map_of ownFlags m = Some g" "fl_set g s a = Some b"
    | (zap) z where "b = a\<lparr>o_zap := z\<rparr>"
  using assms by (auto simp: commandLine_def zapFlag_def split: option.splits)

lemma own_keeps_http2:
  "map_of ownFlags m = Some f \<Longrightarrow> m \<noteq> ''enable-http2'' \<Longrightarrow> fl_set f s a = Some b \<Longrightarrow>
    o_enableHTTP2 b = o_enableHTTP2 a"
  by (auto simp: ownFlags_def StringVar_def BoolVar_def split: if_splits)

lemma own_keeps_secure:
  "map_of ownFlags m = Some f \<Longrightarrow> m \<noteq> ''metrics-secure'' \<Longrightarrow> fl_set f s a = Some b \<Longrightarrow>
    o_secureMetrics b = o_secureMetrics a"
  by (auto simp: ownFlags_def StringVar_def BoolVar_def split: if_splits)

lemma parsed_http2:
  assumes "parseFlags (commandLine zap) args (defaultOptions z) = Parsed o' rest"
    and "\<forall>s \<in> set args. \<not> mentions ''enable-http2'' s"
  shows "\<not> o_enableHTTP2 o'"
proof -
  have "o_enableHTTP2 o' = o_enableHTTP2 (defaultOptions z)"
    by (rule parseFlags_keeps[OF _ assms]) (auto elim: commandLine_cases dest: own_keeps_http2)
  then show ?thesis by (simp add: defaultOptions_def)
qed

lemma parsed_secure:
  assumes "parseFlags (commandLine zap) args (defaultOptions z) = Parsed o' rest"
    and "\<forall>s \<in> set args. \<not> mentions ''metrics-secure'' s"
  shows "o_secureMetrics o'"
proof -
  have "o_secureMetrics o' = o_secureMetrics (defaultOptions z)"
    by (rule parseFlags_keeps[OF _ assms]) (auto elim: commandLine_cases dest: own_keeps_secure)
  then show ?thesis by (simp add: defaultOptions_def)
qed

section \<open>Calls that are recorded\<close>

datatype 'sch call = CallConfig | CallNewManager "'sch managerOpts" | CallComplete watches
  | CallHealthz string | CallReadyz string | CallStart

text \<open>The calls made, and for each call to come whether it fails.\<close>

record 'sch callog =
  cl_calls :: "'sch call list"
  cl_faults :: "string option list"

definition logCall :: "'sch call \<Rightarrow> ('sch callog, unit) act" where
  "logCall c w =
     (case cl_faults w of
        [] \<Rightarrow> (Inr (), w\<lparr>cl_calls := cl_calls w @ [c]\<rparr>)
      | f # fs \<Rightarrow>
          (case f of None \<Rightarrow> Inr () | Some e \<Rightarrow> Inl (ApiOther e),
           w\<lparr>cl_calls := cl_calls w @ [c], cl_faults := fs\<rparr>))"

definition logged :: "('sch callog, 'sch) manager_api" where
  "logged =
     \<lparr>GetConfigOrDie = logCall CallConfig, NewManager = (\<lambda>opts. logCall (CallNewManager opts)),
      CompleteController = (\<lambda>s. logCall (CallComplete s)), AddHealthzCheck = (\<lambda>n. logCall (CallHealthz n)),
      AddReadyzCheck = (\<lambda>n. logCall (CallReadyz n)), StartManager = logCall CallStart\<rparr>"

definition startup_calls :: "'sch managerOpts \<Rightarrow> 'sch call list" where
  "startup_calls opts =
     [CallConfig, CallNewManager opts, CallComplete autheliaSetup, CallComplete oauthSetup,
      CallHealthz ''healthz'', CallReadyz ''readyz'', CallStart]"

fun logAll :: "'sch call list \<Rightarrow> ('sch callog, unit) act" where
  "logAll [] = returnA ()"
| "logAll (c # cs) = bindA (logCall c) (\<lambda>_. logAll cs)"

lemma bindA_returnA: "bindA m returnA = m"
  by (rule ext) (auto simp: bindA_def returnA_def split: prod.splits sum.splits)

lemma runManager_logged: "runManager logged opts = logAll (startup_calls opts)"
  by (simp add: runManager_def logged_def startup_calls_def bindA_returnA)

text \<open>How many calls succeed under a list of faults.\<close>

definition successes :: "string option list \<Rightarrow> nat" where
  "successes fs = length (takeWhile (\<lambda>f. f = None) fs)"

lemma logAll_run:
  "fst (logAll cs w) = Inr () \<longleftrightarrow> list_all (\<lambda>f. f = None) (take (length cs) (cl_faults w))"
  "cl_calls (snd (logAll cs w)) = cl_calls w @
     (if list_all (\<lambda>f. f = None) (take (length cs) (cl_faults w)) then cs
      else take (Suc (successes (cl_faults w))) cs)"
proof (induction cs arbitrary: w)
  case (Cons c cs)
  { case 1
    from Cons.IH show ?case
      by (auto simp: bindA_run logCall_def split: list.splits option.splits) }
  { case 2
    from Cons.IH show ?case
      by (auto simp: bindA_run logCall_def successes_def split: list.splits option.splits) }
qed simp_all

section \<open>Properties\<close>

text \<open>A logging library with one flag, and a scheme that is the list of its types.\<close>

definition sample_zap :: "bool flagset" where
  "sample_zap n = (if n = ''zap-devel'' then Some (BoolVar (\<lambda>b z. b)) else None)"

definition sample_scheme_api :: "string list scheme_api" where
  "sample_scheme_api = \<lparr>NewScheme = [], clientgo_AddToScheme = (\<lambda>s. Inr (s @ [''Secret''])),
     AddKnownTypes = (\<lambda>gv ts s. Inr (s @ ts))\<rparr>"

definition sample_args :: "string list" where
  "sample_args = [''--leader-elect'', ''-zap-devel=false'', ''--metrics-bind-address'', '':8443'']"

definition sample_options :: "bool options" where
  "sample_options = (defaultOptions True)\<lparr>o_enableLeaderElection := True, o_zap := False,
     o_metricsAddr := '':8443''\<rparr>"

lemma sample_parsed:
  "parseFlags (commandLine sample_zap) sample_args (defaultOptions True) = Parsed sample_options []"
  by code_simp

text \<open>C31: HTTP/2 is off unless a flag asks for it: when no argument mentions \<open>enable-http2\<close>, the TLS
  options of the metrics server and of the webhook server, applied in order to any
  configuration, leave \<open>http/1.1\<close> as the only protocol.\<close>

theorem http2_off_by_default:
  assumes "parseFlags (commandLine zap) args (defaultOptions z) = Parsed o' rest"
    and "\<forall>s \<in> set args. \<not> mentions ''enable-http2'' s"
  shows "NextProtos (fold (\<lambda>f. f) (ms_TLSOpts (mo_Metrics (managerOptions scheme o'))) c) = [''http/1.1''] \<and>
    NextProtos (fold (\<lambda>f. f) (wh_TLSOpts (mo_WebhookServer (managerOptions scheme o'))) c) = [''http/1.1'']"
  using parsed_http2[OF assms]
  by (simp add: managerOptions_def metricsServerOptions_def webhookServerOptions_def tlsOptions_def
      disableHTTP2_def Let_def)

theorem http2_off_by_default_witness:
  "NextProtos (fold (\<lambda>f. f) (ms_TLSOpts (mo_Metrics (managerOptions () sample_options)))
     \<lparr>NextProtos = [''h2'', ''http/1.1'']\<rparr>) = [''http/1.1''] \<and>
   NextProtos (fold (\<lambda>f. f) (wh_TLSOpts (mo_WebhookServer (managerOptions () sample_options)))
     \<lparr>NextProtos = [''h2'', ''http/1.1'']\<rparr>) = [''http/1.1'']"
proof -
  have "\<forall>s \<in> set sample_args. \<not> mentions ''enable-http2'' s" by code_simp
  then show ?thesis by (rule http2_off_by_default[OF sample_parsed])
qed

text \<open>C32: The metrics endpoint is served over HTTPS and behind authentication and authorization unless
  a flag turns that off: the filter is set exactly when serving is secure, and it is set
  whenever no argument mentions \<open>metrics-secure\<close>.\<close>

theorem metrics_protected_by_default:
  assumes "parseFlags (commandLine zap) args (defaultOptions z) = Parsed o' rest"
  shows "(ms_FilterProvider (mo_Metrics (managerOptions scheme o')) = Some WithAuthenticationAndAuthorization
      \<longleftrightarrow> ms_SecureServing (mo_Metrics (managerOptions scheme o'))) \<and>
    ((\<forall>s \<in> set args. \<not> mentions ''metrics-secure'' s) \<longrightarrow>
      ms_FilterProvider (mo_Metrics (managerOptions scheme o')) = Some WithAuthenticationAndAuthorization)"
  using parsed_secure[OF assms]
  by (auto simp: managerOptions_def metricsServerOptions_def Let_def)

theorem metrics_protected_by_default_witness:
  "ms_FilterProvider (mo_Metrics (managerOptions () sample_options)) =
     Some WithAuthenticationAndAuthorization \<and>
   ms_BindAddress (mo_Metrics (managerOptions () sample_options)) = '':8443''"
proof -
  have "\<forall>s \<in> set sample_args. \<not> mentions ''metrics-secure'' s" by code_simp
  then have "ms_FilterProvider (mo_Metrics (managerOptions () sample_options)) =
     Some WithAuthenticationAndAuthorization"
    using metrics_protected_by_default[OF sample_parsed, of "()"] by blast
  moreover have "ms_BindAddress (mo_Metrics (managerOptions () sample_options)) = '':8443''" by code_simp
  ultimately show ?thesis ..
qed

text \<open>C30: The process starts the manager only after both controllers and both probes have been
  registered. Whichever calls fail, the calls made are the first ones of one fixed sequence,
  up to and including the first that fails; the exit status is 0 when none fails and 1
  otherwise. With arguments that do not parse the status is 2 and nothing is called.\<close>

theorem startup_order:
  assumes "init_scheme sapi = Inr scheme"
  shows "case parseFlags (commandLine zap) args (defaultOptions z) of
      FlagError \<Rightarrow> main sapi logged zap z args w = (2, w)
    | FlagHelp \<Rightarrow> main sapi logged zap z args w = (0, w)
    | Parsed o' rest \<Rightarrow>
        (let calls = startup_calls (managerOptions scheme o');
             (status, w') = main sapi logged zap z args \<lparr>cl_calls = [], cl_faults = faults\<rparr> in
         if list_all (\<lambda>f. f = None) (take 7 faults) then status = 0 \<and> cl_calls w' = calls
         else status = 1 \<and> cl_calls w' = take (Suc (successes faults)) calls)"
proof (cases "parseFlags (commandLine zap) args (defaultOptions z)")
  case (Parsed o' rest)
  let ?w = "\<lparr>cl_calls = [], cl_faults = faults\<rparr>" and ?calls = "startup_calls (managerOptions scheme o')"
  obtain r w' where run: "logAll ?calls ?w = (r, w')" by (cases "logAll ?calls ?w")
  have len: "length ?calls = 7" by (simp add: startup_calls_def)
  from logAll_run[of ?calls ?w] have
    "r = Inr () \<longleftrightarrow> list_all (\<lambda>f. f = None) (take 7 faults)"
    "cl_calls w' = (if list_all (\<lambda>f. f = None) (take 7 faults) then ?calls
       else take (Suc (successes faults)) ?calls)"
    unfolding run len by simp_all
  then show ?thesis using Parsed run assms
    by (cases r) (auto simp: main_def runManager_logged Let_def)
qed (use assms in \<open>simp_all add: main_def\<close>)

theorem startup_order_witness:
  "init_scheme sample_scheme_api = Inr (''Secret'' # registeredTypes) \<and>
   (let (status, w') = main sample_scheme_api logged sample_zap True sample_args
      \<lparr>cl_calls = [], cl_faults = [None, None, Some ''no CRD'']\<rparr> in
    status = 1 \<and> cl_calls w' = [CallConfig,
      CallNewManager (managerOptions (''Secret'' # registeredTypes) sample_options),
      CallComplete autheliaSetup])"
proof -
  have i: "init_scheme sample_scheme_api = Inr (''Secret'' # registeredTypes)"
    by (simp add: init_scheme_def sample_scheme_api_def)
  from startup_order[OF i, where zap = sample_zap and args = sample_args and z = True and
      faults = "[None, None, Some ''no CRD'']"] i show ?thesis
    unfolding sample_parsed by (simp add: startup_calls_def successes_def Let_def)
qed

end
