(* ===== verification/Operator.thy ===== *)
theory Operator
  imports AutheliaController
begin

text \<open>
  Both controllers at work on one cluster.

  \<open>operator_step\<close> is the step relation of the whole system: a write of a run of the Authelia
  controller, a write of a run of the OAuth client controller, or a step of somebody else
  (\<open>env\<close>). A run works on the resource it read at its start, which may be out of date by the
  time it writes, so the resource of a step need not be the one the server holds; \<open>seen\<close> says
  which clients the controller can have read. \<open>serve\<close> runs the reconcilers on any sequence of
  requests; with other workers and users in \<open>env\<close>, every interleaving is covered.

  The invariants are proved once for the steps and then hold for every sequence of runs.
\<close>

section \<open>The system\<close>

inductive operator_step :: "'w kube \<Rightarrow> golib \<Rightarrow> bool \<Rightarrow> (AutheliaOAuthClient \<Rightarrow> bool) \<Rightarrow>
    (objects \<Rightarrow> objects \<Rightarrow> bool) \<Rightarrow> objects \<Rightarrow> objects \<Rightarrow> bool"
  for K lib fips seen env where
  authelia: "authelia_write K lib a L L' \<Longrightarrow> operator_step K lib fips seen env L L'"
| client: "seen c \<Longrightarrow> oauth_write K fips c L L' \<Longrightarrow> operator_step K lib fips seen env L L'"
| outside: "env L L' \<Longrightarrow> operator_step K lib fips seen env L L'"

datatype request = AutheliaRequest nsname | ClientRequest nsname

definition handle :: "'w kube \<Rightarrow> golib \<Rightarrow> bool \<Rightarrow> request \<Rightarrow> 'w \<Rightarrow> 'w" where
  "handle K lib fips r w =
     (case r of
        AutheliaRequest req \<Rightarrow> snd (ReconcileAuthelia K lib req w)
      | ClientRequest req \<Rightarrow> snd (ReconcileOAuthClient K fips req w))"

definition serve :: "'w kube \<Rightarrow> golib \<Rightarrow> bool \<Rightarrow> request list \<Rightarrow> 'w \<Rightarrow> 'w" where
  "serve K lib fips rs w = fold (handle K lib fips) rs w"

section \<open>Runs are sequences of steps\<close>

context kube_api
begin

lemma handle_steps:
  assumes "\<And>req w c w'. get_OAuthClient K req w = (Inr c, w') \<Longrightarrow> seen c"
  shows "(operator_step K lib fips seen env)\<^sup>*\<^sup>* (live w) (live (handle K lib fips r w))"
    (is "?S\<^sup>*\<^sup>* _ _")
proof -
  have env: "?S\<^sup>*\<^sup>* A B" if "env\<^sup>*\<^sup>* A B" for A B
    using that by (rule rtranclp_weaken) (rule operator_step.outside)
  show ?thesis
  proof (cases r)
    case (AutheliaRequest req)
    obtain res w' where run: "ReconcileAuthelia K lib req w = (res, w')" by (rule prod.exhaust)
    obtain g w0 where get: "get_Authelia K req w = (g, w0)" by (rule prod.exhaust)
    have "?S\<^sup>*\<^sup>* (live w) (live w')"
    proof (cases g)
      case (Inl e)
      with run get have "w' = w0" by (simp add: ReconcileAuthelia_def)
      with env get_Authelia_reads[OF get] show ?thesis by simp
    next
      case (Inr a)
      from ReconcileAuthelia_steps[OF run get[unfolded Inr]] show ?thesis
        by (rule rtranclp_weaken) (auto intro: operator_step.intros)
    qed
    then show ?thesis using AutheliaRequest run by (simp add: handle_def)
  next
    case (ClientRequest req)
    obtain res w' where run: "ReconcileOAuthClient K fips req w = (res, w')" by (rule prod.exhaust)
    obtain g w0 where get: "get_OAuthClient K req w = (g, w0)" by (rule prod.exhaust)
    have "?S\<^sup>*\<^sup>* (live w) (live w')"
    proof (cases g)
      case (Inl e)
      with run get have "w' = w0" by (simp add: ReconcileOAuthClient_def)
      with env get_OAuthClient_reads[OF get] show ?thesis by simp
    next
      case (Inr c)
      from ReconcileOAuthClient_steps[OF run get[unfolded Inr]] show ?thesis
        by (rule rtranclp_weaken) (auto intro: operator_step.intros assms[OF get[unfolded Inr]])
    qed
    then show ?thesis using ClientRequest run by (simp add: handle_def)
  qed
qed

lemma serve_steps:
  assumes "\<And>req w c w'. get_OAuthClient K req w = (Inr c, w') \<Longrightarrow> seen c"
  shows "(operator_step K lib fips seen env)\<^sup>*\<^sup>* (live w) (live (serve K lib fips rs w))"
proof (induction rs arbitrary: w)
  case (Cons r rs)
  have "(operator_step K lib fips seen env)\<^sup>*\<^sup>* (live w) (live (handle K lib fips r w))"
    by (rule handle_steps[OF assms])
  with Cons.IH[of "handle K lib fips r w"] show ?case by (simp add: serve_def)
qed (simp add: serve_def)

end

section \<open>What every step keeps\<close>

text \<open>
  The part of the cluster that belongs to the users: the metadata and specs of both custom
  resources, and the Ingresses.
\<close>

definition user_state :: "objects \<Rightarrow> (nsname \<Rightarrow> (ObjectMeta \<times> AutheliaSpec) option) \<times>
    (nsname \<Rightarrow> (ObjectMeta \<times> AutheliaOAuthClientSpec) option) \<times> (nsname \<Rightarrow> Ingress option)" where
  "user_state L =
     (\<lambda>k. map_option (\<lambda>a. (a_Meta a, a_Spec a)) (o_Authelias L k),
      \<lambda>k. map_option (\<lambda>c. (c_Meta c, c_Spec c)) (o_OAuthClients L k), o_Ingresses L)"

text \<open>Every Secret of the cluster with a client digest has the digest of the secret beside it.\<close>

definition digests_match :: "objects \<Rightarrow> bool" where
  "digests_match L \<longleftrightarrow> (\<forall>k s. o_Secrets L k = Some s \<longrightarrow> consistent (secret_data s))"

lemma consistent_cong:
  "d' ''client_secret'' = d ''client_secret'' \<Longrightarrow> d' ''client_secret_digest'' = d ''client_secret_digest'' \<Longrightarrow>
   consistent d' = consistent d"
  by (simp add: consistent_def data_value_def has_value_def)

lemma consistent_none: "d ''client_secret_digest'' = None \<Longrightarrow> consistent d"
  by (simp add: consistent_def has_value_def)

lemma current_consistent:
  "digests_match L \<Longrightarrow> consistent (secret_data (current (o_Secrets L) k (newSecret n ns)))"
  by (cases "o_Secrets L k"; cases k)
    (auto simp: digests_match_def current_def newSecret_def secret_data_def[of "\<lparr>s_Meta = _, s_Type = _, s_Data = None\<rparr>"]
      consistent_none)

lemma digests_match_update:
  "digests_match L \<Longrightarrow> consistent (secret_data x) \<Longrightarrow>
   digests_match (L\<lparr>o_Secrets := (o_Secrets L)(k \<mapsto> x)\<rparr>)"
  by (simp add: digests_match_def)

context kube_api
begin

lemma authelia_write_digests:
  assumes "authelia_write K lib a L L'" and "digests_match L"
  shows "digests_match L'"
  using assms(1)
proof cases
  case core
  from core(2) obtain m x where x: "mutated (coreMutate K (lib_rsa_GenerateKey lib) a)
        (current (o_Secrets L) (coreSecretKey a) (newSecret (coreSecretName a) (authNamespace a))) m"
      "written_Secret m x" "L' = L\<lparr>o_Secrets := (o_Secrets L)(coreSecretKey a \<mapsto> x)\<rparr>"
    by (rule wrote_SecretE) simp
  let ?s = "current (o_Secrets L) (coreSecretKey a) (newSecret (coreSecretName a) (authNamespace a))"
  from coreMutate_result[OF x(1)] obtain t t' where
    "generatedCoreSecretData (lib_rsa_GenerateKey lib) (Some (secret_data ?s)) t = (Inr (secret_data m), t')"
    by blast
  note same = core.untouched[OF this]
  have "secret_data m ''client_secret'' = secret_data ?s ''client_secret''"
    "secret_data m ''client_secret_digest'' = secret_data ?s ''client_secret_digest''"
    by (rule same, simp add: coreKeys_def key_defs)+
  then have "consistent (secret_data x)"
    using current_consistent[OF assms(2)] consistent_cong[of "secret_data m" "secret_data ?s"]
      secret_data_written[OF x(2)] by simp
  with x(3) assms(2) show ?thesis by (simp add: digests_match_update)
qed (use assms(2) in \<open>auto simp: wrote_defs digests_match_def Let_def\<close>)

lemma oauth_write_digests:
  assumes "oauth_write K fips c L L'" and "digests_match L"
  shows "digests_match L'"
  using assms(1)
proof cases
  case secret
  then obtain x m where x: "mutated (oauthMutate K fips c (effectiveClientID c))
        (current (o_Secrets L) (oauthSecretKey c) (oauthSecret c)) m"
      "written_Secret m x" "L' = L\<lparr>o_Secrets := (o_Secrets L)(oauthSecretKey c \<mapsto> x)\<rparr>"
    by (rule wrote_SecretE) simp
  let ?s = "current (o_Secrets L) (oauthSecretKey c) (oauthSecret c)"
  have s: "consistent ((secret_data ?s)(''client_id'' \<mapsto> effectiveClientID c))"
    using current_consistent[OF assms(2)]
      consistent_cong[of "(secret_data ?s)(''client_id'' \<mapsto> effectiveClientID c)" "secret_data ?s"] by simp
  have "consistent (secret_data m)"
  proof (cases "Public (c_Spec c)")
    case True
    with oauthMutate_result[OF x(1)] show ?thesis by (auto intro: consistent_none)
  next
    case False
    with oauthMutate_result[OF x(1)] obtain t t' where
      "fillClientSecret fips ((secret_data ?s)(''client_id'' \<mapsto> effectiveClientID c)) t =
         (Inr (secret_data m), t')" by auto
    from fillClientSecret_consistent[OF this s] show ?thesis by simp
  qed
  with x assms(2) secret_data_written[OF x(2)] show ?thesis by (simp add: digests_match_update)
qed (use assms(2) in \<open>auto simp: wrote_defs digests_match_def Let_def\<close>)

lemma oauth_write_user_state: "oauth_write K fips c L L' \<Longrightarrow> user_state L' = user_state L"
  by (erule oauth_write.cases) (auto simp: wrote_defs user_state_def Let_def fun_eq_iff)

lemma authelia_write_user_state: "authelia_write K lib a L L' \<Longrightarrow> user_state L' = user_state L"
  by (drule authelia_write_keeps_specs) (auto simp: user_state_def)

end

section \<open>Properties\<close>

text \<open>Requests in the order in which a work queue might hand them out.\<close>

definition sample_queue :: "request list" where
  "sample_queue = [ClientRequest (''web'', ''grafana''), AutheliaRequest (''auth'', ''sso''),
     ClientRequest (''web'', ''gone''), AutheliaRequest (''auth'', ''sso'')]"

text \<open>C5: A generated secret survives everything the operator does: a value of any field of any Secret,
  other than the client ID, is never changed or removed by serving requests, provided that
  nobody else changes it and that no client the operator reads is public and has that Secret
  as its own. For the core Secret of an instance, whose name does not end in
  \<open>-oauth-secret\<close>, the second condition always holds.\<close>

theorem operator_secrets_stable:
  assumes "kube_api K live env" and "\<And>req w c w'. get_OAuthClient K req w = (Inr c, w') \<Longrightarrow> seen c"
    and "\<And>c. seen c \<Longrightarrow> Public (c_Spec c) \<Longrightarrow> oauthSecretKey c \<noteq> k"
    and "\<And>L L'. env L L' \<Longrightarrow> field_is k f v L \<Longrightarrow> field_is k f v L'"
    and "field_is k f v (live w)" and "v \<noteq> []" and "f \<noteq> ''client_id''"
  shows "field_is k f v (live (serve K lib fips rs w))"
  using kube_api.serve_steps[OF assms(1,2)] assms(5)
proof (rule rtranclp_keeps)
  fix L L'
  assume "operator_step K lib fips seen env L L'" and f: "field_is k f v L"
  then show "field_is k f v L'"
  proof cases
    case (authelia a)
    then show ?thesis using f assms(6) by (rule kube_api.authelia_write_keeps_field[OF assms(1)])
  next
    case (client c)
    show ?thesis using assms(3)[OF client(1)]
      by (intro kube_api.oauth_write_keeps_field[OF assms(1) client(2) f assms(6,7)]) auto
  qed (use assms(4) f in blast)
qed

theorem operator_secrets_stable_witness:
  "field_is (''auth'', ''keep'') ''k'' ''v''
     (mem_live (serve mem_kube sample_lib False sample_queue sample_server))"
proof (rule operator_secrets_stable[OF mem.kube_api_axioms, of "\<lambda>c. True"])
  show "field_is (''auth'', ''keep'') ''k'' ''v'' (mem_live sample_server)"
    by (simp add: field_is_def mem_live_def sample_server_def secret_data_def)
  show "oauthSecretKey c \<noteq> (''auth'', ''keep'')" for c
  proof
    assume "oauthSecretKey c = (''auth'', ''keep'')"
    then have "last (oauthSecretName c) = last ''keep''" by simp
    then show False by (simp add: oauthSecretName_def)
  qed
qed (simp_all add: quiet_def)

text \<open>C6: Digests stay valid in the whole cluster: if every Secret that has a client digest has the
  digest of the client secret beside it, this still holds after any requests were served by
  both controllers, whichever of them failed, provided the others keep it too.\<close>

theorem operator_digests_match:
  assumes "kube_api K live env" and "\<And>L L'. env L L' \<Longrightarrow> digests_match L \<Longrightarrow> digests_match L'"
    and "digests_match (live w)"
  shows "digests_match (live (serve K lib fips rs w))"
proof -
  have "(operator_step K lib fips (\<lambda>c. True) env)\<^sup>*\<^sup>* (live w) (live (serve K lib fips rs w))"
    by (rule kube_api.serve_steps[OF assms(1)]) simp
  then show ?thesis using assms(3)
  proof (rule rtranclp_keeps)
    fix L L'
    assume "operator_step K lib fips (\<lambda>c. True) env L L'" and "digests_match L"
    then show "digests_match L'"
      by cases (blast intro: kube_api.authelia_write_digests[OF assms(1)]
          kube_api.oauth_write_digests[OF assms(1)] assms(2))+
  qed
qed

theorem operator_digests_match_witness:
  "digests_match (mem_live (serve mem_kube sample_lib False sample_queue sample_server))"
proof (rule operator_digests_match[OF mem.kube_api_axioms])
  show "digests_match (mem_live sample_server)"
    by (auto simp: digests_match_def mem_live_def sample_server_def empty_server_def secret_data_def
        intro!: consistent_none split: if_splits)
qed (simp add: quiet_def)

end
