(* ===== verification/Convergence.thy ===== *)
theory Convergence
  imports Operator
begin

text \<open>
  Where the controllers get to.

  First, they come to rest: after a successful run in a quiet cluster a second run of the same
  request changes no object, so the events that the writes of the first run caused do not
  start a loop. The mutate functions are shown to settle (\<open>settles\<close>), the written objects to
  be the ones a run wants (\<open>settled\<close>), and a small logic of actions that leave the objects alone
  (\<open>stays\<close>) carries this through the reconcilers. The Authelia reconciler also needs its input
  to determine the text it renders: distinct client IDs and a listing order that does not
  matter.

  Second, a client reaches the configuration: a run of the OAuth client controller followed by
  one of the Authelia controller leaves a ConfigMap whose text is marshalled from a tree with
  the client in it, under the digest stored in the client's Secret.
\<close>


section \<open>Mutate functions that come to rest\<close>

text \<open>
  A mutate function that has run once, on an object that was then stored, leaves what was
  stored as it is, and draws no randomness to do so.
\<close>

definition settles :: "('o \<Rightarrow> 'o \<Rightarrow> bool) \<Rightarrow> ('o \<Rightarrow> (bytes, 'o) act) \<Rightarrow> bool" where
  "settles written f \<longleftrightarrow>
     (\<forall>x t m t' y. f x t = (Inr m, t') \<longrightarrow> written m y \<longrightarrow> (\<forall>u. f y u = (Inr y, u)))"

lemma settlesI:
  "(\<And>x t m t' y u. f x t = (Inr m, t') \<Longrightarrow> written m y \<Longrightarrow> f y u = (Inr y, u)) \<Longrightarrow> settles written f"
  by (auto simp: settles_def)

lemma settles_rests:
  assumes "settles written f" and "cou_result written store k obj f y"
  shows "rests (store'(k \<mapsto> y)) k f"
  using assms by (fastforce simp: rests_def cou_result_def mutated_def settles_def)

lemma labels_same: "Labels m = l \<Longrightarrow> m\<lparr>Labels := l\<rparr> = m"
  by simp

context kube_api
begin

lemma set_owner_settles:
  assumes "set_owner K kind own m = Inr m'"
  shows "set_owner K kind own (m'\<lparr>UID := u\<rparr>) = Inr (m'\<lparr>UID := u\<rparr>)" and "Labels m' = Labels m"
  using set_owner_again[OF assms] set_owner_Inr[OF assms] by simp_all

lemma settles_configMap: "settles written_ConfigMap (configMapMutate K a desired)"
proof (rule settlesI)
  fix cm t m t' y u
  assume "configMapMutate K a desired cm t = (Inr m, t')" and y: "written_ConfigMap m y"
  then obtain mm where mm: "set_owner K ''Authelia'' (a_Meta a)
      ((cm_Meta cm)\<lparr>Labels := Labels (cm_Meta desired)\<rparr>) = Inr mm"
    and m: "m = cm\<lparr>cm_Meta := mm, cm_Data := cm_Data desired\<rparr>"
    by (auto simp: configMapMutate_def Let_def)
  from y m set_owner_settles[OF mm] show "configMapMutate K a desired y u = (Inr y, u)"
    by (auto simp: configMapMutate_def Let_def written_ConfigMap_def labels_same)
qed

lemma settles_service: "settles written_Service (serviceMutate K a desired)"
proof (rule settlesI)
  fix v t m t' y u
  assume "serviceMutate K a desired v t = (Inr m, t')" and y: "written_Service m y"
  then obtain mm where mm: "set_owner K ''Authelia'' (a_Meta a)
      ((svc_Meta v)\<lparr>Labels := Labels (svc_Meta desired)\<rparr>) = Inr mm"
    and m: "m = v\<lparr>svc_Meta := mm, svc_Type := svc_Type desired, svc_Selector := svc_Selector desired,
       svc_Ports := svc_Ports desired\<rparr>"
    by (auto simp: serviceMutate_def Let_def)
  from y m set_owner_settles[OF mm] show "serviceMutate K a desired y u = (Inr y, u)"
    by (auto simp: serviceMutate_def Let_def written_Service_def labels_same)
qed

lemma settles_deployment: "settles written_Deployment (deploymentMutate K a desired)"
proof (rule settlesI)
  fix d t m t' y u
  assume "deploymentMutate K a desired d t = (Inr m, t')" and y: "written_Deployment m y"
  then obtain mm where mm: "set_owner K ''Authelia'' (a_Meta a)
      ((d_Meta d)\<lparr>Labels := Labels (d_Meta desired)\<rparr>) = Inr mm"
    and m: "m = d\<lparr>d_Meta := mm, d_Spec := d_Spec desired\<rparr>"
    by (auto simp: deploymentMutate_def Let_def)
  from y m set_owner_settles[OF mm] show "deploymentMutate K a desired y u = (Inr y, u)"
    by (auto simp: deploymentMutate_def Let_def written_Deployment_def labels_same)
qed

lemma settles_core: "settles written_Secret (coreMutate K rsa a)"
proof (rule settlesI)
  fix s :: Secret and t m t' y u
  let ?l = "if Labels (s_Meta s) = None then Some (labelsFor a) else Labels (s_Meta s)"
  assume "coreMutate K rsa a s t = (Inr m, t')" and y: "written_Secret m y"
  then obtain d t1 mm where d: "generatedCoreSecretData rsa (s_Data s) t = (Inr d, t1)"
    and mm: "set_owner K ''Authelia'' (a_Meta a) ((s_Meta s)\<lparr>Labels := ?l\<rparr>) = Inr mm"
    and m: "m = s\<lparr>s_Meta := mm, s_Type := ''Opaque'', s_Data := Some d\<rparr>"
    by (auto simp: coreMutate_def setOwner_def Let_def elim!: bindA_Inr split: if_splits)
  have "Labels mm \<noteq> None" using set_owner_settles(2)[OF mm] by simp
  moreover from d have "generatedCoreSecretData rsa (Some (secret_data s)) t = (Inr d, t1)"
    by (cases "s_Data s") (simp_all add: secret_data_def)
  note core.refill[OF this, of u]
  ultimately show "coreMutate K rsa a y u = (Inr y, u)"
    using y m set_owner_settles(1)[OF mm]
    by (auto simp: coreMutate_def setOwner_def written_Secret_def bindA_run)
qed

lemma settles_oauth: "settles written_Secret (oauthMutate K fips c cid)"
proof (rule settlesI)
  fix s :: Secret and t m t' y u
  let ?l = "(case Labels (s_Meta s) of None \<Rightarrow> Map.empty | Some l \<Rightarrow> l)(''app.kubernetes.io/managed-by'' \<mapsto> ''heliop'')"
  let ?d0 = "(secret_data s)(''client_id'' \<mapsto> cid)"
  assume run: "oauthMutate K fips c cid s t = (Inr m, t')" and "written_Secret m y"
  obtain d mm where mm: "set_owner K ''AutheliaOAuthClient'' (c_Meta c) ((s_Meta s)\<lparr>Labels := Some ?l\<rparr>) = Inr mm"
    and m: "m = s\<lparr>s_Meta := mm, s_Type := ''Opaque'', s_Data := Some d\<rparr>"
    and d: "if Public (c_Spec c) then d = ?d0(''client_secret'' := None, ''client_secret_digest'' := None)
      else (\<exists>t1. fillClientSecret fips ?d0 t = (Inr d, t1))"
    using run by (auto simp: oauthMutate_def setOwner_def secret_data_def Let_def elim!: bindA_Inr split: if_splits)
  obtain uid where y: "y = s\<lparr>s_Type := ''Opaque'', s_Data := Some d, s_Meta := mm\<lparr>UID := uid\<rparr>\<rparr>"
    using \<open>written_Secret m y\<close> m by (auto simp: written_Secret_def)
  note own = set_owner_settles(1)[OF mm, of uid]
  have l: "Labels mm = Some ?l" using set_owner_settles(2)[OF mm] by simp
  show "oauthMutate K fips c cid y u = (Inr y, u)"
  proof (cases "Public (c_Spec c)")
    case True
    with d have "d(''client_id'' \<mapsto> cid, ''client_secret'' := None, ''client_secret_digest'' := None) = d"
      by (auto simp: fun_eq_iff)
    with True own l y show ?thesis by (simp add: oauthMutate_def setOwner_def labels_same)
  next
    case False
    with d obtain t1 where fill: "fillClientSecret fips ?d0 t = (Inr d, t1)" by auto
    have "d ''client_id'' = Some cid"
      using oauth.untouched[OF fill, of "''client_id''"] by (simp add: clientSecretKeys_def)
    then have "d(''client_id'' \<mapsto> cid) = d" by (simp add: fun_upd_idem)
    with False own l y oauth.refill[OF fill, of u] show ?thesis
      by (simp add: oauthMutate_def setOwner_def bindA_run labels_same)
  qed
qed

end
section \<open>Runs that change nothing\<close>

text \<open>From a world with the objects \<open>L\<close> the action, whatever it returns, leaves them as they are.\<close>

definition stays :: "('w \<Rightarrow> objects) \<Rightarrow> objects \<Rightarrow> ('a \<Rightarrow> bool) \<Rightarrow> ('w, 'a) act \<Rightarrow> bool" where
  "stays live L Q m \<longleftrightarrow>
     (\<forall>w r w'. live w = L \<longrightarrow> m w = (r, w') \<longrightarrow> live w' = L \<and> (\<forall>x. r = Inr x \<longrightarrow> Q x))"

lemma staysI:
  "(\<And>w r w'. live w = L \<Longrightarrow> m w = (r, w') \<Longrightarrow> live w' = L \<and> (\<forall>x. r = Inr x \<longrightarrow> Q x)) \<Longrightarrow> stays live L Q m"
  unfolding stays_def by blast

lemma staysD: "stays live L Q m \<Longrightarrow> m w = (r, w') \<Longrightarrow> live w = L \<Longrightarrow> live w' = L"
  unfolding stays_def by blast

lemma stays_result: "stays live L Q m \<Longrightarrow> m w = (Inr x, w') \<Longrightarrow> live w = L \<Longrightarrow> Q x"
  unfolding stays_def by blast

lemma stays_pure: "Q x \<Longrightarrow> stays live L Q (returnA x)"
  by (simp add: stays_def)

lemma stays_bind:
  assumes "stays live L Q m" and "\<And>x. Q x \<Longrightarrow> stays live L Q' (f x)"
  shows "stays live L Q' (bindA m f)"
proof (rule staysI)
  fix w r w'
  assume w: "live w = L" and "bindA m f w = (r, w')"
  from this(2) show "live w' = L \<and> (\<forall>x. r = Inr x \<longrightarrow> Q' x)"
  proof (cases rule: bindA_cases)
    case (failed e)
    with staysD[OF assms(1) failed(1) w] show ?thesis by simp
  next
    case (passed x w1)
    note f = assms(2)[OF stays_result[OF assms(1) passed(1) w]]
    note w1 = staysD[OF assms(1) passed(1) w]
    from staysD[OF f passed(2) w1] stays_result[OF f _ w1] passed(2) show ?thesis by blast
  qed
qed

text \<open>
  The objects of an instance are those that a run writes: every mutate function leaves its
  object as it is, the claim is there, and the status is the one the run reports.
\<close>

definition settled_status :: "Authelia \<Rightarrow> string list \<Rightarrow> string list \<Rightarrow> objects \<Rightarrow> bool" where
  "settled_status a ids ds L \<longleftrightarrow>
     (\<exists>d a0. o_Deployments L (authNamespace a, authName a) = Some d \<and>
        o_Authelias L (meta_key (a_Meta a)) = Some a0 \<and>
        a_Status a0 = (a_Status a)\<lparr>ReadyReplicas := d_ReadyReplicas d, OIDCClients := ids,
          AccessControlRules := ds\<rparr>)"

definition settled :: "'w kube \<Rightarrow> golib \<Rightarrow> Authelia \<Rightarrow> bool \<Rightarrow> string \<Rightarrow> string list \<Rightarrow> string list \<Rightarrow>
    objects \<Rightarrow> bool" where
  "settled K lib a oidc rendered ids ds L \<longleftrightarrow>
     (ExistingSecret (Deployment (a_Spec a)) = [] \<longrightarrow>
        rests (o_Secrets L) (coreSecretKey a) (coreMutate K (lib_rsa_GenerateKey lib) a)) \<and>
     rests (o_ConfigMaps L) (authNamespace a, configMapName a) (configMapMutate K a (buildConfigMap a rendered)) \<and>
     rests (o_Services L) (authNamespace a, authName a) (serviceMutate K a (buildService a)) \<and>
     claim_stored a L \<and>
     rests (o_Deployments L) (authNamespace a, authName a)
       (deploymentMutate K a (buildDeployment a oidc (configChecksum rendered))) \<and>
     settled_status a ids ds L"

lemma key_new [simp]:
  "meta_key (cm_Meta (newConfigMap a)) = (authNamespace a, configMapName a)"
  "meta_key (svc_Meta (newService n ns)) = (ns, n)" "meta_key (d_Meta (newDeployment n ns)) = (ns, n)"
  by (simp_all add: newService_def newDeployment_def new_meta_def meta_key_def)

text \<open>The client controller has nothing left to do for a client.\<close>

definition client_rests :: "'w kube \<Rightarrow> bool \<Rightarrow> AutheliaOAuthClient \<Rightarrow> objects \<Rightarrow> bool" where
  "client_rests K fips c L \<longleftrightarrow>
     SecretName (c_Status c) = oauthSecretName c \<and>
     rests (o_Secrets L) (oauthSecretKey c) (oauthMutate K fips c (effectiveClientID c))"

context kube_fresh
begin

lemma oauth_client_stored:
  assumes run: "ReconcileOAuthClient K fips req w = (Inr res, w')"
    and get: "get_OAuthClient K req w = (Inr c, w0)" and key: "meta_key (c_Meta c) = req"
  shows "o_OAuthClients (live w') req = Some (withSecretName c)"
proof -
  obtain L1 where sec: "wrote_Secret (oauthSecret c) (oauthMutate K fips c (effectiveClientID c)) (live w) L1"
    and st: "if SecretName (c_Status c) \<noteq> oauthSecretName c
     then wrote_status_OAuthClient (withSecretName c) L1 (live w') else live w' = L1"
    using ReconcileOAuthClient_done[OF run get] by blast
  have L1: "o_OAuthClients L1 req = Some c"
    using sec get_OAuthClient_current[OF get] by (auto simp: wrote_Secret_def Let_def)
  show ?thesis
  proof (cases "SecretName (c_Status c) = oauthSecretName c")
    case True
    then have "withSecretName c = c" by (cases c; cases "c_Status c") simp
    with True st L1 show ?thesis by simp
  next
    case False
    with st L1 key show ?thesis by (auto simp: wrote_status_OAuthClient_def Let_def)
  qed
qed

lemma oauth_digest_stored:
  assumes run: "ReconcileOAuthClient K fips req w = (Inr res, w')"
    and get: "get_OAuthClient K req w = (Inr c, w0)" and key: "meta_key (c_Meta c) = req"
    and "\<not> Public (c_Spec c)"
  shows "digestIn (live w') (withSecretName c) \<noteq> []"
    and "field_is (oauthSecretKey c) ''client_secret_digest'' (digestIn (live w') (withSecretName c)) (live w')"
  using oauth_established[OF run get key] assms(4)
  by (auto simp: digestIn_def Let_def oauthSecretName_def has_value_def data_value_def field_is_def split: option.splits)

lemma oauth_run_rests:
  assumes run: "ReconcileOAuthClient K fips req w = (Inr res, w')"
    and get: "get_OAuthClient K req w = (Inr c, w0)" and key: "meta_key (c_Meta c) = req"
  shows "client_rests K fips (withSecretName c) (live w')"
proof -
  let ?f = "oauthMutate K fips c (effectiveClientID c)"
  obtain L1 where sec: "wrote_Secret (oauthSecret c) ?f (live w) L1"
    and st: "o_Secrets (live w') = o_Secrets L1"
    using ReconcileOAuthClient_done[OF run get]
    by (auto simp: wrote_status_OAuthClient_def Let_def split: if_splits)
  have "rests (o_Secrets (live w')) (oauthSecretKey c) ?f"
    using sec st settles_rests[OF settles_oauth] by (auto simp: wrote_Secret_def Let_def)
  moreover have "oauthMutate K fips (withSecretName c) (effectiveClientID (withSecretName c)) = ?f"
    by (simp add: fun_eq_iff oauthMutate_def effectiveClientID_def Let_def)
  ultimately show ?thesis by (simp add: client_rests_def oauthSecretName_def)
qed

lemma oauth_stays:
  assumes rest: "\<And>c. o_OAuthClients (live w) req = Some c \<Longrightarrow> client_rests K fips c (live w)"
    and run: "ReconcileOAuthClient K fips req w = (r, w')"
  shows "live w' = live w"
proof -
  obtain g v where g: "get_OAuthClient K req w = (g, v)" by (rule prod.exhaust)
  have v: "live v = live w" using get_OAuthClient_reads[OF g] by simp
  show ?thesis
  proof (cases g)
    case (Inl e)
    with run g v show ?thesis by (simp add: ReconcileOAuthClient_def)
  next
    case (Inr c)
    let ?cou = "cou_Secret K (oauthSecret c) (oauthMutate K fips c (effectiveClientID c))"
    have c: "client_rests K fips c (live w)" using rest get_OAuthClient_current[of req w c v] g Inr by blast
    then have "bindA ?cou (\<lambda>_. bindA (returnA ()) (\<lambda>_. returnA \<lparr>RequeueAfter = 0\<rparr>)) v = (r, w')"
      using run g Inr by (simp add: ReconcileOAuthClient_def client_rests_def)
    moreover have "stays live (live w) (\<lambda>_. True) ?cou"
      using cou_Secret_rests[of "oauthSecret c"] c by (auto simp: client_rests_def intro!: staysI)
    then have "stays live (live w) (\<lambda>_. True)
        (bindA ?cou (\<lambda>_. bindA (returnA ()) (\<lambda>_. returnA \<lparr>RequeueAfter = 0\<rparr>)))"
      by (intro stays_bind[where Q = "\<lambda>_. True"] stays_pure TrueI)
    ultimately show ?thesis using v by (auto dest: staysD)
  qed
qed

lemma oauth_second_run:
  assumes run: "ReconcileOAuthClient K fips req w = (Inr res, w1)"
    and get: "get_OAuthClient K req w = (Inr c, w0)" and key: "meta_key (c_Meta c) = req"
    and again: "ReconcileOAuthClient K fips req w1 = (r, w2)"
  shows "live w2 = live w1"
  using again
  by (rule oauth_stays[rotated]) (use oauth_run_rests[OF run get key] oauth_client_stored[OF run get key] in simp)

end

section \<open>The Authelia controller at rest\<close>


context kube_api
begin

lemma authelia_write_digest:
  assumes "authelia_write K lib a L L'"
  shows "digestIn L' c = digestIn L c"
  using assms
proof cases
  case core
  from core(2) obtain m x where x: "mutated (coreMutate K (lib_rsa_GenerateKey lib) a)
        (current (o_Secrets L) (coreSecretKey a) (newSecret (coreSecretName a) (authNamespace a))) m"
      "written_Secret m x" "L' = L\<lparr>o_Secrets := (o_Secrets L)(coreSecretKey a \<mapsto> x)\<rparr>"
    by (rule wrote_SecretE) simp
  let ?s = "current (o_Secrets L) (coreSecretKey a) (newSecret (coreSecretName a) (authNamespace a))"
  from coreMutate_result[OF x(1)] obtain t t' where
    "generatedCoreSecretData (lib_rsa_GenerateKey lib) (Some (secret_data ?s)) t = (Inr (secret_data m), t')"
    by blast
  then have "secret_data m ''client_secret_digest'' = secret_data ?s ''client_secret_digest''"
    by (rule core.untouched) (simp add: coreKeys_def key_defs)
  then have "data_value (secret_data x) ''client_secret_digest'' =
      data_value (secret_data ?s) ''client_secret_digest''"
    using secret_data_written[OF x(2)] by (simp add: data_value_def)
  moreover have "secret_data (newSecret (coreSecretName a) (authNamespace a)) = Map.empty"
    by (simp add: newSecret_def secret_data_def)
  ultimately show ?thesis
    by (auto simp: x(3) digestIn_def Let_def current_def data_value_def split: option.splits)
qed (auto simp: wrote_defs digestIn_def Let_def)

lemma authelia_write_inputs:
  "authelia_write K lib a L L' \<Longrightarrow>
   o_OAuthClients L' = o_OAuthClients L \<and> o_Ingresses L' = o_Ingresses L \<and> digestIn L' = digestIn L"
  using authelia_write_keeps_specs authelia_write_digest by (auto simp: fun_eq_iff)

end

text \<open>A run from the resource with a new status is a run from the resource.\<close>

lemma status_names:
  "configMapName (withStatus a n ids ds) = configMapName a" "dataPVCName (withStatus a n ids ds) = dataPVCName a"
  "coreSecretName (withStatus a n ids ds) = coreSecretName a" "labelsFor (withStatus a n ids ds) = labelsFor a"
  "selectorFor (withStatus a n ids ds) = selectorFor a"
  by (simp_all add: configMapName_def dataPVCName_def coreSecretName_def labelsFor_def selectorFor_def)

lemma status_volumes:
  "podVolumes (withStatus a n ids ds) = podVolumes a" "mainMounts (withStatus a n ids ds) = mainMounts a"
  by (simp_all add: podVolumes_def mainMounts_def dataVolume_def status_names)

lemma status_builds:
  "buildDataPVC (withStatus a n ids ds) = buildDataPVC a"
  "buildConfigMap (withStatus a n ids ds) r = buildConfigMap a r"
  "buildService (withStatus a n ids ds) = buildService a"
  "buildDeployment (withStatus a n ids ds) oidc cs = buildDeployment a oidc cs"
  by (simp_all add: buildDataPVC_def buildConfigMap_def buildService_def buildDeployment_def status_names
      status_volumes split: option.split)

lemma status_mutates:
  "coreMutate K rsa (withStatus a n ids ds) = coreMutate K rsa a"
  "configMapMutate K (withStatus a n ids ds) cm = configMapMutate K a cm"
  "serviceMutate K (withStatus a n ids ds) svc = serviceMutate K a svc"
  "deploymentMutate K (withStatus a n ids ds) dep = deploymentMutate K a dep"
  by (simp_all add: fun_eq_iff coreMutate_def configMapMutate_def serviceMutate_def deploymentMutate_def
      status_names)

lemma status_claim: "reconcileDataPVC K (withStatus a n ids ds) = reconcileDataPVC K a"
proof
  show "reconcileDataPVC K (withStatus a n ids ds) w = reconcileDataPVC K a w" for w
    by (simp add: reconcileDataPVC_def status_names status_builds split: prod.split sum.split)
qed

lemma status_steps:
  "reconcileCoreSecret K rsa (withStatus a n ids ds) = reconcileCoreSecret K rsa a"
  "reconcileConfigMap K (withStatus a n ids ds) r = reconcileConfigMap K a r"
  "reconcileService K (withStatus a n ids ds) = reconcileService K a"
  "reconcileDataPVC K (withStatus a n ids ds) = reconcileDataPVC K a"
  "reconcileDeployment K (withStatus a n ids ds) oidc cs = reconcileDeployment K a oidc cs"
  "updateStatus K (withStatus a n ids ds) n' ids' ds' = updateStatus K a n' ids' ds'"
  by (simp_all add: reconcileCoreSecret_def reconcileConfigMap_def reconcileService_def status_claim
      reconcileDeployment_def updateStatus_def status_names status_builds status_mutates)

lemma collectLoop_status: "collectLoop K (withStatus a n ids ds) cs acc = collectLoop K a cs acc"
proof (induction cs arbitrary: acc)
  case (Cons c cs)
  have "clientTargets c (withStatus a n ids ds) = clientTargets c a" by (simp add: clientTargets_def)
  then show ?case by (simp add: Cons.IH Let_def cong: if_cong split: prod.splits)
qed simp

lemma reconcileBody_status: "reconcileBody K lib (withStatus a n ids ds) = reconcileBody K lib a"
proof -
  have "writeObjects K lib (withStatus a n ids ds) = writeObjects K lib a"
    by (intro ext) (simp add: writeObjects_def status_steps)
  then show ?thesis by (simp add: reconcileBody_def collectClients_def collectLoop_status)
qed

context kube_fresh
begin

lemma writeObjects_settles:
  assumes "writeObjects K lib a clients missing ds rendered w = (Inr res, w')"
  shows "settled K lib a (clients \<noteq> []) rendered (sort (map (\<lambda>c. ClientID (oc_spec c)) clients)) ds (live w')"
  using assms
proof (cases rule: writeObjects_runs)
  case (1 u1 w1 u2 w2 u3 w3 u4 w4 n w5 u6)
  note c = reconcileConfigMap_done[OF 1(2)] and v = reconcileService_done[OF 1(3)]
    and p = reconcileDataPVC_done[OF 1(4)] and d = reconcileDeployment_done[OF 1(5)]
    and st = status_Authelia_done[OF 1(6)[unfolded updateStatus_def]]
  have secrets: "o_Secrets (live w') = o_Secrets (live w1)"
    and maps: "o_ConfigMaps (live w') = o_ConfigMaps (live w2)"
    and services: "o_Services (live w') = o_Services (live w3)"
    and deps: "o_Deployments (live w') = o_Deployments (live w5)"
    using c v p d st by (auto simp: wrote_defs Let_def)
  have core: "rests (o_Secrets (live w')) (coreSecretKey a) (coreMutate K (lib_rsa_GenerateKey lib) a)"
    if "ExistingSecret (Deployment (a_Spec a)) = []"
    using 1(1) that settles_rests[OF settles_core]
    by (auto simp: secrets reconcileCoreSecret_def wrote_Secret_def Let_def elim!: bindA_Inr dest!: cou_Secret_done)
  have config: "rests (o_ConfigMaps (live w')) (authNamespace a, configMapName a)
      (configMapMutate K a (buildConfigMap a rendered))"
    using c settles_rests[OF settles_configMap] by (auto simp: maps wrote_ConfigMap_def Let_def new_meta_def meta_key_def)
  have service: "rests (o_Services (live w')) (authNamespace a, authName a) (serviceMutate K a (buildService a))"
    using v settles_rests[OF settles_service] by (auto simp: services wrote_Service_def Let_def)
  have dep: "rests (o_Deployments (live w')) (authNamespace a, authName a)
      (deploymentMutate K a (buildDeployment a (clients \<noteq> []) (configChecksum rendered)))"
    using d settles_rests[OF settles_deployment] by (auto simp: deps wrote_Deployment_def Let_def)
  obtain dd where dd: "o_Deployments (live w5) (authNamespace a, authName a) = Some dd" "n = d_ReadyReplicas dd"
    using 1(5) by (auto simp: reconcileDeployment_def Let_def elim!: bindA_Inr dest!: cou_Deployment_done)
  have "settled_status a (sort (map (\<lambda>c. ClientID (oc_spec c)) clients)) ds (live w')"
    using st dd deps by (auto simp: settled_status_def wrote_status_Authelia_def Let_def)
  then show ?thesis using core config service dep writeObjects_done[OF assms] unfolding settled_def by blast
qed

lemma stays_call:
  "(\<And>w r w'. m w = (r, w') \<Longrightarrow> live w = L \<Longrightarrow> live w' = live w) \<Longrightarrow>
   stays live L (\<lambda>_. True) (bindA m (\<lambda>_. returnA ()))"
  by (rule stays_bind[where Q = "\<lambda>_. True"]) (metis staysI, simp add: stays_pure)

lemma reconcileDataPVC_stays:
  assumes "claim_stored a L"
  shows "stays live L (\<lambda>_. True) (reconcileDataPVC K a)"
proof (rule staysI)
  fix w r w'
  assume w: "live w = L" and run: "reconcileDataPVC K a w = (r, w')"
  obtain q v where get: "get_PVC K (authNamespace a, dataPVCName a) w = (q, v)" by (rule prod.exhaust)
  have v: "live v = live w" using get_PVC_reads[OF get] by simp
  have "live w' = live w"
  proof (cases "VolumeClaimTemplate (Deployment (a_Spec a)) = None \<or> (\<forall>e. q = Inl e \<longrightarrow> e \<noteq> NotFound)")
    case True
    with run get v show ?thesis by (auto simp: reconcileDataPVC_def split: sum.splits if_splits)
  next
    case False
    with run get obtain p where p: "buildDataPVC a = Inr p" "create_PVC K p v = (r, w')"
      "meta_key (pvc_Meta p) = (authNamespace a, dataPVCName a)"
      by (auto simp: reconcileDataPVC_def buildDataPVC_def new_meta_def meta_key_def bindA_run split: option.splits)
    have "o_PVCs L (authNamespace a, dataPVCName a) \<noteq> None"
      using assms False by (auto simp: claim_stored_def)
    with create_PVC_effect[OF p(2)] p(3) v w show ?thesis by (auto simp: wrote_PVC_def Let_def)
  qed
  with w show "live w' = L \<and> (\<forall>x. r = Inr x \<longrightarrow> True)" by simp
qed

lemma writeObjects_stays:
  assumes "settled K lib a (clients \<noteq> []) rendered (sort (map (\<lambda>c. ClientID (oc_spec c)) clients)) ds L"
  shows "stays live L (\<lambda>_. True) (writeObjects K lib a clients missing ds rendered)"
proof -
  let ?ids = "sort (map (\<lambda>c. ClientID (oc_spec c)) clients)"
  obtain d a0 where d: "o_Deployments L (authNamespace a, authName a) = Some d"
    and a0: "o_Authelias L (meta_key (a_Meta a)) = Some a0"
      "a_Status a0 = (a_Status a)\<lparr>ReadyReplicas := d_ReadyReplicas d, OIDCClients := ?ids, AccessControlRules := ds\<rparr>"
    using assms unfolding settled_def settled_status_def by blast
  have core: "stays live L (\<lambda>_. True) (reconcileCoreSecret K (lib_rsa_GenerateKey lib) a)"
  proof (cases "ExistingSecret (Deployment (a_Spec a)) = []")
    case True
    with assms cou_Secret_rests show ?thesis
      by (auto simp: reconcileCoreSecret_def settled_def intro!: stays_call)
  qed (simp add: reconcileCoreSecret_def stays_pure)
  have config: "stays live L (\<lambda>_. True) (reconcileConfigMap K a rendered)"
    unfolding reconcileConfigMap_def Let_def
    by (rule stays_call, erule cou_ConfigMap_rests) (use assms in \<open>simp add: settled_def new_meta_def meta_key_def\<close>)
  have service: "stays live L (\<lambda>_. True) (reconcileService K a)"
    unfolding reconcileService_def Let_def
    by (rule stays_call, erule cou_Service_rests) (use assms in \<open>simp add: settled_def\<close>)
  have claim: "stays live L (\<lambda>_. True) (reconcileDataPVC K a)"
    using assms reconcileDataPVC_stays unfolding settled_def by blast
  have dep: "stays live L (\<lambda>n. n = d_ReadyReplicas d)
      (reconcileDeployment K a (clients \<noteq> []) (configChecksum rendered))"
    unfolding reconcileDeployment_def Let_def desired_keys
  proof (rule stays_bind[where Q = "\<lambda>x. x = d"], rule staysI)
    fix w r w'
    assume w: "live w = L" and run: "cou_Deployment K (newDeployment (authName a) (authNamespace a))
      (deploymentMutate K a (buildDeployment a (clients \<noteq> []) (configChecksum rendered))) w = (r, w')"
    have w': "live w' = live w"
      by (rule cou_Deployment_rests[OF run]) (use assms w in \<open>simp add: settled_def\<close>)
    have "x = d" if "r = Inr x" for x
      using cou_Deployment_done[OF run[unfolded that]] w w' d by simp
    with w w' show "live w' = L \<and> (\<forall>x. r = Inr x \<longrightarrow> x = d)" by simp
  qed (simp add: stays_pure)
  have status: "stays live L (\<lambda>_. True) (updateStatus K a (d_ReadyReplicas d) ?ids ds)"
    unfolding updateStatus_def
  proof (rule staysI)
    fix w r w'
    assume w: "live w = L" and run: "status_Authelia K (withStatus a (d_ReadyReplicas d) ?ids ds) w = (r, w')"
    have same: "a0\<lparr>a_Status := (a_Status a)\<lparr>ReadyReplicas := d_ReadyReplicas d, OIDCClients := ?ids,
        AccessControlRules := ds\<rparr>\<rparr> = a0" using a0(2) by simp
    from status_Authelia_effect[OF run] show "live w' = L \<and> (\<forall>x. r = Inr x \<longrightarrow> True)"
      using w a0(1) same by (auto simp: wrote_status_Authelia_def Let_def fun_upd_idem)
  qed
  show ?thesis unfolding writeObjects_def
    by (intro stays_bind[OF core] stays_bind[OF config] stays_bind[OF service] stays_bind[OF claim]
        stays_bind[OF dep] stays_pure) (auto intro: stays_bind[OF status] stays_pure)
qed

end


text \<open>
  What makes the rendered text a function of the objects: no two clients of an instance that
  are ready have the same ID, and the Ingresses are stored under their own names, with
  host names free of slashes as the API server demands.
\<close>

definition distinct_ids :: "Authelia \<Rightarrow> objects \<Rightarrow> bool" where
  "distinct_ids a L \<longleftrightarrow>
     (\<forall>k j c c'. o_OAuthClients L k = Some c \<longrightarrow> o_OAuthClients L j = Some c' \<longrightarrow>
        clientTargets c a \<and> ready L c \<longrightarrow> clientTargets c' a \<and> ready L c' \<longrightarrow>
        effectiveClientID c = effectiveClientID c' \<longrightarrow> k = j)"

definition plain_ingresses :: "objects \<Rightarrow> bool" where
  "plain_ingresses L \<longleftrightarrow>
     (\<forall>k i. o_Ingresses L k = Some i \<longrightarrow> plain_ingress i \<and> meta_key (ing_Meta i) = k)"

lemma sort_perm: "mset xs = mset ys \<Longrightarrow> sort xs = sort ys"
  by (metis mset_sort properties_for_sort sorted_sort)

lemma sort_map_perm: "mset xs = mset ys \<Longrightarrow> sort (map f xs) = sort (map f ys)"
  by (intro sort_perm) simp

text \<open>The clients of an instance, given the digests and a listing of all clients.\<close>

abbreviation clientsOf :: "objects \<Rightarrow> Authelia \<Rightarrow> AutheliaOAuthClient list \<Rightarrow> oidcClient list" where
  "clientsOf L a cs \<equiv> map (\<lambda>c. rendered_client c (digestIn L c)) (filter (\<lambda>c. clientTargets c a \<and> ready L c) cs)"

lemma distinct_ids_clients:
  assumes "distinct_ids a L" and "lists_all (o_OAuthClients L) cs"
  shows "distinct (map (\<lambda>c. ClientID (oc_spec c)) (clientsOf L a cs))"
proof -
  have "distinct (map effectiveClientID (filter (\<lambda>c. clientTargets c a \<and> ready L c) cs))"
    using assms(2) by (rule lists_all_distinct) (use assms(1) in \<open>unfold distinct_ids_def, blast\<close>)
  then show ?thesis by (simp add: comp_def rendered_client_def)
qed

lemma plain_ingresses_listed:
  assumes "plain_ingresses L" and "lists_all (o_Ingresses L) ings"
  shows "list_all plain_ingress ings" and "distinct (map (meta_key \<circ> ing_Meta) ings)"
proof -
  show "list_all plain_ingress ings"
    using lists_all_set[OF assms(2)] assms(1) by (auto simp: list_all_iff plain_ingresses_def ran_def)
  show "distinct (map (meta_key \<circ> ing_Meta) ings)"
    using lists_all_distinct[OF assms(2), of "\<lambda>_. True" "meta_key \<circ> ing_Meta"] assms(1)
    unfolding plain_ingresses_def by fastforce
qed

text \<open>
  The objects that decide what an instance is configured to be: clients, digests, Ingresses.
\<close>

definition same_inputs :: "objects \<Rightarrow> objects \<Rightarrow> bool" where
  "same_inputs L L' \<longleftrightarrow> o_OAuthClients L' = o_OAuthClients L \<and> o_Ingresses L' = o_Ingresses L \<and>
     digestIn L' = digestIn L"

lemma same_inputs_clients:
  assumes "same_inputs L L'"
  shows "o_OAuthClients L' = o_OAuthClients L" "o_Ingresses L' = o_Ingresses L" "digestIn L' = digestIn L"
    "ready L' = ready L"
  using assms by (auto simp: same_inputs_def fun_eq_iff ready_def)

lemma same_inputs_ids: "same_inputs L L' \<Longrightarrow> distinct_ids a L' = distinct_ids a L"
  by (simp add: distinct_ids_def same_inputs_clients)

text \<open>
  The Authelia controller has nothing left to do for an instance: with the text rendered from the
  objects \<open>L\<close>, the objects \<open>L'\<close> are the ones a run writes.
\<close>

definition instance_rests_in :: "'w kube \<Rightarrow> golib \<Rightarrow> Authelia \<Rightarrow> objects \<Rightarrow> objects \<Rightarrow> bool" where
  "instance_rests_in K lib a L L' \<longleftrightarrow>
     (\<exists>cs ings rendered. lists_all (o_OAuthClients L) cs \<and> lists_all (o_Ingresses L) ings \<and>
       (let clients = clientsOf L a cs in
        renderConfig (lib_sort_Slice lib) (lib_yaml_Marshal lib) (Settings (a_Spec a)) clients
          (map ar_rule (allRules ings)) (Hostname (a_Spec a)) = Inr rendered \<and>
        settled K lib a (clients \<noteq> []) rendered (sort (map (\<lambda>c. ClientID (oc_spec c)) clients))
          (concat (map ruleDomains (allRules ings))) L'))"

definition instance_rests :: "'w kube \<Rightarrow> golib \<Rightarrow> Authelia \<Rightarrow> objects \<Rightarrow> bool" where
  "instance_rests K lib a L = instance_rests_in K lib a L L"

lemma clientTargets_status: "clientTargets c (withStatus a n ids ds) = clientTargets c a"
  by (simp add: clientTargets_def)

lemma distinct_ids_status: "distinct_ids (withStatus a n ids ds) L = distinct_ids a L"
  by (simp only: distinct_ids_def clientTargets_status)

lemma settled_status_free:
  "settled K lib (withStatus a n ids ds) oidc rendered ids' ds' L = settled K lib a oidc rendered ids' ds' L"
  by (simp add: settled_def settled_status_def claim_stored_def status_names status_builds status_mutates)

lemma instance_rests_status: "instance_rests K lib (withStatus a n ids ds) L = instance_rests K lib a L"
  by (simp add: instance_rests_def instance_rests_in_def settled_status_free clientTargets_status)

context kube_fresh
begin

lemma authelia_resource_stored:
  assumes get: "get_Authelia K req w = (Inr a, w0)" and key: "meta_key (a_Meta a) = req"
    and run: "ReconcileAuthelia K lib req w = (r, w')"
  shows "\<exists>n ids ds. o_Authelias (live w') req = Some (withStatus a n ids ds)"
proof (rule rtranclp_keeps[OF ReconcileAuthelia_steps[OF run get]])
  have "a = withStatus a (ReadyReplicas (a_Status a)) (OIDCClients (a_Status a)) (AccessControlRules (a_Status a))"
    by (cases a; cases "a_Status a") simp
  with get_Authelia_current[OF get]
  show "\<exists>n ids ds. o_Authelias (live w) req = Some (withStatus a n ids ds)" by metis
next
  fix L L'
  assume "quiet L L' \<or> authelia_write K lib a L L'"
    and "\<exists>n ids ds. o_Authelias L req = Some (withStatus a n ids ds)"
  then show "\<exists>n ids ds. o_Authelias L' req = Some (withStatus a n ids ds)"
    by (auto simp: quiet_def wrote_defs Let_def key elim!: authelia_write.cases) blast+
qed

lemma authelia_inputs:
  assumes "get_Authelia K req w = (Inr a, w0)" and "ReconcileAuthelia K lib req w = (r, w')"
  shows "same_inputs (live w) (live w')"
  unfolding same_inputs_def
  by (rule rtranclp_keeps[OF ReconcileAuthelia_steps[OF assms(2,1)]])
    (auto simp: quiet_def dest: authelia_write_inputs)

lemma authelia_run_rests:
  assumes get: "get_Authelia K req w = (Inr a, w0)" and run: "ReconcileAuthelia K lib req w = (Inr res, w')"
  shows "instance_rests K lib a (live w')"
proof -
  have w0: "live w0 = live w" using get_Authelia_reads[OF get] by simp
  from get run have "reconcileBody K lib a w0 = (Inr res, w')" by (simp add: ReconcileAuthelia_def)
  then obtain clients missing u1 rules ds u2 rendered where
    body: "collectClients K a w0 = (Inr (clients, missing), u1)" "collectIngressRules K u1 = (Inr (rules, ds), u2)"
      "renderConfig (lib_sort_Slice lib) (lib_yaml_Marshal lib) (Settings (a_Spec a)) clients rules
         (Hostname (a_Spec a)) = Inr rendered"
      "writeObjects K lib a clients missing ds rendered u2 = (Inr res, w')" "live u1 = live w"
    by (cases rule: reconcileBody_runs) (auto simp: w0)
  obtain cs where cs: "lists_all (o_OAuthClients (live w)) cs" "clients = clientsOf (live w) a cs"
    by (rule collectClients_current[OF body(1), unfolded w0])
  obtain ings where ings: "lists_all (o_Ingresses (live w)) ings" "rules = map ar_rule (allRules ings)"
      "ds = concat (map ruleDomains (allRules ings))"
    by (rule collectIngressRules_current[OF body(2), unfolded body(5)])
  have "instance_rests_in K lib a (live w) (live w')"
    unfolding instance_rests_in_def Let_def
    using cs(1) ings(1) body(3)[unfolded cs(2) ings(2)] writeObjects_settles[OF body(4), unfolded cs(2) ings(3)]
    by blast
  then show ?thesis using same_inputs_clients[OF authelia_inputs[OF get run]]
    by (simp add: instance_rests_def instance_rests_in_def)
qed

lemma authelia_stays:
  assumes srt: "slice_sort (lib_sort_Slice lib)" and ings: "plain_ingresses (live w)"
    and rest: "\<And>a. o_Authelias (live w) req = Some a \<Longrightarrow>
      distinct_ids a (live w) \<and> instance_rests K lib a (live w)"
    and run: "ReconcileAuthelia K lib req w = (r, w')"
  shows "live w' = live w"
proof -
  obtain g v where g: "get_Authelia K req w = (g, v)" by (rule prod.exhaust)
  have v: "live v = live w" using get_Authelia_reads[OF g] by simp
  show ?thesis
  proof (cases g)
    case (Inl e)
    with run g v show ?thesis by (simp add: ReconcileAuthelia_def)
  next
    case (Inr a)
    then have ids: "distinct_ids a (live w)" and "instance_rests K lib a (live w)"
      using rest get_Authelia_current[of req w a v] g by blast+
    then obtain cs is1 rendered where cs: "lists_all (o_OAuthClients (live w)) cs"
      and is1: "lists_all (o_Ingresses (live w)) is1"
      and out: "renderConfig (lib_sort_Slice lib) (lib_yaml_Marshal lib) (Settings (a_Spec a))
         (clientsOf (live w) a cs) (map ar_rule (allRules is1)) (Hostname (a_Spec a)) = Inr rendered"
      and settled: "settled K lib a (clientsOf (live w) a cs \<noteq> []) rendered
         (sort (map (\<lambda>c. ClientID (oc_spec c)) (clientsOf (live w) a cs)))
         (concat (map ruleDomains (allRules is1))) (live w)"
      unfolding instance_rests_def instance_rests_in_def Let_def by blast
    from run g Inr have "reconcileBody K lib a v = (r, w')" by (simp add: ReconcileAuthelia_def)
    then show ?thesis
    proof (cases rule: reconcileBody_runs)
      case early
      with v show ?thesis by simp
    next
      case (wrote clients missing v1 rules ds v2 rendered2)
      obtain cs2 where cs2: "lists_all (o_OAuthClients (live w)) cs2" "clients = clientsOf (live w) a cs2"
        by (rule collectClients_current[OF wrote(1)]) (simp add: v)
      obtain is2 where is2: "lists_all (o_Ingresses (live w)) is2" "rules = map ar_rule (allRules is2)"
          "ds = concat (map ruleDomains (allRules is2))"
        by (rule collectIngressRules_current[OF wrote(2)]) (simp add: wrote(5) v)
      have perm: "mset (clientsOf (live w) a cs) = mset clients"
        using lists_all_perm[OF cs cs2(1)] by (simp add: cs2(2))
      have same: "allRules is1 = allRules is2"
        unfolding allRules_def using lists_all_perm[OF is1 is2(1)] plain_ingresses_listed[OF ings is1]
        by (rule sorted_rules_perm)
      have "rendered2 = rendered"
        using renderConfig_perm[OF srt perm distinct_ids_clients[OF ids cs]] out wrote(3)
        by (simp add: same is2(2))
      moreover have "sort (map (\<lambda>c. ClientID (oc_spec c)) (clientsOf (live w) a cs)) =
          sort (map (\<lambda>c. ClientID (oc_spec c)) clients)"
        using perm by (rule sort_map_perm)
      moreover have "(clientsOf (live w) a cs = []) = (clients = [])" using perm by (metis mset_zero_iff)
      ultimately have "settled K lib a (clients \<noteq> []) rendered2
          (sort (map (\<lambda>c. ClientID (oc_spec c)) clients)) ds (live w)"
        using settled same is2(3) by simp
      from staysD[OF writeObjects_stays[OF this] wrote(4)] wrote(6) v show ?thesis by simp
    qed
  qed
qed

lemma authelia_second_run:
  assumes srt: "slice_sort (lib_sort_Slice lib)"
    and get: "get_Authelia K req w = (Inr a, w0)" and key: "meta_key (a_Meta a) = req"
    and run: "ReconcileAuthelia K lib req w = (Inr res, w1)"
    and ids: "distinct_ids a (live w)" and ings: "plain_ingresses (live w)"
    and again: "ReconcileAuthelia K lib req w1 = (r, w2)"
  shows "live w2 = live w1"
proof (rule authelia_stays[OF srt _ _ again])
  note same = authelia_inputs[OF get run]
  show "plain_ingresses (live w1)" using ings same by (simp add: plain_ingresses_def same_inputs_def)
  fix a1
  assume "o_Authelias (live w1) req = Some a1"
  then obtain n ids' ds' where a1: "a1 = withStatus a n ids' ds'"
    using authelia_resource_stored[OF get key run] by auto
  show "distinct_ids a1 (live w1) \<and> instance_rests K lib a1 (live w1)"
    using ids authelia_run_rests[OF get run] same_inputs_ids[OF same]
    by (simp only: a1 distinct_ids_status instance_rests_status)
qed

end

section \<open>Properties\<close>

text \<open>The OAuth client controller comes to rest: once a run has succeeded in a quiet cluster, the
  next run for the same client, whatever it returns, leaves every object as it is: the secret
  and its digest are not generated again, no owner or label is set anew, and the status is not
  written a second time.\<close>

theorem oauth_comes_to_rest:
  assumes "kube_fresh K live" and "get_OAuthClient K req w = (Inr c, w0)" and "meta_key (c_Meta c) = req"
    and "ReconcileOAuthClient K fips req w = (Inr res, w1)" and "ReconcileOAuthClient K fips req w1 = (r, w2)"
  shows "live w2 = live w1"
  by (rule kube_fresh.oauth_second_run[OF assms(1,4,2,3,5)])

theorem oauth_comes_to_rest_witness:
  "\<exists>w1. ReconcileOAuthClient mem_kube False (''web'', ''grafana'') sample_oauth_server =
       (Inr \<lparr>RequeueAfter = 0\<rparr>, w1) \<and>
     mem_live (snd (ReconcileOAuthClient mem_kube False (''web'', ''grafana'') w1)) = mem_live w1"
proof -
  obtain w1 where run: "ReconcileOAuthClient mem_kube False (''web'', ''grafana'') sample_oauth_server =
     (Inr \<lparr>RequeueAfter = 0\<rparr>, w1)" using sample_oauth_run by blast
  have "meta_key (c_Meta sample_oauth) = (''web'', ''grafana'')"
    by (simp add: sample_oauth_def new_meta_def meta_key_def)
  from oauth_comes_to_rest[OF mem.kube_fresh_axioms sample_get_client this run prod.collapse[symmetric]] run
  show ?thesis by blast
qed

text \<open>The Authelia controller comes to rest: once a run has succeeded in a quiet cluster, the next
  run for the same resource, whatever it returns and in whatever order the objects are listed,
  leaves every object as it is, provided that the ready clients of the instance have distinct
  IDs. In particular there is no second rollout and no second set of secrets, and the status
  update, which is made on every run, stores the status that is there.\<close>

theorem authelia_comes_to_rest:
  assumes "kube_fresh K live" and "slice_sort (lib_sort_Slice lib)"
    and "get_Authelia K req w = (Inr a, w0)" and "meta_key (a_Meta a) = req"
    and "ReconcileAuthelia K lib req w = (Inr res, w1)"
    and "distinct_ids a (live w)" and "plain_ingresses (live w)"
    and "ReconcileAuthelia K lib req w1 = (r, w2)"
  shows "live w2 = live w1"
  by (rule kube_fresh.authelia_second_run[OF assms])

theorem authelia_comes_to_rest_witness:
  "\<exists>w1. ReconcileAuthelia mem_kube sample_lib (''auth'', ''sso'') sample_server =
       (Inr \<lparr>RequeueAfter = 10 * second\<rparr>, w1) \<and>
     mem_live (snd (ReconcileAuthelia mem_kube sample_lib (''auth'', ''sso'') w1)) = mem_live w1"
proof -
  obtain w1 where run: "ReconcileAuthelia mem_kube sample_lib (''auth'', ''sso'') sample_server =
     (Inr \<lparr>RequeueAfter = 10 * second\<rparr>, w1)" using sample_run by blast
  have srt: "slice_sort (lib_sort_Slice sample_lib)"
    by (simp add: sample_lib_def stable.slice_sort_axioms)
  have ids: "distinct_ids sample_authelia (mem_live sample_server)"
    by (simp add: distinct_ids_def mem_live_def sample_server_def)
  have "plain_ingress sample_ingress" "meta_key (ing_Meta sample_ingress) = (''web'', ''grafana'')"
    by code_simp+
  then have "plain_ingresses (mem_live sample_server)"
    by (simp add: plain_ingresses_def mem_live_def sample_server_def)
  from authelia_comes_to_rest[OF mem.kube_fresh_axioms srt sample_get sample_key run ids this
      prod.collapse[symmetric]] run
  show ?thesis by blast
qed

text \<open>A server with one instance and one client whose Secret exists.\<close>

definition sample_system :: server where
  "sample_system =
     sample_oauth_server\<lparr>m_Authelias := [((''auth'', ''sso''), sample_authelia)], m_tape := sample_tape\<rparr>"

lemma sample_render_client:
  "renderConfig stable_sort (\<lambda>_. Some ''yaml'') sample_settings
     [rendered_client sample_oauth ''digest-a''] (map ar_rule (allRules [])) ''sso.example.com'' = Inr ''yaml''"
  by code_simp

lemma sample_system_runs:
  "\<exists>w1. ReconcileOAuthClient mem_kube False (''web'', ''grafana'') sample_system = (Inr \<lparr>RequeueAfter = 0\<rparr>, w1) \<and>
     get_Authelia mem_kube (''auth'', ''sso'') w1 = (Inr sample_authelia, w1) \<and>
     (\<exists>w3. ReconcileAuthelia mem_kube sample_lib (''auth'', ''sso'') w1 = (Inr \<lparr>RequeueAfter = 0\<rparr>, w3))"
proof -
  obtain d t where "generatedCoreSecretData sample_rsa (Some Map.empty) sample_tape = (Inr d, t)"
    using sample_core_run by auto
  note run = this sample_render_client[simplified rendered_client_def sample_oauth_def sample_spec_def
      effectiveClientID_def, simplified]
  then show ?thesis
    by (simp add: ReconcileOAuthClient_def mem_run_simps sample_system_def sample_oauth_simps Let_def
        oauthMutate_def fill_done setOwner_def oauthSecretName_def has_value_def effectiveClientID_def
        ReconcileAuthelia_def sample_lib_def reconcileBody_def collectClients_def collectIngressRules_eq
        clientTargets_def empty_server_def sample_authelia_def clientSecretDigest_def secret_data_def
        data_value_def writeObjects_def reconcileCoreSecret_def coreMutate_def coreSecretName_def
        reconcileConfigMap_def configMapMutate_def reconcileService_def serviceMutate_def newService_def
        reconcileDataPVC_def buildDataPVC_def dataPVCName_def reconcileDeployment_def
        deploymentMutate_def newDeployment_def updateStatus_def)
qed

text \<open>C3: A client reaches the configuration: when the OAuth client controller has handled a client and
  the Authelia controller has then handled the instance the client refers to, both with
  success, the ConfigMap of the instance holds a text that was marshalled from a tree whose
  list of clients has the client, with its effective ID and, unless it is public, with the
  digest that is stored in its Secret; and the Deployment has OIDC enabled and carries the
  checksum of that text.\<close>

theorem client_reaches_config:
  assumes K: "kube_fresh K live" and srt: "slice_sort (lib_sort_Slice lib)"
    and getc: "get_OAuthClient K creq w = (Inr c, w0)" and keyc: "meta_key (c_Meta c) = creq"
    and runc: "ReconcileOAuthClient K fips creq w = (Inr r1, w1)"
    and geta: "get_Authelia K areq w1 = (Inr a, w2)" and keya: "meta_key (a_Meta a) = areq"
    and runa: "ReconcileAuthelia K lib areq w1 = (Inr r2, w3)" and "clientTargets c a"
  shows "\<exists>digest clients root rendered.
     (Public (c_Spec c) \<or>
        digest \<noteq> [] \<and> field_is (oauthSecretKey c) ''client_secret_digest'' digest (live w3)) \<and>
     rendered_client c digest \<in> set clients \<and>
     get_path clientsPath root = Some (JArr (map (\<lambda>c. JObj (clientToMap c)) clients)) \<and>
     lib_yaml_Marshal lib (Some root) = Some rendered \<and>
     config_stored a rendered (live w3) \<and> deployment_stored a True rendered (live w3)"
proof -
  let ?c = "withSecretName c"
  let ?d = "digestIn (live w1) ?c"
  have api: "kube_api K live quiet" using K by (rule kube_fresh.axioms)
  have stored: "?c \<in> ran (o_OAuthClients (live w1))"
    using kube_fresh.oauth_client_stored[OF K runc getc keyc] by (rule ranI)
  note digest = kube_fresh.oauth_digest_stored[OF K runc getc keyc]
  from kube_fresh.authelia_established[OF K geta keya runa]
  obtain cs rules rendered where cs: "set cs = ran (o_OAuthClients (live w1))"
    and out: "renderConfig (lib_sort_Slice lib) (lib_yaml_Marshal lib) (Settings (a_Spec a))
       (map (\<lambda>c. rendered_client c (digestIn (live w1) c))
         (filter (\<lambda>c. clientTargets c a \<and> ready (live w1) c) cs)) rules (Hostname (a_Spec a)) = Inr rendered"
    and objs: "config_stored a rendered (live w3)" "deployment_stored a (map (\<lambda>c. rendered_client c (digestIn (live w1) c))
         (filter (\<lambda>c. clientTargets c a \<and> ready (live w1) c) cs) \<noteq> []) rendered (live w3)"
    by (auto simp: Let_def)
  let ?clients = "map (\<lambda>c. rendered_client c (digestIn (live w1) c))
     (filter (\<lambda>c. clientTargets c a \<and> ready (live w1) c) cs)"
  have "clientTargets ?c a = clientTargets c a" by (simp add: clientTargets_def)
  then have "clientTargets ?c a \<and> ready (live w1) ?c" using assms(9) digest(1) by (auto simp: ready_def)
  then have mem: "rendered_client ?c ?d \<in> set ?clients" using stored cs by auto
  then have ne: "?clients \<noteq> []" by (metis empty_iff list.set(1))
  from srt out ne obtain root clients where r: "lib_yaml_Marshal lib (Some root) = Some rendered"
      "mset clients = mset ?clients"
      "get_path clientsPath root = Some (JArr (map (\<lambda>c. JObj (clientToMap c)) clients))"
    by (rule renderConfig_clients)
  have "rendered_client ?c ?d = rendered_client c ?d"
    by (simp add: rendered_client_def effectiveClientID_def)
  with mem r(2) have in_clients: "rendered_client c ?d \<in> set clients" by (metis set_mset_mset)
  have "field_is (oauthSecretKey c) ''client_secret_digest'' ?d (live w3)" if "\<not> Public (c_Spec c)"
    using kube_api.ReconcileAuthelia_steps[OF api runa geta] digest(2)[OF that]
    by (rule rtranclp_keeps)
      (use kube_api.authelia_write_keeps_field[OF api] digest(1)[OF that] in \<open>auto simp: quiet_def\<close>)
  then show ?thesis
    using digest(1) in_clients r objs ne by (intro exI[of _ ?d], intro exI[of _ clients] exI[of _ root], intro exI[of _ rendered]) auto
qed


theorem client_reaches_config_witness:
  "\<exists>w1 w3 digest. ReconcileOAuthClient mem_kube False (''web'', ''grafana'') sample_system =
       (Inr \<lparr>RequeueAfter = 0\<rparr>, w1) \<and>
     ReconcileAuthelia mem_kube sample_lib (''auth'', ''sso'') w1 = (Inr \<lparr>RequeueAfter = 0\<rparr>, w3) \<and>
     digest \<noteq> [] \<and>
     field_is (''web'', ''grafana-oauth-secret'') ''client_secret_digest'' digest (mem_live w3)"
proof -
  from sample_system_runs obtain w1 w3 where
    runc: "ReconcileOAuthClient mem_kube False (''web'', ''grafana'') sample_system = (Inr \<lparr>RequeueAfter = 0\<rparr>, w1)"
    and geta: "get_Authelia mem_kube (''auth'', ''sso'') w1 = (Inr sample_authelia, w1)"
    and runa: "ReconcileAuthelia mem_kube sample_lib (''auth'', ''sso'') w1 = (Inr \<lparr>RequeueAfter = 0\<rparr>, w3)"
    by blast
  have srt: "slice_sort (lib_sort_Slice sample_lib)"
    by (simp add: sample_lib_def stable.slice_sort_axioms)
  have getc: "get_OAuthClient mem_kube (''web'', ''grafana'') sample_system = (Inr sample_oauth, sample_system)"
    by (simp add: mem_run_simps sample_system_def sample_oauth_simps)
  have keyc: "meta_key (c_Meta sample_oauth) = (''web'', ''grafana'')"
    by (simp add: sample_oauth_def new_meta_def meta_key_def)
  have "clientTargets sample_oauth sample_authelia"
    by (simp add: clientTargets_def sample_oauth_def sample_spec_def sample_authelia_def)
  from client_reaches_config[OF mem.kube_fresh_axioms srt getc keyc runc geta sample_key runa this] runc runa
  show ?thesis by (auto simp: sample_oauth_def sample_spec_def oauthSecretName_def new_meta_def)
qed

end
