(* ===== verification/Quiescence.thy ===== *)
theory Quiescence
  imports Convergence
begin

text \<open>
  The whole operator at rest.

  In a quiet cluster one round of successful runs, first for every client and then for every
  instance, brings all objects into a state that no further request changes, whatever the order
  and the outcome of the runs. The argument is that the runs for different resources work on
  different objects: a write for one client or instance leaves the others at rest, because the
  names of the objects are made from the names of the resources by suffixes that tell them
  apart, and a write of an instance changes nothing that configurations are rendered from.
\<close>

section \<open>Regular clusters and rest\<close>

text \<open>
  Every resource is stored under its own name, clients of the same instance have different IDs,
  and the host names of Ingresses are free of slashes. This depends only on what users write.
\<close>

definition well_keyed :: "objects \<Rightarrow> bool" where
  "well_keyed L \<longleftrightarrow>
     (\<forall>k c. o_OAuthClients L k = Some c \<longrightarrow> meta_key (c_Meta c) = k) \<and>
     (\<forall>k a. o_Authelias L k = Some a \<longrightarrow> meta_key (a_Meta a) = k)"

definition unique_ids :: "objects \<Rightarrow> bool" where
  "unique_ids L \<longleftrightarrow>
     (\<forall>k j i c c' a. o_OAuthClients L k = Some c \<longrightarrow> o_OAuthClients L j = Some c' \<longrightarrow>
        o_Authelias L i = Some a \<longrightarrow> clientTargets c a \<longrightarrow> clientTargets c' a \<longrightarrow>
        effectiveClientID c = effectiveClientID c' \<longrightarrow> k = j)"

definition regular :: "objects \<Rightarrow> bool" where
  "regular L \<longleftrightarrow> well_keyed L \<and> unique_ids L \<and> plain_ingresses L"

definition client_at_rest :: "'w kube \<Rightarrow> bool \<Rightarrow> nsname \<Rightarrow> objects \<Rightarrow> bool" where
  "client_at_rest K fips k L \<longleftrightarrow> (\<forall>c. o_OAuthClients L k = Some c \<longrightarrow> client_rests K fips c L)"

definition instance_at_rest :: "'w kube \<Rightarrow> golib \<Rightarrow> nsname \<Rightarrow> objects \<Rightarrow> bool" where
  "instance_at_rest K lib k L \<longleftrightarrow> (\<forall>a. o_Authelias L k = Some a \<longrightarrow> instance_rests K lib a L)"

definition at_rest :: "'w kube \<Rightarrow> golib \<Rightarrow> bool \<Rightarrow> objects \<Rightarrow> bool" where
  "at_rest K lib fips L \<longleftrightarrow> (\<forall>k. client_at_rest K fips k L) \<and> (\<forall>k. instance_at_rest K lib k L)"

text \<open>Requests that are all served with success.\<close>

definition succeeds :: "'w kube \<Rightarrow> golib \<Rightarrow> bool \<Rightarrow> request \<Rightarrow> 'w \<Rightarrow> bool" where
  "succeeds K lib fips r w =
     (case r of
        AutheliaRequest req \<Rightarrow> \<not> isl (fst (ReconcileAuthelia K lib req w))
      | ClientRequest req \<Rightarrow> \<not> isl (fst (ReconcileOAuthClient K fips req w)))"

fun all_succeed :: "'w kube \<Rightarrow> golib \<Rightarrow> bool \<Rightarrow> request list \<Rightarrow> 'w \<Rightarrow> bool" where
  "all_succeed K lib fips [] w \<longleftrightarrow> True"
| "all_succeed K lib fips (r # rs) w \<longleftrightarrow>
     succeeds K lib fips r w \<and> all_succeed K lib fips rs (handle K lib fips r w)"

lemma serve_Nil [simp]: "serve K lib fips [] w = w"
  by (simp add: serve_def)

lemma serve_Cons [simp]: "serve K lib fips (r # rs) w = serve K lib fips rs (handle K lib fips r w)"
  by (simp add: serve_def)

lemma serve_append: "serve K lib fips (rs @ rs') w = serve K lib fips rs' (serve K lib fips rs w)"
  by (simp add: serve_def)

lemma all_succeed_append:
  "all_succeed K lib fips (rs @ rs') w \<longleftrightarrow>
     all_succeed K lib fips rs w \<and> all_succeed K lib fips rs' (serve K lib fips rs w)"
  by (induction rs arbitrary: w) auto

lemma unique_ids_distinct: "unique_ids L \<Longrightarrow> o_Authelias L i = Some a \<Longrightarrow> distinct_ids a L"
  unfolding unique_ids_def distinct_ids_def by blast

lemma user_state_client:
  assumes "user_state L' = user_state L" and "o_OAuthClients L' k = Some c'"
  obtains c where "o_OAuthClients L k = Some c" "c_Meta c = c_Meta c'" "c_Spec c = c_Spec c'"
proof -
  have "(\<lambda>k. map_option (\<lambda>c. (c_Meta c, c_Spec c)) (o_OAuthClients L' k)) =
      (\<lambda>k. map_option (\<lambda>c. (c_Meta c, c_Spec c)) (o_OAuthClients L k))"
    using assms(1) by (simp add: user_state_def)
  from fun_cong[OF this, of k] assms(2) that show thesis by (cases "o_OAuthClients L k") auto
qed

lemma user_state_instance:
  assumes "user_state L' = user_state L" and "o_Authelias L' k = Some a'"
  obtains a where "o_Authelias L k = Some a" "a_Meta a = a_Meta a'" "a_Spec a = a_Spec a'"
proof -
  have "(\<lambda>k. map_option (\<lambda>a. (a_Meta a, a_Spec a)) (o_Authelias L' k)) =
      (\<lambda>k. map_option (\<lambda>a. (a_Meta a, a_Spec a)) (o_Authelias L k))"
    using assms(1) by (simp add: user_state_def)
  from fun_cong[OF this, of k] assms(2) that show thesis by (cases "o_Authelias L k") auto
qed

lemma regular_keys:
  assumes "regular L"
  shows "o_OAuthClients L k = Some c \<Longrightarrow> meta_key (c_Meta c) = k"
    and "o_Authelias L k = Some a \<Longrightarrow> meta_key (a_Meta a) = k"
  using assms unfolding regular_def well_keyed_def by blast+

lemma regular_user_state:
  assumes same: "user_state L' = user_state L" and "regular L"
  shows "regular L'"
proof -
  have "well_keyed L'"
    unfolding well_keyed_def
  proof (intro conjI allI impI)
    show "meta_key (c_Meta c) = k" if "o_OAuthClients L' k = Some c" for k c
      by (rule user_state_client[OF same that], drule regular_keys(1)[OF assms(2)]) simp
    show "meta_key (a_Meta a) = k" if "o_Authelias L' k = Some a" for k a
      by (rule user_state_instance[OF same that], drule regular_keys(2)[OF assms(2)]) simp
  qed
  moreover have "unique_ids L'"
    unfolding unique_ids_def
  proof (intro allI impI)
    fix k j i c c' a
    assume *: "o_OAuthClients L' k = Some c" "o_OAuthClients L' j = Some c'" "o_Authelias L' i = Some a"
      "clientTargets c a" "clientTargets c' a" "effectiveClientID c = effectiveClientID c'"
    obtain d where d: "o_OAuthClients L k = Some d" "c_Meta d = c_Meta c" "c_Spec d = c_Spec c"
      by (rule user_state_client[OF same *(1)])
    obtain d' where d': "o_OAuthClients L j = Some d'" "c_Meta d' = c_Meta c'" "c_Spec d' = c_Spec c'"
      by (rule user_state_client[OF same *(2)])
    obtain b where b: "o_Authelias L i = Some b" "a_Meta b = a_Meta a" "a_Spec b = a_Spec a"
      by (rule user_state_instance[OF same *(3)])
    have "clientTargets d b = clientTargets c a" "clientTargets d' b = clientTargets c' a"
      "effectiveClientID d = effectiveClientID c" "effectiveClientID d' = effectiveClientID c'"
      by (simp_all add: clientTargets_def effectiveClientID_def d d' b)
    with *(4-6) have "clientTargets d b" "clientTargets d' b" "effectiveClientID d = effectiveClientID d'"
      by simp_all
    with assms(2) d(1) d'(1) b(1) show "k = j" unfolding regular_def unique_ids_def by blast
  qed
  moreover have "plain_ingresses L'"
    using assms by (simp add: regular_def plain_ingresses_def user_state_def)
  ultimately show ?thesis by (simp add: regular_def)
qed

section \<open>Writes for one resource leave the others at rest\<close>

lemma rests_other: "j \<noteq> k \<Longrightarrow> rests (store(j \<mapsto> x)) k f = rests store k f"
  by (simp add: rests_def)

lemma core_not_oauth: "n @ ''-secrets'' \<noteq> m @ ''-oauth-secret''"
proof
  assume "n @ ''-secrets'' = m @ ''-oauth-secret''"
  then have "last (n @ ''-secrets'') = last (m @ ''-oauth-secret'')" by simp
  then show False by simp
qed

context kube_api
begin

lemma oauth_write_client_at_rest:
  assumes "oauth_write K fips c L L'" and "regular L" and "k \<noteq> meta_key (c_Meta c)"
    and "client_at_rest K fips k L"
  shows "client_at_rest K fips k L'"
  unfolding client_at_rest_def
proof (intro allI impI)
  fix d
  assume "o_OAuthClients L' k = Some d"
  with assms(1) have d: "o_OAuthClients L k = Some d"
    by cases (use assms(3) in \<open>auto simp: wrote_defs Let_def\<close>)
  then have "meta_key (c_Meta d) \<noteq> meta_key (c_Meta c)" using assms(3) regular_keys(1)[OF assms(2)] by auto
  then have other: "oauthSecretKey c \<noteq> oauthSecretKey d" by (auto simp: meta_key_def oauthSecretName_def)
  have "client_rests K fips d L" using assms(4) d by (simp add: client_at_rest_def)
  with assms(1) show "client_rests K fips d L'"
    by cases (use other in \<open>auto simp: wrote_defs Let_def client_rests_def rests_other\<close>)
qed

lemma authelia_write_client_at_rest:
  assumes "authelia_write K lib a L L'" and "client_at_rest K fips k L"
  shows "client_at_rest K fips k L'"
  unfolding client_at_rest_def
proof (intro allI impI)
  fix d
  assume "o_OAuthClients L' k = Some d"
  then have rest: "client_rests K fips d L"
    using assms authelia_write_keeps_specs[OF assms(1)] by (simp add: client_at_rest_def)
  have other: "coreSecretKey a \<noteq> oauthSecretKey d" if "ExistingSecret (Deployment (a_Spec a)) = []"
    using that by (simp add: coreSecretName_def oauthSecretName_def core_not_oauth)
  from assms(1) show "client_rests K fips d L'"
    by cases (use rest other in \<open>auto simp: wrote_defs Let_def client_rests_def rests_other\<close>)
qed

lemma authelia_write_settled:
  assumes "authelia_write K lib a L L'" and "meta_key (a_Meta a) \<noteq> meta_key (a_Meta b)"
    and "settled K lib b oidc rendered ids ds L"
  shows "settled K lib b oidc rendered ids ds L'"
proof -
  have names: "(authNamespace a, authName a) \<noteq> (authNamespace b, authName b)"
    "(authNamespace a, configMapName a) \<noteq> (authNamespace b, configMapName b)"
    using assms(2) by (auto simp: meta_key_def configMapName_def)
  have core: "coreSecretKey a \<noteq> coreSecretKey b"
    if "ExistingSecret (Deployment (a_Spec a)) = []" "ExistingSecret (Deployment (a_Spec b)) = []"
    using assms(2) that by (auto simp: meta_key_def coreSecretName_def)
  have claim: "claim_stored b L'"
    using assms(3) authelia_write_keeps_claim[OF assms(1)] by (auto simp: settled_def claim_stored_def)
  note rest = assms(3)[unfolded settled_def]
  have secret: "rests (o_Secrets L') (coreSecretKey b) f"
    if "ExistingSecret (Deployment (a_Spec b)) = []" "rests (o_Secrets L) (coreSecretKey b) f" for f
    using assms(1) by cases (use core that in \<open>auto simp: wrote_defs Let_def rests_other\<close>)
  have config: "rests (o_ConfigMaps L') (authNamespace b, configMapName b) f"
    if "rests (o_ConfigMaps L) (authNamespace b, configMapName b) f" for f
    using assms(1) by cases (use names that in \<open>auto simp: wrote_defs Let_def rests_other new_meta_def meta_key_def\<close>)
  have service: "o_Services L' (authNamespace b, authName b) = o_Services L (authNamespace b, authName b)"
    using assms(1) by cases (use names in \<open>auto simp: wrote_defs Let_def\<close>)
  have deployment: "o_Deployments L' (authNamespace b, authName b) = o_Deployments L (authNamespace b, authName b)"
    using assms(1) by cases (use names in \<open>auto simp: wrote_defs Let_def\<close>)
  have stored: "o_Authelias L' (meta_key (a_Meta b)) = o_Authelias L (meta_key (a_Meta b))"
    using assms(1) by cases (use assms(2) in \<open>auto simp: wrote_defs Let_def\<close>)
  have "settled_status b ids ds L'" using rest by (simp add: settled_status_def deployment stored)
  moreover have "rests (o_Services L') (authNamespace b, authName b) f = rests (o_Services L) (authNamespace b, authName b) f"
    "rests (o_Deployments L') (authNamespace b, authName b) g =
       rests (o_Deployments L) (authNamespace b, authName b) g" for f g
    by (simp_all add: rests_def service deployment)
  ultimately show ?thesis using rest secret config claim unfolding settled_def by blast
qed

lemma authelia_write_instance_at_rest:
  assumes "authelia_write K lib a L L'" and "regular L" and "k \<noteq> meta_key (a_Meta a)"
    and "instance_at_rest K lib k L"
  shows "instance_at_rest K lib k L'"
  unfolding instance_at_rest_def
proof (intro allI impI)
  fix b
  assume "o_Authelias L' k = Some b"
  with assms(1) have b: "o_Authelias L k = Some b"
    by cases (use assms(3) in \<open>auto simp: wrote_defs Let_def\<close>)
  then have other: "meta_key (a_Meta a) \<noteq> meta_key (a_Meta b)" using assms(3) regular_keys(2)[OF assms(2)] by auto
  have "same_inputs L L'" using authelia_write_inputs[OF assms(1)] by (simp add: same_inputs_def)
  note same = same_inputs_clients[OF this]
  have "instance_rests K lib b L" using assms(4) b by (simp add: instance_at_rest_def)
  then show "instance_rests K lib b L'"
    unfolding instance_rests_def instance_rests_in_def Let_def same
    using authelia_write_settled[OF assms(1) other] by blast
qed

end

section \<open>Runs\<close>

context kube_fresh
begin

lemma handle_user_state: "user_state (live (handle K lib fips r w)) = user_state (live w)"
proof -
  have "(operator_step K lib fips (\<lambda>c. True) quiet)\<^sup>*\<^sup>* (live w) (live (handle K lib fips r w))"
    by (rule handle_steps) simp
  then show ?thesis
  proof (rule rtranclp_keeps[where P = "\<lambda>L. user_state L = user_state (live w)"])
    fix L L'
    assume "operator_step K lib fips (\<lambda>c. True) quiet L L'" and "user_state L = user_state (live w)"
    then show "user_state L' = user_state (live w)"
      by cases (auto simp: quiet_def authelia_write_user_state oauth_write_user_state)
  qed simp
qed

lemma handle_regular: "regular (live w) \<Longrightarrow> regular (live (handle K lib fips r w))"
  by (rule regular_user_state[OF handle_user_state])

lemma client_run:
  assumes run: "ReconcileOAuthClient K fips req w = (Inr res, w')" and reg: "regular (live w)"
  shows "client_at_rest K fips req (live w')"
    and "client_at_rest K fips k (live w) \<Longrightarrow> client_at_rest K fips k (live w')"
proof -
  obtain g v where g: "get_OAuthClient K req w = (g, v)" by (rule prod.exhaust)
  have v: "live v = live w" using get_OAuthClient_reads[OF g] by simp
  have both: "client_at_rest K fips req (live w') \<and>
      (client_at_rest K fips k (live w) \<longrightarrow> client_at_rest K fips k (live w'))"
  proof (cases g)
    case (Inl e)
    then have "e = NotFound" "w' = v"
      using run g by (auto simp: ReconcileOAuthClient_def IgnoreNotFound_def split: if_splits)
    then show ?thesis using g Inl v get_OAuthClient_missing by (auto simp: client_at_rest_def)
  next
    case (Inr c)
    note get = g[unfolded Inr]
    have key: "meta_key (c_Meta c) = req"
      by (rule regular_keys(1)[OF reg get_OAuthClient_current[OF get]])
    have req: "client_at_rest K fips req (live w')"
      using oauth_client_stored[OF run get key] oauth_run_rests[OF run get key] by (simp add: client_at_rest_def)
    moreover have "client_at_rest K fips k (live w')" if rest: "client_at_rest K fips k (live w)" and "k \<noteq> req"
    proof -
      have "regular (live w') \<and> client_at_rest K fips k (live w')"
        using ReconcileOAuthClient_steps[OF run get] conjI[OF reg rest]
      proof (rule rtranclp_keeps)
        fix L L'
        assume "quiet L L' \<or> oauth_write K fips c L L'" and L: "regular L \<and> client_at_rest K fips k L"
        then have step: "oauth_write K fips c L L'" by (simp add: quiet_def)
        with L \<open>k \<noteq> req\<close> key show "regular L' \<and> client_at_rest K fips k L'"
          using oauth_write_client_at_rest[OF step] regular_user_state[OF oauth_write_user_state[OF step]]
          by auto
      qed
      then show ?thesis by simp
    qed
    ultimately show ?thesis by (cases "k = req") auto
  qed
  then show "client_at_rest K fips req (live w')" by simp
  from both show "client_at_rest K fips k (live w) \<Longrightarrow> client_at_rest K fips k (live w')" by simp
qed

lemma instance_run:
  assumes run: "ReconcileAuthelia K lib req w = (Inr res, w')" and reg: "regular (live w)"
  shows "instance_at_rest K lib req (live w')"
    and "instance_at_rest K lib k (live w) \<Longrightarrow> instance_at_rest K lib k (live w')"
    and "client_at_rest K fips k (live w) \<Longrightarrow> client_at_rest K fips k (live w')"
proof -
  obtain g v where g: "get_Authelia K req w = (g, v)" by (rule prod.exhaust)
  have v: "live v = live w" using get_Authelia_reads[OF g] by simp
  have "instance_at_rest K lib req (live w') \<and>
      (instance_at_rest K lib k (live w) \<longrightarrow> instance_at_rest K lib k (live w')) \<and>
      (client_at_rest K fips k (live w) \<longrightarrow> client_at_rest K fips k (live w'))"
  proof (cases g)
    case (Inl e)
    then have "e = NotFound" "w' = v"
      using run g by (auto simp: ReconcileAuthelia_def IgnoreNotFound_def split: if_splits)
    then show ?thesis using g Inl v get_Authelia_missing by (auto simp: instance_at_rest_def)
  next
    case (Inr a)
    note get = g[unfolded Inr]
    note steps = ReconcileAuthelia_steps[OF run get]
    have key: "meta_key (a_Meta a) = req"
      by (rule regular_keys(2)[OF reg get_Authelia_current[OF get]])
    obtain n ids ds where stored: "o_Authelias (live w') req = Some (withStatus a n ids ds)"
      using authelia_resource_stored[OF get key run] by blast
    have "instance_rests K lib (withStatus a n ids ds) (live w')"
      by (simp only: instance_rests_status authelia_run_rests[OF get run])
    with stored have req: "instance_at_rest K lib req (live w')"
      unfolding instance_at_rest_def by (metis option.inject)
    moreover have "client_at_rest K fips k (live w')" if "client_at_rest K fips k (live w)"
      using steps that by (rule rtranclp_keeps) (auto simp: quiet_def intro: authelia_write_client_at_rest)
    moreover have "instance_at_rest K lib k (live w')" if rest: "instance_at_rest K lib k (live w)" and "k \<noteq> req"
    proof -
      have "regular (live w') \<and> instance_at_rest K lib k (live w')"
        using steps conjI[OF reg rest]
      proof (rule rtranclp_keeps)
        fix L L'
        assume "quiet L L' \<or> authelia_write K lib a L L'" and L: "regular L \<and> instance_at_rest K lib k L"
        then have step: "authelia_write K lib a L L'" by (simp add: quiet_def)
        with L \<open>k \<noteq> req\<close> key show "regular L' \<and> instance_at_rest K lib k L'"
          using authelia_write_instance_at_rest[OF step] regular_user_state[OF authelia_write_user_state[OF step]]
          by auto
      qed
      then show ?thesis by simp
    qed
    ultimately show ?thesis by (cases "k = req") auto
  qed
  then show "instance_at_rest K lib req (live w')"
    and "instance_at_rest K lib k (live w) \<Longrightarrow> instance_at_rest K lib k (live w')"
    and "client_at_rest K fips k (live w) \<Longrightarrow> client_at_rest K fips k (live w')" by simp_all
qed

lemma handle_stays:
  assumes "slice_sort (lib_sort_Slice lib)" and "regular (live w)" and "at_rest K lib fips (live w)"
  shows "live (handle K lib fips r w) = live w"
proof (cases r)
  case (AutheliaRequest req)
  have "live (snd (ReconcileAuthelia K lib req w)) = live w"
  proof (rule authelia_stays[OF assms(1) _ _ prod.collapse[symmetric]])
    show "plain_ingresses (live w)" using assms(2) by (simp add: regular_def)
    show "distinct_ids a (live w) \<and> instance_rests K lib a (live w)" if "o_Authelias (live w) req = Some a" for a
      using that assms(2,3) unique_ids_distinct unfolding regular_def at_rest_def instance_at_rest_def by blast
  qed
  with AutheliaRequest show ?thesis by (simp add: handle_def)
next
  case (ClientRequest req)
  have "live (snd (ReconcileOAuthClient K fips req w)) = live w"
    by (rule oauth_stays[OF _ prod.collapse[symmetric]])
      (use assms(3) in \<open>unfold at_rest_def client_at_rest_def, blast\<close>)
  with ClientRequest show ?thesis by (simp add: handle_def)
qed

lemma serve_stays:
  assumes "slice_sort (lib_sort_Slice lib)" and "regular (live w)" and "at_rest K lib fips (live w)"
  shows "live (serve K lib fips rs w) = live w"
  using assms(2,3)
proof (induction rs arbitrary: w)
  case (Cons r rs)
  note same = handle_stays[OF assms(1) Cons.prems, of r]
  from Cons.IH[of "handle K lib fips r w"] Cons.prems same show ?case by simp
qed simp

lemma client_round:
  assumes "all_succeed K lib fips (map ClientRequest ks) w" and "regular (live w)"
    and "\<forall>k \<in> S. client_at_rest K fips k (live w)"
  shows "regular (live (serve K lib fips (map ClientRequest ks) w)) \<and>
    (\<forall>k \<in> S \<union> set ks. client_at_rest K fips k (live (serve K lib fips (map ClientRequest ks) w)))"
  using assms
proof (induction ks arbitrary: w S)
  case (Cons k ks)
  let ?w = "handle K lib fips (ClientRequest k) w"
  obtain res where run: "ReconcileOAuthClient K fips k w = (Inr res, ?w)"
    using Cons.prems(1) by (cases "ReconcileOAuthClient K fips k w"; cases "fst (ReconcileOAuthClient K fips k w)")
      (auto simp: succeeds_def handle_def)
  have "\<forall>j \<in> insert k S. client_at_rest K fips j (live ?w)"
    using client_run[OF run Cons.prems(2)] Cons.prems(3) by blast
  from Cons.IH[OF _ handle_regular[OF Cons.prems(2)] this] Cons.prems(1) show ?case by auto
qed simp

lemma instance_round:
  assumes "all_succeed K lib fips (map AutheliaRequest ks) w" and "regular (live w)"
    and "\<forall>k \<in> S. instance_at_rest K lib k (live w)" and "\<forall>k. client_at_rest K fips k (live w)"
  shows "(\<forall>k \<in> S \<union> set ks. instance_at_rest K lib k (live (serve K lib fips (map AutheliaRequest ks) w))) \<and>
    (\<forall>k. client_at_rest K fips k (live (serve K lib fips (map AutheliaRequest ks) w))) \<and>
    regular (live (serve K lib fips (map AutheliaRequest ks) w))"
  using assms
proof (induction ks arbitrary: w S)
  case (Cons k ks)
  let ?w = "handle K lib fips (AutheliaRequest k) w"
  obtain res where run: "ReconcileAuthelia K lib k w = (Inr res, ?w)"
    using Cons.prems(1) by (cases "ReconcileAuthelia K lib k w"; cases "fst (ReconcileAuthelia K lib k w)")
      (auto simp: succeeds_def handle_def)
  have "\<forall>j \<in> insert k S. instance_at_rest K lib j (live ?w)" "\<forall>j. client_at_rest K fips j (live ?w)"
    using instance_run[OF run Cons.prems(2)] Cons.prems(3,4) by blast+
  from Cons.IH[OF _ handle_regular[OF Cons.prems(2)] this] Cons.prems(1) show ?case by auto
qed simp

lemma serve_user_state: "user_state (live (serve K lib fips rs w)) = user_state (live w)"
  by (induction rs arbitrary: w) (simp_all add: handle_user_state)

lemma round_at_rest:
  assumes "regular (live w)" and "all_succeed K lib fips (map ClientRequest cks @ map AutheliaRequest aks) w"
    and "dom (o_OAuthClients (live w)) \<subseteq> set cks" and "dom (o_Authelias (live w)) \<subseteq> set aks"
  shows "at_rest K lib fips (live (serve K lib fips (map ClientRequest cks @ map AutheliaRequest aks) w)) \<and>
    regular (live (serve K lib fips (map ClientRequest cks @ map AutheliaRequest aks) w))"
proof -
  let ?w1 = "serve K lib fips (map ClientRequest cks) w"
  let ?w2 = "serve K lib fips (map AutheliaRequest aks) ?w1"
  have ok: "all_succeed K lib fips (map ClientRequest cks) w" "all_succeed K lib fips (map AutheliaRequest aks) ?w1"
    using assms(2) by (simp_all add: all_succeed_append)
  note first = client_round[OF ok(1) assms(1), of "{}"]
  have "client_at_rest K fips k (live ?w1)" for k
  proof (cases "k \<in> set cks")
    case False
    then have "o_OAuthClients (live w) k = None" using assms(3) by auto
    then have "o_OAuthClients (live ?w1) k = None"
      using user_state_client[OF serve_user_state[of lib fips "map ClientRequest cks" w]]
      by (metis not_None_eq)
    then show ?thesis by (simp add: client_at_rest_def)
  qed (use first in simp)
  with first instance_round[OF ok(2), of "{}"]
  have second: "\<forall>k \<in> set aks. instance_at_rest K lib k (live ?w2)" "\<forall>k. client_at_rest K fips k (live ?w2)"
    "regular (live ?w2)" by simp_all
  have "instance_at_rest K lib k (live ?w2)" for k
  proof (cases "k \<in> set aks")
    case False
    then have "o_Authelias (live w) k = None" using assms(4) by auto
    then have "o_Authelias (live ?w2) k = None"
      using user_state_instance[OF serve_user_state[of lib fips "map ClientRequest cks @ map AutheliaRequest aks" w]]
      unfolding serve_append by (metis not_None_eq)
    then show ?thesis by (simp add: instance_at_rest_def)
  qed (use second in simp)
  with second show ?thesis by (simp add: at_rest_def serve_append)
qed

end

section \<open>Properties\<close>

text \<open>C4: The whole operator comes to rest: when in a quiet cluster every client and then every instance
  has been handled once with success, no object changes any more, whatever requests are served
  afterwards, in whatever order, however often, and however they end. Clients of one instance
  must have different IDs.\<close>

theorem operator_comes_to_rest:
  assumes "kube_fresh K live" and "slice_sort (lib_sort_Slice lib)" and "regular (live w)"
    and "dom (o_OAuthClients (live w)) \<subseteq> set cks" and "dom (o_Authelias (live w)) \<subseteq> set aks"
    and "all_succeed K lib fips (map ClientRequest cks @ map AutheliaRequest aks) w"
    and "w1 = serve K lib fips (map ClientRequest cks @ map AutheliaRequest aks) w"
  shows "live (serve K lib fips rs w1) = live w1"
  using kube_fresh.round_at_rest[OF assms(1,3,6,4,5)] kube_fresh.serve_stays[OF assms(1,2)]
  unfolding assms(7) by blast

theorem operator_comes_to_rest_witness:
  "mem_live (serve mem_kube sample_lib False sample_queue
     (serve mem_kube sample_lib False
        [ClientRequest (''web'', ''grafana''), AutheliaRequest (''auth'', ''sso'')] sample_system)) =
   mem_live (serve mem_kube sample_lib False
        [ClientRequest (''web'', ''grafana''), AutheliaRequest (''auth'', ''sso'')] sample_system)"
proof (rule operator_comes_to_rest[OF mem.kube_fresh_axioms, where w = sample_system
      and cks = "[(''web'', ''grafana'')]" and aks = "[(''auth'', ''sso'')]"])
  show "slice_sort (lib_sort_Slice sample_lib)" by (simp add: sample_lib_def stable.slice_sort_axioms)
  show "regular (mem_live sample_system)"
    by (simp add: regular_def well_keyed_def unique_ids_def plain_ingresses_def mem_live_def sample_system_def
        sample_oauth_server_def empty_server_def sample_oauth_def sample_authelia_def new_meta_def meta_key_def)
  show "dom (o_OAuthClients (mem_live sample_system)) \<subseteq> set [(''web'', ''grafana'')]"
    "dom (o_Authelias (mem_live sample_system)) \<subseteq> set [(''auth'', ''sso'')]"
    by (simp_all add: mem_live_def sample_system_def sample_oauth_server_def)
  show "all_succeed mem_kube sample_lib False
      (map ClientRequest [(''web'', ''grafana'')] @ map AutheliaRequest [(''auth'', ''sso'')]) sample_system"
    using sample_system_runs by (auto simp: succeeds_def handle_def)
qed simp

end
