(* ===== verification/WriteOrder.thy ===== *)
theory WriteOrder
  imports Operator
begin

text \<open>
  The order of the writes, of one reconcile and of the whole operator.

  \<open>authelia_write\<close> says which writes a run may make; here is in which order, and how often.
  \<open>planned_writes\<close> is the specification: a list of atomic writes, computed from the resource
  and from what was collected and rendered. \<open>in_order\<close> says that the objects went from one
  state to another through the writes of a list, each made at most once and in the order of
  the list, with any steps of the other actors between them. \<open>performs\<close> carries this along
  the control flow of an action, in the way \<open>moves\<close> does for a single relation. For a sequence
  of requests the plans are concatenated (\<open>request_plan\<close>), and what every planned write keeps
  is kept by the operator: the objects of other controllers.
\<close>

section \<open>Writes in a given order\<close>

fun in_order :: "(objects \<Rightarrow> objects \<Rightarrow> bool) \<Rightarrow> (objects \<Rightarrow> objects \<Rightarrow> bool) list \<Rightarrow> objects \<Rightarrow> objects \<Rightarrow> bool" where
  "in_order env [] A B \<longleftrightarrow> env\<^sup>*\<^sup>* A B"
| "in_order env (P # Ps) A B \<longleftrightarrow> (\<exists>L. around env P A L \<and> in_order env Ps L B)"

lemma in_order_env: "env\<^sup>*\<^sup>* A B \<Longrightarrow> in_order env Ps A B"
  by (induction Ps) (auto simp: around_def)

lemma env_around: "env\<^sup>*\<^sup>* A B \<Longrightarrow> around env P B C \<Longrightarrow> around env P A C"
  unfolding around_def by (elim disjE exE conjE) (blast intro: rtranclp_trans)+

lemma env_in_order: "env\<^sup>*\<^sup>* A B \<Longrightarrow> in_order env Ps B C \<Longrightarrow> in_order env Ps A C"
  by (cases Ps) (auto intro: env_around)

lemma in_order_append: "in_order env Ps A B \<Longrightarrow> in_order env Qs B C \<Longrightarrow> in_order env (Ps @ Qs) A C"
  by (induction Ps arbitrary: A) (auto intro: env_in_order)

lemma in_order_prefix: "in_order env Ps A B \<Longrightarrow> in_order env (Ps @ Qs) A B"
  by (rule in_order_append, assumption) (simp add: in_order_env)

lemma in_order_one: "in_order env [P] A B \<longleftrightarrow> around env P A B"
proof
  assume "in_order env [P] A B"
  then show "around env P A B" unfolding around_def by (auto simp: around_def intro: rtranclp_trans)
qed auto

text \<open>An action performs the writes of a list, or the first of them, however it ends.\<close>

definition performs :: "('w \<Rightarrow> objects) \<Rightarrow> (objects \<Rightarrow> objects \<Rightarrow> bool) \<Rightarrow>
    (objects \<Rightarrow> objects \<Rightarrow> bool) list \<Rightarrow> ('w, 'a) act \<Rightarrow> bool" where
  "performs live env Ps m \<longleftrightarrow> (\<forall>w r w'. m w = (r, w') \<longrightarrow> in_order env Ps (live w) (live w'))"

lemma performsD: "performs live env Ps m \<Longrightarrow> m w = (r, w') \<Longrightarrow> in_order env Ps (live w) (live w')"
  by (simp add: performs_def)

lemma performs_return: "performs live env [] (returnA x)"
  by (simp add: performs_def)

lemma performs_call:
  "(\<And>w r w'. m w = (r, w') \<Longrightarrow> around env P (live w) (live w')) \<Longrightarrow> performs live env [P] m"
  by (auto simp: performs_def)

lemma performs_bind:
  assumes "performs live env Ps m" and "\<And>x. performs live env Qs (f x)"
  shows "performs live env (Ps @ Qs) (bindA m f)"
  unfolding performs_def
proof (intro allI impI)
  fix w r w'
  assume "bindA m f w = (r, w')"
  then show "in_order env (Ps @ Qs) (live w) (live w')"
  proof (cases rule: bindA_cases)
    case (failed e)
    with performsD[OF assms(1)] show ?thesis by (blast intro: in_order_prefix)
  next
    case (passed x w1)
    with performsD[OF assms(1)] performsD[OF assms(2)] show ?thesis by (blast intro: in_order_append)
  qed
qed

lemma performs_write:
  assumes "\<And>w r w'. m w = (r, w') \<Longrightarrow> around env P (live w) (live w')"
  shows "performs live env [P] (bindA m (\<lambda>x. returnA (f x)))"
  using performs_bind[OF performs_call[where P = P], of m, OF assms performs_return] by simp

section \<open>The writes a reconcile plans\<close>

definition planned_writes :: "'w kube \<Rightarrow> golib \<Rightarrow> Authelia \<Rightarrow> oidcClient list \<Rightarrow> string list \<Rightarrow> string \<Rightarrow>
    (objects \<Rightarrow> objects \<Rightarrow> bool) list" where
  "planned_writes K lib a clients ds rendered =
     (if ExistingSecret (Deployment (a_Spec a)) = []
      then [wrote_Secret (newSecret (coreSecretName a) (authNamespace a)) (coreMutate K (lib_rsa_GenerateKey lib) a)]
      else []) @
     [wrote_ConfigMap (newConfigMap a) (configMapMutate K a (buildConfigMap a rendered))] @
     [wrote_Service (newService (authName a) (authNamespace a)) (serviceMutate K a (buildService a))] @
     (if VolumeClaimTemplate (Deployment (a_Spec a)) = None then []
      else case buildDataPVC a of Inl e \<Rightarrow> [] | Inr p \<Rightarrow> [wrote_PVC p]) @
     [wrote_Deployment (newDeployment (authName a) (authNamespace a))
        (deploymentMutate K a (buildDeployment a (clients \<noteq> []) (configChecksum rendered)))] @
     [\<lambda>L L'. \<exists>n. wrote_status_Authelia
        (withStatus a n (sort (map (\<lambda>c. ClientID (oc_spec c)) clients)) ds) L L']"

lemma around_mono: "around env P A B \<Longrightarrow> (\<And>L L'. P L L' \<Longrightarrow> Q L L') \<Longrightarrow> around env Q A B"
  unfolding around_def by blast

context kube_api
begin

lemma performs_reconcileCoreSecret:
  "performs live env
     (if ExistingSecret (Deployment (a_Spec a)) = []
      then [wrote_Secret (newSecret (coreSecretName a) (authNamespace a)) (coreMutate K rsa a)] else [])
     (reconcileCoreSecret K rsa a)"
  unfolding reconcileCoreSecret_def
  by (simp add: performs_return) (intro impI performs_write, erule cou_Secret_effect)

lemma performs_reconcileConfigMap:
  "performs live env [wrote_ConfigMap (newConfigMap a) (configMapMutate K a (buildConfigMap a rendered))]
     (reconcileConfigMap K a rendered)"
  by (simp add: reconcileConfigMap_def) (rule performs_write, erule cou_ConfigMap_effect)

lemma performs_reconcileService:
  "performs live env [wrote_Service (newService (authName a) (authNamespace a)) (serviceMutate K a (buildService a))]
     (reconcileService K a)"
  by (simp add: reconcileService_def) (rule performs_write, erule cou_Service_effect)

lemma performs_reconcileDeployment:
  "performs live env [wrote_Deployment (newDeployment (authName a) (authNamespace a))
       (deploymentMutate K a (buildDeployment a oidc checksum))] (reconcileDeployment K a oidc checksum)"
  by (simp add: reconcileDeployment_def) (rule performs_write, erule cou_Deployment_effect)

lemma performs_reconcileDataPVC:
  "performs live env (if VolumeClaimTemplate (Deployment (a_Spec a)) = None then []
      else case buildDataPVC a of Inl e \<Rightarrow> [] | Inr p \<Rightarrow> [wrote_PVC p]) (reconcileDataPVC K a)"
  unfolding performs_def
proof (intro allI impI)
  fix w r w'
  assume run: "reconcileDataPVC K a w = (r, w')"
  obtain q v where get: "get_PVC K (authNamespace a, dataPVCName a) w = (q, v)" by (rule prod.exhaust)
  note read = get_PVC_reads[OF get]
  show "in_order env (if VolumeClaimTemplate (Deployment (a_Spec a)) = None then []
      else case buildDataPVC a of Inl e \<Rightarrow> [] | Inr p \<Rightarrow> [wrote_PVC p]) (live w) (live w')"
  proof (cases "VolumeClaimTemplate (Deployment (a_Spec a)) = None \<or> q \<noteq> Inl NotFound")
    case True
    with run get read show ?thesis
      by (intro in_order_env) (auto simp: reconcileDataPVC_def split: if_splits sum.splits)
  next
    case False
    with run get have "bindA (liftR (buildDataPVC a)) (create_PVC K) v = (r, w')"
      by (auto simp: reconcileDataPVC_def)
    with False read show ?thesis
      by (auto simp: bindA_def in_order_one simp del: in_order.simps(2) split: sum.splits
          intro: env_around create_PVC_effect)
  qed
qed

lemma performs_writeObjects:
  "performs live env (planned_writes K lib a clients ds rendered)
     (writeObjects K lib a clients missing ds rendered)"
proof -
  let ?ids = "sort (map (\<lambda>c. ClientID (oc_spec c)) clients)"
  have "performs live env [\<lambda>L L'. \<exists>n. wrote_status_Authelia (withStatus a n ?ids ds) L L']
      (bindA (updateStatus K a n ?ids ds) (\<lambda>_. returnA z))" for n z
    unfolding updateStatus_def
    by (rule performs_write, drule status_Authelia_effect, erule around_mono) blast
  then show ?thesis
    unfolding writeObjects_def planned_writes_def
    by (intro performs_bind performs_reconcileCoreSecret performs_reconcileConfigMap
        performs_reconcileService performs_reconcileDataPVC performs_reconcileDeployment)
qed

lemma reads_only:
  assumes "\<And>P. moves live (\<lambda>L L'. env L L' \<or> P L L') m" and "m w = (r, w')"
  shows "env\<^sup>*\<^sup>* (live w) (live w')"
  using movesD[OF assms(1)[of "\<lambda>_ _. False"] assms(2)] by simp

text \<open>
  A run of the body either ends with an error before anything is written, or it has rendered
  a configuration and performs the writes planned for it.
\<close>

lemma reconcileBody_in_order:
  assumes "reconcileBody K lib a w = (r, w')"
  shows "(\<exists>e. r = Inl e) \<and> env\<^sup>*\<^sup>* (live w) (live w') \<or>
    (\<exists>clients missing rules ds rendered w1 w2.
       collectClients K a w = (Inr (clients, missing), w1) \<and> collectIngressRules K w1 = (Inr (rules, ds), w2) \<and>
       renderConfig (lib_sort_Slice lib) (lib_yaml_Marshal lib) (Settings (a_Spec a)) clients rules
         (Hostname (a_Spec a)) = Inr rendered \<and>
       in_order env (planned_writes K lib a clients ds rendered) (live w) (live w'))"
  using assms unfolding reconcileBody_def
proof (cases rule: bindA_cases)
  case (failed e)
  with reads_only[OF moves_collectClients failed(1)] show ?thesis by blast
next
  case (passed cm w1)
  note clients = reads_only[OF moves_collectClients passed(1)]
  note got1 = passed(1)
  obtain clients missing where cm: "cm = (clients, missing)" by (rule prod.exhaust)
  from passed(2)[unfolded cm prod.case] show ?thesis
  proof (cases rule: bindA_cases)
    case (failed e)
    with reads_only[OF moves_collectIngressRules failed(1)] clients show ?thesis
      by (blast intro: rtranclp_trans)
  next
    case (passed rd w2)
    note rules = reads_only[OF moves_collectIngressRules passed(1)]
    note got = got1 passed(1)
    obtain rules ds where rd: "rd = (rules, ds)" by (rule prod.exhaust)
    from passed(2)[unfolded rd prod.case] show ?thesis
    proof (cases rule: bindA_cases)
      case (failed e)
      with clients rules show ?thesis by (auto intro: rtranclp_trans)
    next
      case (passed rendered w3)
      have "w3 = w2" and "renderConfig (lib_sort_Slice lib) (lib_yaml_Marshal lib) (Settings (a_Spec a)) clients
          rules (Hostname (a_Spec a)) = Inr rendered" using passed(1) by simp_all
      moreover have "in_order env (planned_writes K lib a clients ds rendered) (live w) (live w')"
        using env_in_order[OF clients env_in_order[OF rules performsD[OF performs_writeObjects]]] passed(2)
        by (simp add: \<open>w3 = w2\<close>)
      ultimately show ?thesis using got(1)[unfolded cm] got(2)[unfolded rd] by blast
    qed
  qed
qed

end

section \<open>The whole operator\<close>

text \<open>The writes planned for a client: its Secret, and the status when it does not name the Secret yet.\<close>

definition client_plan :: "'w kube \<Rightarrow> bool \<Rightarrow> AutheliaOAuthClient \<Rightarrow> (objects \<Rightarrow> objects \<Rightarrow> bool) list" where
  "client_plan K fips c =
     [wrote_Secret (oauthSecret c) (oauthMutate K fips c (effectiveClientID c))] @
     (if SecretName (c_Status c) \<noteq> oauthSecretName c then [wrote_status_OAuthClient (withSecretName c)] else [])"

text \<open>
  The plans of a request. They are computed from what the client returned for the key of the
  request: a request for an instance plans the writes for that resource, the clients and rules
  collected for it and the text rendered from them; a request whose resource is not found, or
  whose configuration cannot be rendered, plans nothing.
\<close>

inductive request_plan :: "'w kube \<Rightarrow> golib \<Rightarrow> bool \<Rightarrow> request \<Rightarrow> (objects \<Rightarrow> objects \<Rightarrow> bool) list \<Rightarrow> bool"
  for K lib fips where
  nothing: "request_plan K lib fips r []"
| client: "get_OAuthClient K k v = (Inr c, v') \<Longrightarrow> request_plan K lib fips (ClientRequest k) (client_plan K fips c)"
| authelia: "get_Authelia K k v = (Inr a, v0) \<Longrightarrow> collectClients K a v0 = (Inr (clients, missing), v1) \<Longrightarrow>
    collectIngressRules K v1 = (Inr (rules, ds), v2) \<Longrightarrow>
    renderConfig (lib_sort_Slice lib) (lib_yaml_Marshal lib) (Settings (a_Spec a)) clients rules
      (Hostname (a_Spec a)) = Inr rendered \<Longrightarrow>
    request_plan K lib fips (AutheliaRequest k) (planned_writes K lib a clients ds rendered)"

context kube_api
begin

lemma ReconcileAuthelia_in_order:
  assumes "get_Authelia K req w = (Inr a, w0)" and "ReconcileAuthelia K lib req w = (r, w')"
  shows "(\<exists>e. r = Inl e) \<and> env\<^sup>*\<^sup>* (live w) (live w') \<or>
    (\<exists>clients missing rules ds rendered w1 w2.
       collectClients K a w0 = (Inr (clients, missing), w1) \<and> collectIngressRules K w1 = (Inr (rules, ds), w2) \<and>
       renderConfig (lib_sort_Slice lib) (lib_yaml_Marshal lib) (Settings (a_Spec a)) clients rules
         (Hostname (a_Spec a)) = Inr rendered \<and>
       in_order env (planned_writes K lib a clients ds rendered) (live w) (live w'))"
proof -
  have "reconcileBody K lib a w0 = (r, w')" using assms by (simp add: ReconcileAuthelia_def)
  from reconcileBody_in_order[OF this] get_Authelia_reads[OF assms(1)]
  show ?thesis by (blast intro: env_in_order rtranclp_trans)
qed

lemma ReconcileOAuthClient_in_order:
  assumes "get_OAuthClient K req w = (Inr c, w0)" and "ReconcileOAuthClient K fips req w = (r, w')"
  shows "in_order env (client_plan K fips c) (live w) (live w')"
proof -
  have "performs live env (client_plan K fips c)
    (bindA (cou_Secret K (oauthSecret c) (oauthMutate K fips c (effectiveClientID c))) (\<lambda>_.
       bindA (if SecretName (c_Status c) \<noteq> oauthSecretName c then status_OAuthClient K (withSecretName c)
              else returnA ()) (\<lambda>_. returnA \<lparr>RequeueAfter = 0\<rparr>)))"
    unfolding client_plan_def
  proof (rule performs_bind)
    show "performs live env [wrote_Secret (oauthSecret c) (oauthMutate K fips c (effectiveClientID c))]
        (cou_Secret K (oauthSecret c) (oauthMutate K fips c (effectiveClientID c)))"
      by (rule performs_call) (erule cou_Secret_effect)
    show "performs live env (if SecretName (c_Status c) \<noteq> oauthSecretName c
          then [wrote_status_OAuthClient (withSecretName c)] else [])
        (bindA (if SecretName (c_Status c) \<noteq> oauthSecretName c then status_OAuthClient K (withSecretName c)
              else returnA ()) (\<lambda>_. returnA \<lparr>RequeueAfter = 0\<rparr>))"
    proof (cases "SecretName (c_Status c) = oauthSecretName c")
      case True
      then show ?thesis by (simp add: performs_def bindA_def)
    next
      case False
      have "performs live env [wrote_status_OAuthClient (withSecretName c)]
          (bindA (status_OAuthClient K (withSecretName c)) (\<lambda>_. returnA \<lparr>RequeueAfter = 0\<rparr>))"
        by (rule performs_write) (erule status_OAuthClient_effect)
      with False show ?thesis by simp
    qed
  qed
  note plan = this
  have "bindA (cou_Secret K (oauthSecret c) (oauthMutate K fips c (effectiveClientID c))) (\<lambda>_.
       bindA (if SecretName (c_Status c) \<noteq> oauthSecretName c then status_OAuthClient K (withSecretName c)
              else returnA ()) (\<lambda>_. returnA \<lparr>RequeueAfter = 0\<rparr>)) w0 = (r, w')"
    using assms by (simp add: ReconcileOAuthClient_def)
  from env_in_order[OF get_OAuthClient_reads[OF assms(1)] performsD[OF plan this]] show ?thesis .
qed

lemma handle_in_order:
  "\<exists>plan. request_plan K lib fips r plan \<and> in_order env plan (live w) (live (handle K lib fips r w))"
proof (cases r)
  case (AutheliaRequest k)
  obtain res w' where run: "ReconcileAuthelia K lib k w = (res, w')" by (rule prod.exhaust)
  obtain g w0 where get: "get_Authelia K k w = (g, w0)" by (rule prod.exhaust)
  have "\<exists>plan. request_plan K lib fips r plan \<and> in_order env plan (live w) (live w')"
  proof (cases g)
    case (Inl e)
    with run get have "w' = w0" by (simp add: ReconcileAuthelia_def)
    with get_Authelia_reads[OF get] show ?thesis by (auto intro!: exI[of _ "[]"] request_plan.nothing)
  next
    case (Inr a)
    note in_ord = ReconcileAuthelia_in_order[OF get[unfolded Inr] run]
    then consider "env\<^sup>*\<^sup>* (live w) (live w')"
      | clients missing rules ds rendered w1 w2 where
        "collectClients K a w0 = (Inr (clients, missing), w1)" "collectIngressRules K w1 = (Inr (rules, ds), w2)"
        "renderConfig (lib_sort_Slice lib) (lib_yaml_Marshal lib) (Settings (a_Spec a)) clients rules
           (Hostname (a_Spec a)) = Inr rendered"
        "in_order env (planned_writes K lib a clients ds rendered) (live w) (live w')" by blast
    then show ?thesis
    proof cases
      case 1
      then show ?thesis by (auto intro!: exI[of _ "[]"] request_plan.nothing)
    next
      case 2
      from request_plan.authelia[OF get[unfolded Inr] 2(1-3)] 2(4) AutheliaRequest show ?thesis by blast
    qed
  qed
  with run AutheliaRequest show ?thesis by (simp add: handle_def)
next
  case (ClientRequest k)
  obtain res w' where run: "ReconcileOAuthClient K fips k w = (res, w')" by (rule prod.exhaust)
  obtain g w0 where get: "get_OAuthClient K k w = (g, w0)" by (rule prod.exhaust)
  have "\<exists>plan. request_plan K lib fips r plan \<and> in_order env plan (live w) (live w')"
  proof (cases g)
    case (Inl e)
    with run get have "w' = w0" by (simp add: ReconcileOAuthClient_def)
    with get_OAuthClient_reads[OF get] show ?thesis by (auto intro!: exI[of _ "[]"] request_plan.nothing)
  next
    case (Inr c)
    from ReconcileOAuthClient_in_order[OF get[unfolded Inr] run] request_plan.client[OF get[unfolded Inr]]
      ClientRequest show ?thesis by blast
  qed
  with run ClientRequest show ?thesis by (simp add: handle_def)
qed

lemma serve_in_order:
  "\<exists>plans. list_all2 (request_plan K lib fips) rs plans \<and>
     in_order env (concat plans) (live w) (live (serve K lib fips rs w))"
proof (induction rs arbitrary: w)
  case (Cons r rs)
  obtain plan where p: "request_plan K lib fips r plan" "in_order env plan (live w) (live (handle K lib fips r w))"
    using handle_in_order by blast
  obtain plans where ps: "list_all2 (request_plan K lib fips) rs plans"
    "in_order env (concat plans) (live (handle K lib fips r w)) (live (serve K lib fips rs (handle K lib fips r w)))"
    using Cons.IH by blast
  have "in_order env (concat (plan # plans)) (live w) (live (serve K lib fips (r # rs) w))"
    using in_order_append[OF p(2) ps(2)] by (simp add: serve_def)
  with p(1) ps(1) show ?case by (intro exI[of _ "plan # plans"]) simp
qed (simp add: serve_def)

end

section \<open>Objects of other controllers\<close>

text \<open>Every object that a given controller owns is in both states the same.\<close>

definition spared :: "OwnerReference \<Rightarrow> objects \<Rightarrow> objects \<Rightarrow> bool" where
  "spared ref L L' \<longleftrightarrow>
     (\<forall>k s. o_Secrets L k = Some s \<and> ControllerRef (s_Meta s) = Some ref \<longrightarrow> o_Secrets L' k = Some s) \<and>
     (\<forall>k cm. o_ConfigMaps L k = Some cm \<and> ControllerRef (cm_Meta cm) = Some ref \<longrightarrow> o_ConfigMaps L' k = Some cm) \<and>
     (\<forall>k v. o_Services L k = Some v \<and> ControllerRef (svc_Meta v) = Some ref \<longrightarrow> o_Services L' k = Some v) \<and>
     (\<forall>k d. o_Deployments L k = Some d \<and> ControllerRef (d_Meta d) = Some ref \<longrightarrow> o_Deployments L' k = Some d)"

lemma spared_refl: "spared ref L L"
  by (simp add: spared_def)

lemma spared_trans: "spared ref A B \<Longrightarrow> spared ref B C \<Longrightarrow> spared ref A C"
  by (simp add: spared_def)

lemma spared_steps:
  assumes "env\<^sup>*\<^sup>* A B" and "\<And>L L'. env L L' \<Longrightarrow> spared ref L L'"
  shows "spared ref A B"
  using assms(1) by induction (auto intro: spared_refl spared_trans assms(2))

lemma in_order_spared:
  assumes "in_order env Ps A B" and "\<And>L L'. env L L' \<Longrightarrow> spared ref L L'"
    and "\<And>P L L'. P \<in> set Ps \<Longrightarrow> P L L' \<Longrightarrow> spared ref L L'"
  shows "spared ref A B"
proof -
  have step: "spared ref X Y" if "env\<^sup>*\<^sup>* X Y" for X Y
    using that assms(2) by (rule spared_steps)
  from assms(1,3) show ?thesis
  proof (induction Ps arbitrary: A)
    case Nil
    then show ?case using step by simp
  next
    case (Cons P Ps)
    then obtain L where L: "around env P A L" "in_order env Ps L B" by auto
    have "spared ref A L"
      using L(1) Cons.prems(2)[of P] step unfolding around_def
      by (elim disjE exE conjE) (simp, meson list.set_intros(1) spared_trans)
    moreover have "spared ref L B"
    proof (rule Cons.IH[OF L(2)])
      fix Q M M'
      assume "Q \<in> set Ps" "Q M M'"
      then show "spared ref M M'" using Cons.prems(2)[of Q M M'] by simp
    qed
    ultimately show ?case by (rule spared_trans)
  qed
qed

text \<open>A mutate function that refuses the objects of a controller.\<close>

definition refuses :: "OwnerReference \<Rightarrow> ('o \<Rightarrow> ObjectMeta) \<Rightarrow> ('o \<Rightarrow> (bytes, 'o) act) \<Rightarrow> bool" where
  "refuses ref meta f \<longleftrightarrow> (\<forall>x m. ControllerRef (meta x) = Some ref \<longrightarrow> \<not> mutated f x m)"

lemma refuses_cou:
  assumes "refuses ref meta f" and "cou_result written store k obj f x"
    and "store j = Some y" and "ControllerRef (meta y) = Some ref"
  shows "j \<noteq> k"
  using assms by (auto simp: refuses_def cou_result_def current_def)

lemma write_spared:
  "refuses ref s_Meta f \<Longrightarrow> wrote_Secret s f L L' \<Longrightarrow> spared ref L L'"
  "refuses ref cm_Meta g \<Longrightarrow> wrote_ConfigMap cm g L L' \<Longrightarrow> spared ref L L'"
  "refuses ref svc_Meta h \<Longrightarrow> wrote_Service v h L L' \<Longrightarrow> spared ref L L'"
  "refuses ref d_Meta i \<Longrightarrow> wrote_Deployment d i L L' \<Longrightarrow> spared ref L L'"
  "wrote_PVC p L L' \<Longrightarrow> spared ref L L'"
  "wrote_status_Authelia a L L' \<Longrightarrow> spared ref L L'"
  "wrote_status_OAuthClient c L L' \<Longrightarrow> spared ref L L'"
  by (auto simp: spared_def wrote_defs Let_def dest: refuses_cou)

context kube_api
begin

lemma mutates_refuse:
  assumes "or_Kind ref \<noteq> ''Authelia''"
  shows "refuses ref s_Meta (coreMutate K rsa a)" "refuses ref cm_Meta (configMapMutate K a cmd)"
    "refuses ref svc_Meta (serviceMutate K a vd)" "refuses ref d_Meta (deploymentMutate K a dd)"
proof -
  show "refuses ref s_Meta (coreMutate K rsa a)"
    using assms coreMutate_result by (fastforce simp: refuses_def ownable_def)
  show "refuses ref cm_Meta (configMapMutate K a cmd)" "refuses ref svc_Meta (serviceMutate K a vd)"
    "refuses ref d_Meta (deploymentMutate K a dd)"
    using assms
    by (auto simp: refuses_def mutated_def configMapMutate_def serviceMutate_def deploymentMutate_def Let_def
        ownable_def dest!: set_owner_Inr)
qed

lemma oauthMutate_refuses:
  "or_Kind ref \<noteq> ''AutheliaOAuthClient'' \<Longrightarrow> refuses ref s_Meta (oauthMutate K fips c cid)"
  using oauthMutate_result by (fastforce simp: refuses_def ownable_def)

lemma planned_writes_spare:
  assumes "or_Kind ref \<noteq> ''Authelia''" and "P \<in> set (planned_writes K lib a clients ds rendered)" and "P L L'"
  shows "spared ref L L'"
proof -
  note refuse = mutates_refuse[OF assms(1)]
  note spare = write_spared(1)[OF refuse(1)] write_spared(2)[OF refuse(2)] write_spared(3)[OF refuse(3)]
    write_spared(4)[OF refuse(4)] write_spared(5,6)
  from assms(2,3) show ?thesis
    by (auto simp: planned_writes_def intro: spare split: if_splits sum.splits)
qed

lemma request_plan_spares:
  assumes "request_plan K lib fips r plan" and "or_Kind ref \<noteq> ''Authelia''" and "or_Kind ref \<noteq> ''AutheliaOAuthClient''"
    and "P \<in> set plan" and "P L L'"
  shows "spared ref L L'"
  using assms(1)
proof cases
  case (client k v c v')
  with assms(4,5) show ?thesis
    by (auto simp: client_plan_def split: if_splits
        intro: write_spared(1)[OF oauthMutate_refuses[OF assms(3)]] write_spared(7))
qed (use assms planned_writes_spare in auto)

end

section \<open>Properties\<close>

text \<open>C8: The writes of a reconcile are made in one order. Under stale caches, with failures of
  any call and with other actors at work, a run of \<open>Reconcile\<close> for an Authelia resource either
  fails before anything is written, or it has rendered a configuration, and what it changes
  are the planned writes: the Secret of the core keys (unless the resource names an existing
  one), the ConfigMap with the rendered text, the Service, the claim (if the resource has a
  template), the Deployment whose checksum is that of the same text, and the status; each at
  most once, in this order, each on the object the server holds at that moment.
\<close>

theorem authelia_writes_in_order:
  assumes "kube_api K live env" and "get_Authelia K req w = (Inr a, w0)"
    and "ReconcileAuthelia K lib req w = (r, w')"
  shows "(\<exists>e. r = Inl e) \<and> env\<^sup>*\<^sup>* (live w) (live w') \<or>
    (\<exists>clients missing rules ds rendered w1 w2.
       collectClients K a w0 = (Inr (clients, missing), w1) \<and> collectIngressRules K w1 = (Inr (rules, ds), w2) \<and>
       renderConfig (lib_sort_Slice lib) (lib_yaml_Marshal lib) (Settings (a_Spec a)) clients rules
         (Hostname (a_Spec a)) = Inr rendered \<and>
       in_order env (planned_writes K lib a clients ds rendered) (live w) (live w'))"
  by (rule kube_api.ReconcileAuthelia_in_order[OF assms])

theorem authelia_writes_in_order_witness:
  "\<exists>clients rules ds rendered w'.
     ReconcileAuthelia mem_kube sample_lib (''auth'', ''sso'') sample_server =
       (Inr \<lparr>RequeueAfter = 10 * second\<rparr>, w') \<and>
     renderConfig stable_sort (\<lambda>_. Some ''yaml'') sample_settings clients rules
       (Hostname (a_Spec sample_authelia)) = Inr rendered \<and>
     in_order quiet (planned_writes mem_kube sample_lib sample_authelia clients ds rendered)
       (mem_live sample_server) (mem_live w')"
proof -
  obtain w' where run: "ReconcileAuthelia mem_kube sample_lib (''auth'', ''sso'') sample_server =
      (Inr \<lparr>RequeueAfter = 10 * second\<rparr>, w')"
    using sample_run by auto
  have lib: "lib_sort_Slice sample_lib = stable_sort" "lib_yaml_Marshal sample_lib = (\<lambda>_. Some ''yaml'')"
    "Settings (a_Spec sample_authelia) = sample_settings"
    by (simp_all add: sample_lib_def sample_authelia_def)
  from authelia_writes_in_order[OF mem.kube_api_axioms sample_get run] run
  show ?thesis unfolding lib by blast
qed

text \<open>C11: The whole operator follows its plans: whatever requests are served in whatever order, with stale
  caches, failing calls and other actors in between, the changes of the operator are the
  concatenation of one plan per request, in the order of the requests: each planned write at
  most once and in its place. The plan of a request is made for the resource that was read
  under its key: for a client its Secret, then its status; for an instance the writes of
  \<open>planned_writes\<close> with the text rendered from what was collected for it.\<close>

theorem operator_writes_in_order:
  assumes "kube_api K live env"
  shows "\<exists>plans. list_all2 (request_plan K lib fips) rs plans \<and>
    in_order env (concat plans) (live w) (live (serve K lib fips rs w))"
  by (rule kube_api.serve_in_order[OF assms])

theorem operator_writes_in_order_witness:
  "\<exists>plans. list_all2 (request_plan mem_kube sample_lib False) sample_queue plans \<and>
    in_order quiet (concat plans) (mem_live sample_server)
      (mem_live (serve mem_kube sample_lib False sample_queue sample_server))"
  by (rule operator_writes_in_order[OF mem.kube_api_axioms])

text \<open>C12: The operator does not take over what other controllers own: a Secret, ConfigMap, Service or
  Deployment whose controller is neither an Authelia resource nor an OAuth client is after any
  requests exactly what it was, even if it has the name of an object the operator wants to
  write; provided the other actors leave such objects alone.\<close>

theorem operator_spares_foreign_objects:
  assumes "kube_api K live env" and "\<And>L L'. env L L' \<Longrightarrow> spared ref L L'"
    and "or_Kind ref \<noteq> ''Authelia''" and "or_Kind ref \<noteq> ''AutheliaOAuthClient''"
  shows "spared ref (live w) (live (serve K lib fips rs w))"
proof -
  obtain plans where plans: "list_all2 (request_plan K lib fips) rs plans"
    "in_order env (concat plans) (live w) (live (serve K lib fips rs w))"
    using kube_api.serve_in_order[OF assms(1)] by blast
  show ?thesis
  proof (rule in_order_spared[OF plans(2) assms(2)])
    fix P L L'
    assume "P \<in> set (concat plans)" and P: "P L L'"
    then obtain plan where plan: "plan \<in> set plans" "P \<in> set plan" by auto
    with plans(1) obtain r where "request_plan K lib fips r plan" by (auto simp: list_all2_conv_all_nth in_set_conv_nth)
    from kube_api.request_plan_spares[OF assms(1) this assms(3,4) plan(2) P] show "spared ref L L'" .
  qed
qed

theorem operator_spares_foreign_objects_witness:
  "o_Secrets (mem_live (serve mem_kube sample_lib False sample_queue sample_foreign_server))
     (''web'', ''grafana-oauth-secret'') = Some sample_foreign_secret"
proof -
  have "spared \<lparr>or_Kind = ''Vault'', or_Name = ''v'', or_UID = ''other''\<rparr> (mem_live sample_foreign_server)
      (mem_live (serve mem_kube sample_lib False sample_queue sample_foreign_server))"
    by (rule operator_spares_foreign_objects[OF mem.kube_api_axioms]) (simp_all add: quiet_def)
  moreover have "o_Secrets (mem_live sample_foreign_server) (''web'', ''grafana-oauth-secret'') =
      Some sample_foreign_secret"
    by (simp add: mem_live_def sample_foreign_server_def)
  moreover have "ControllerRef (s_Meta sample_foreign_secret) =
      Some \<lparr>or_Kind = ''Vault'', or_Name = ''v'', or_UID = ''other''\<rparr>"
    by (simp add: sample_foreign_secret_def)
  ultimately show ?thesis unfolding spared_def by blast
qed

end
