(* ===== verification/Progress.thy ===== *)
theory Progress
  imports AutheliaController
begin

text \<open>
  Runs that succeed.

  The theorems on what a successful run leaves behind say nothing of a reconciler that always
  fails. Here is the other half. The API server decides which writes it admits: it validates
  objects, keeps some fields from being changed, and asks policies. This decision is a
  parameter (\<open>admission\<close>) of which nothing is assumed. \<open>kube_reliable\<close> extends \<open>kube_fresh\<close> by a
  predicate \<open>healthy\<close> on worlds in which no call fails without a reason, and by the entropy \<open>tape\<close>
  that mutate functions draw on: a get returns the object that is there, a listing is returned,
  a write is carried out when its mutate function returns an object \<^emph>\<open>that is admitted\<close>, an owner
  is set when no other controller owns the object.

  The laws are interpreted, for every decision, on a server that refuses what is not admitted
  (\<open>admitting_kube\<close>). \<open>completes\<close> is total correctness: the action returns a value, and what holds
  of the value and of the world afterwards.
\<close>

section \<open>Total correctness of actions\<close>

definition completes :: "('w, 'a) act \<Rightarrow> 'w \<Rightarrow> ('a \<Rightarrow> 'w \<Rightarrow> bool) \<Rightarrow> bool" where
  "completes m w Q \<longleftrightarrow> (\<exists>x w'. m w = (Inr x, w') \<and> Q x w')"

lemma completesI: "m w = (Inr x, w') \<Longrightarrow> Q x w' \<Longrightarrow> completes m w Q"
  by (auto simp: completes_def)

lemma completes_mono: "completes m w Q \<Longrightarrow> (\<And>x w'. m w = (Inr x, w') \<Longrightarrow> Q x w' \<Longrightarrow> R x w') \<Longrightarrow> completes m w R"
  by (auto simp: completes_def)

lemma completes_return [simp]: "completes (returnA x) w Q \<longleftrightarrow> Q x w"
  by (simp add: completes_def)

lemma completes_lift [simp]: "completes (liftR q) w Q \<longleftrightarrow> (\<exists>x. q = Inr x \<and> Q x w)"
  by (auto simp: completes_def)

lemma completes_bind: "completes (bindA m f) w Q \<longleftrightarrow> completes m w (\<lambda>x w'. completes (f x) w' Q)"
  by (fastforce simp: completes_def bindA_step elim: bindA_Inr)

lemma completes_mutated:
  "completes (f x) t (\<lambda>_ _. True) \<Longrightarrow> (\<And>m. mutated f x m \<Longrightarrow> P m) \<Longrightarrow> completes (f x) t (\<lambda>m _. P m)"
  by (auto simp: completes_def mutated_def)

section \<open>A reliable cluster\<close>

text \<open>
  Which writes the API server admits, by the object it holds, if any, and the object that is to
  be written; for a status the resource with the new status.
\<close>

record admission =
  ad_Secret :: "Secret option \<Rightarrow> Secret \<Rightarrow> bool"
  ad_ConfigMap :: "ConfigMap option \<Rightarrow> ConfigMap \<Rightarrow> bool"
  ad_Service :: "Service option \<Rightarrow> Service \<Rightarrow> bool"
  ad_Deployment :: "DeploymentObj option \<Rightarrow> DeploymentObj \<Rightarrow> bool"
  ad_PVC :: "PersistentVolumeClaim \<Rightarrow> bool"
  ad_Authelia :: "Authelia \<Rightarrow> bool"
  ad_OAuthClient :: "AutheliaOAuthClient \<Rightarrow> bool"

locale kube_reliable = kube_fresh K live for K :: "'w kube" and live :: "'w \<Rightarrow> objects" +
  fixes healthy :: "'w \<Rightarrow> bool" and tape :: "'w \<Rightarrow> bytes" and adm :: admission
  assumes get_Authelia_works: "healthy w \<Longrightarrow> o_Authelias (live w) k = Some a \<Longrightarrow>
        \<exists>w'. get_Authelia K k w = (Inr a, w') \<and> healthy w' \<and> tape w' = tape w"
    and get_OAuthClient_works: "healthy w \<Longrightarrow> o_OAuthClients (live w) k = Some c \<Longrightarrow>
        \<exists>w'. get_OAuthClient K k w = (Inr c, w') \<and> healthy w' \<and> tape w' = tape w"
    and get_Secret_works: "healthy w \<Longrightarrow>
        \<exists>w'. get_Secret K k w = (case o_Secrets (live w) k of Some s \<Rightarrow> Inr s | None \<Rightarrow> Inl NotFound, w') \<and>
          healthy w' \<and> tape w' = tape w"
    and get_PVC_works: "healthy w \<Longrightarrow>
        \<exists>w'. get_PVC K k w = (case o_PVCs (live w) k of Some p \<Rightarrow> Inr p | None \<Rightarrow> Inl NotFound, w') \<and>
          healthy w' \<and> tape w' = tape w"
    and list_OAuthClients_works: "healthy w \<Longrightarrow>
        \<exists>cs w'. list_OAuthClients K w = (Inr cs, w') \<and> healthy w' \<and> tape w' = tape w"
    and list_Ingresses_works: "healthy w \<Longrightarrow>
        \<exists>ings w'. list_Ingresses K w = (Inr ings, w') \<and> healthy w' \<and> tape w' = tape w"
    and create_PVC_works: "healthy w \<Longrightarrow> o_PVCs (live w) (meta_key (pvc_Meta p)) = None \<Longrightarrow> ad_PVC adm p \<Longrightarrow>
        \<exists>w'. create_PVC K p w = (Inr (), w') \<and> healthy w' \<and> tape w' = tape w"
    and cou_Secret_works: "healthy w \<Longrightarrow>
        f (current (o_Secrets (live w)) (meta_key (s_Meta s)) s) (tape w) = (Inr s1, t) \<Longrightarrow>
        ad_Secret adm (o_Secrets (live w) (meta_key (s_Meta s))) s1 \<Longrightarrow>
        \<exists>s' w'. cou_Secret K s f w = (Inr s', w') \<and> healthy w' \<and> tape w' = t"
    and cou_ConfigMap_works: "healthy w \<Longrightarrow>
        g (current (o_ConfigMaps (live w)) (meta_key (cm_Meta cm)) cm) (tape w) = (Inr cm1, t) \<Longrightarrow>
        ad_ConfigMap adm (o_ConfigMaps (live w) (meta_key (cm_Meta cm))) cm1 \<Longrightarrow>
        \<exists>cm' w'. cou_ConfigMap K cm g w = (Inr cm', w') \<and> healthy w' \<and> tape w' = t"
    and cou_Service_works: "healthy w \<Longrightarrow>
        h (current (o_Services (live w)) (meta_key (svc_Meta v)) v) (tape w) = (Inr v1, t) \<Longrightarrow>
        ad_Service adm (o_Services (live w) (meta_key (svc_Meta v))) v1 \<Longrightarrow>
        \<exists>v' w'. cou_Service K v h w = (Inr v', w') \<and> healthy w' \<and> tape w' = t"
    and cou_Deployment_works: "healthy w \<Longrightarrow>
        i (current (o_Deployments (live w)) (meta_key (d_Meta d)) d) (tape w) = (Inr d1, t) \<Longrightarrow>
        ad_Deployment adm (o_Deployments (live w) (meta_key (d_Meta d))) d1 \<Longrightarrow>
        \<exists>d' w'. cou_Deployment K d i w = (Inr d', w') \<and> healthy w' \<and> tape w' = t"
    and status_Authelia_works: "healthy w \<Longrightarrow> o_Authelias (live w) (meta_key (a_Meta a)) = Some a0 \<Longrightarrow>
        ad_Authelia adm (a0\<lparr>a_Status := a_Status a\<rparr>) \<Longrightarrow>
        \<exists>w'. status_Authelia K a w = (Inr (), w') \<and> healthy w' \<and> tape w' = tape w"
    and status_OAuthClient_works: "healthy w \<Longrightarrow> o_OAuthClients (live w) (meta_key (c_Meta c)) = Some c0 \<Longrightarrow>
        ad_OAuthClient adm (c0\<lparr>c_Status := c_Status c\<rparr>) \<Longrightarrow>
        \<exists>w'. status_OAuthClient K c w = (Inr (), w') \<and> healthy w' \<and> tape w' = tape w"
    and set_owner_works: "Namespace own = Namespace m \<Longrightarrow> ownable kind own m \<Longrightarrow> \<exists>m'. set_owner K kind own m = Inr m'"

section \<open>A server that refuses what is not admitted\<close>

text \<open>\<open>guarded\<close> fails where the mutate function returns an object that is not admitted.\<close>

definition guarded :: "('o \<Rightarrow> bool) \<Rightarrow> ('o \<Rightarrow> (bytes, 'o) act) \<Rightarrow> 'o \<Rightarrow> (bytes, 'o) act" where
  "guarded p f x = bindA (f x) (\<lambda>m. if p m then returnA m else failA (ApiOther ''Invalid''))"

lemma mutated_guarded: "mutated (guarded p f) x m \<longleftrightarrow> mutated f x m \<and> p m"
proof
  assume "mutated (guarded p f) x m"
  then show "mutated f x m \<and> p m"
    by (fastforce simp: mutated_def guarded_def elim!: bindA_Inr split: if_splits)
next
  assume "mutated f x m \<and> p m"
  then obtain t t' where "f x t = (Inr m, t')" "p m" by (auto simp: mutated_def)
  then have "guarded p f x t = (Inr m, t')" by (simp add: guarded_def bindA_def)
  then show "mutated (guarded p f) x m" by (auto simp: mutated_def)
qed

lemma cou_result_guarded: "cou_result written store k obj (guarded p f) x \<Longrightarrow> cou_result written store k obj f x"
  by (auto simp: cou_result_def mutated_guarded)

lemma rests_guarded:
  assumes "rests store k f" and "cou_result written store k obj (guarded p f) y"
  shows "rests store k (guarded p f)"
proof -
  from assms(1) obtain x where x: "store k = Some x" "\<And>t. f x t = (Inr x, t)" by (auto simp: rests_def)
  with assms(2) have "p x" by (auto simp: cou_result_def mutated_guarded current_def) (simp add: mutated_def)
  with x show ?thesis by (simp add: rests_def guarded_def bindA_def)
qed

definition admitting_kube :: "admission \<Rightarrow> server kube" where
  "admitting_kube adm = mem_kube\<lparr>
     create_PVC := (\<lambda>p w. if ad_PVC adm p then create_PVC mem_kube p w else (Inl (ApiOther ''Invalid''), w)),
     cou_Secret := (\<lambda>x f w. cou_Secret mem_kube x
       (guarded (ad_Secret adm (o_Secrets (mem_live w) (meta_key (s_Meta x)))) f) w),
     cou_ConfigMap := (\<lambda>x f w. cou_ConfigMap mem_kube x
       (guarded (ad_ConfigMap adm (o_ConfigMaps (mem_live w) (meta_key (cm_Meta x)))) f) w),
     cou_Service := (\<lambda>x f w. cou_Service mem_kube x
       (guarded (ad_Service adm (o_Services (mem_live w) (meta_key (svc_Meta x)))) f) w),
     cou_Deployment := (\<lambda>x f w. cou_Deployment mem_kube x
       (guarded (ad_Deployment adm (o_Deployments (mem_live w) (meta_key (d_Meta x)))) f) w),
     status_Authelia := (\<lambda>a w. case o_Authelias (mem_live w) (meta_key (a_Meta a)) of
         Some a0 \<Rightarrow> if ad_Authelia adm (a0\<lparr>a_Status := a_Status a\<rparr>) then status_Authelia mem_kube a w
                    else (Inl (ApiOther ''Invalid''), w)
       | None \<Rightarrow> status_Authelia mem_kube a w),
     status_OAuthClient := (\<lambda>c w. case o_OAuthClients (mem_live w) (meta_key (c_Meta c)) of
         Some c0 \<Rightarrow> if ad_OAuthClient adm (c0\<lparr>c_Status := c_Status c\<rparr>) then status_OAuthClient mem_kube c w
                    else (Inl (ApiOther ''Invalid''), w)
       | None \<Rightarrow> status_OAuthClient mem_kube c w)\<rparr>"

lemma admitting_reads [simp]:
  "get_Authelia (admitting_kube adm) = get_Authelia mem_kube"
  "get_OAuthClient (admitting_kube adm) = get_OAuthClient mem_kube"
  "get_Secret (admitting_kube adm) = get_Secret mem_kube" "get_PVC (admitting_kube adm) = get_PVC mem_kube"
  "list_Authelias (admitting_kube adm) = list_Authelias mem_kube"
  "list_OAuthClients (admitting_kube adm) = list_OAuthClients mem_kube"
  "list_Ingresses (admitting_kube adm) = list_Ingresses mem_kube"
  "set_owner (admitting_kube adm) = set_owner mem_kube"
  by (simp_all add: admitting_kube_def)

lemma admitting_cou_Secret:
  assumes "cou_Secret (admitting_kube adm) s f w = (r, w')"
  shows "(\<exists>e. r = Inl e \<and> mem_live w' = mem_live w) \<or>
    (\<exists>s'. r = Inr s' \<and> o_Secrets (mem_live w') (meta_key (s_Meta s)) = Some s' \<and>
      cou_result written_Secret (o_Secrets (mem_live w)) (meta_key (s_Meta s)) s f s' \<and>
      mem_live w' = (mem_live w)\<lparr>o_Secrets := (o_Secrets (mem_live w))(meta_key (s_Meta s) \<mapsto> s')\<rparr> \<and>
      (rests (o_Secrets (mem_live w)) (meta_key (s_Meta s)) f \<longrightarrow> mem_live w' = mem_live w))"
  using mem_cou_Secret_result[of s "guarded (ad_Secret adm (o_Secrets (mem_live w) (meta_key (s_Meta s)))) f" w r w'] assms
  by (auto simp: admitting_kube_def dest: rests_guarded cou_result_guarded)

lemma admitting_cou_ConfigMap:
  assumes "cou_ConfigMap (admitting_kube adm) s f w = (r, w')"
  shows "(\<exists>e. r = Inl e \<and> mem_live w' = mem_live w) \<or>
    (\<exists>s'. r = Inr s' \<and> o_ConfigMaps (mem_live w') (meta_key (cm_Meta s)) = Some s' \<and>
      cou_result written_ConfigMap (o_ConfigMaps (mem_live w)) (meta_key (cm_Meta s)) s f s' \<and>
      mem_live w' = (mem_live w)\<lparr>o_ConfigMaps := (o_ConfigMaps (mem_live w))(meta_key (cm_Meta s) \<mapsto> s')\<rparr> \<and>
      (rests (o_ConfigMaps (mem_live w)) (meta_key (cm_Meta s)) f \<longrightarrow> mem_live w' = mem_live w))"
  using mem_cou_ConfigMap_result[of s "guarded (ad_ConfigMap adm (o_ConfigMaps (mem_live w) (meta_key (cm_Meta s)))) f" w r w'] assms
  by (auto simp: admitting_kube_def dest: rests_guarded cou_result_guarded)

lemma admitting_cou_Service:
  assumes "cou_Service (admitting_kube adm) s f w = (r, w')"
  shows "(\<exists>e. r = Inl e \<and> mem_live w' = mem_live w) \<or>
    (\<exists>s'. r = Inr s' \<and> o_Services (mem_live w') (meta_key (svc_Meta s)) = Some s' \<and>
      cou_result written_Service (o_Services (mem_live w)) (meta_key (svc_Meta s)) s f s' \<and>
      mem_live w' = (mem_live w)\<lparr>o_Services := (o_Services (mem_live w))(meta_key (svc_Meta s) \<mapsto> s')\<rparr> \<and>
      (rests (o_Services (mem_live w)) (meta_key (svc_Meta s)) f \<longrightarrow> mem_live w' = mem_live w))"
  using mem_cou_Service_result[of s "guarded (ad_Service adm (o_Services (mem_live w) (meta_key (svc_Meta s)))) f" w r w'] assms
  by (auto simp: admitting_kube_def dest: rests_guarded cou_result_guarded)

lemma admitting_cou_Deployment:
  assumes "cou_Deployment (admitting_kube adm) s f w = (r, w')"
  shows "(\<exists>e. r = Inl e \<and> mem_live w' = mem_live w) \<or>
    (\<exists>s'. r = Inr s' \<and> o_Deployments (mem_live w') (meta_key (d_Meta s)) = Some s' \<and>
      cou_result written_Deployment (o_Deployments (mem_live w)) (meta_key (d_Meta s)) s f s' \<and>
      mem_live w' = (mem_live w)\<lparr>o_Deployments := (o_Deployments (mem_live w))(meta_key (d_Meta s) \<mapsto> s')\<rparr> \<and>
      (rests (o_Deployments (mem_live w)) (meta_key (d_Meta s)) f \<longrightarrow> mem_live w' = mem_live w))"
  using mem_cou_Deployment_result[of s "guarded (ad_Deployment adm (o_Deployments (mem_live w) (meta_key (d_Meta s)))) f" w r w'] assms
  by (auto simp: admitting_kube_def dest: rests_guarded cou_result_guarded)

text \<open>A call that is not refused is the call of the in-memory server.\<close>

lemma admitting_create_PVC:
  "create_PVC (admitting_kube adm) p w = (r, w') \<Longrightarrow>
     create_PVC mem_kube p w = (r, w') \<or> r = Inl (ApiOther ''Invalid'') \<and> w' = w"
  by (auto simp: admitting_kube_def split: if_splits)

lemma admitting_status:
  "status_Authelia (admitting_kube adm) a w = (ra, wa) \<Longrightarrow>
     status_Authelia mem_kube a w = (ra, wa) \<or> ra = Inl (ApiOther ''Invalid'') \<and> wa = w"
  "status_OAuthClient (admitting_kube adm) c w = (rc, wc) \<Longrightarrow>
     status_OAuthClient mem_kube c w = (rc, wc) \<or> rc = Inl (ApiOther ''Invalid'') \<and> wc = w"
  by (auto simp: admitting_kube_def split: if_splits option.splits)

interpretation admitting: kube_fresh "admitting_kube adm" mem_live for adm
  by (unfold_locales; (simp; erule mem_set_owner_again | auto dest!: mem_read_results admitting_create_PVC
      admitting_status mem_create_PVC_result admitting_cou_Secret admitting_cou_ConfigMap admitting_cou_Service
      admitting_cou_Deployment mem_status_Authelia_result mem_status_OAuthClient_result mem_set_owner_result
      simp: wrote_defs Let_def))

text \<open>The server is reliable while its queue of failures is empty.\<close>

definition mem_healthy :: "server \<Rightarrow> bool" where
  "mem_healthy w \<longleftrightarrow> m_faults w = []"

interpretation admitting_ok: kube_reliable "admitting_kube adm" mem_live mem_healthy m_tape adm for adm
  by unfold_locales
    (auto simp: admitting_kube_def guarded_def bindA_def mem_healthy_def mem_live_def mem_kube_def mem_get_def
      mem_list_def mem_cou_def mem_call_def mem_create_PVC_def mem_status_Authelia_def mem_status_OAuthClient_def
      mem_set_owner_def ownable_def Let_def split: option.splits)

text \<open>
  Rules of the API server that concern the objects of the operator: the volumes of a Pod have
  different names, the type of a Secret and the selector of a Deployment are not changed.
\<close>

definition api_admission :: admission where
  "api_admission =
     \<lparr>ad_Secret = (\<lambda>old s. \<forall>x \<in> set_option old. s_Type x = s_Type s), ad_ConfigMap = (\<lambda>_ _. True),
      ad_Service = (\<lambda>_ _. True),
      ad_Deployment = (\<lambda>old d. distinct (map vol_Name (pod_Volumes (ds_Template (d_Spec d)))) \<and>
        (\<forall>x \<in> set_option old. ds_Selector (d_Spec x) = ds_Selector (d_Spec d))),
      ad_PVC = (\<lambda>_. True), ad_Authelia = (\<lambda>_. True), ad_OAuthClient = (\<lambda>_. True)\<rparr>"

section \<open>Objects that can be claimed\<close>

text \<open>
  The object at a key, if there is one, is in the namespace of the owner and has no other
  controller.
\<close>

definition claimable :: "string \<Rightarrow> ObjectMeta \<Rightarrow> (nsname \<Rightarrow> 'o option) \<Rightarrow> nsname \<Rightarrow> ('o \<Rightarrow> ObjectMeta) \<Rightarrow> bool" where
  "claimable kind own store k meta \<longleftrightarrow>
     (\<forall>x. store k = Some x \<longrightarrow> Namespace (meta x) = Namespace own \<and> ownable kind own (meta x))"

lemma claimable_current:
  assumes "claimable kind own store k meta" and "Namespace (meta obj) = Namespace own"
    and "ControllerRef (meta obj) = None"
  shows "Namespace (meta (current store k obj)) = Namespace own" "ownable kind own (meta (current store k obj))"
  using assms by (auto simp: claimable_def current_def ownable_def split: option.splits)

lemma new_objects [simp]:
  "Namespace (s_Meta (newSecret n ns)) = ns" "ControllerRef (s_Meta (newSecret n ns)) = None"
  "Namespace (svc_Meta (newService n ns)) = ns" "ControllerRef (svc_Meta (newService n ns)) = None"
  "Namespace (d_Meta (newDeployment n ns)) = ns" "ControllerRef (d_Meta (newDeployment n ns)) = None"
  "meta_key (svc_Meta (newService n ns)) = (ns, n)" "meta_key (d_Meta (newDeployment n ns)) = (ns, n)"
  by (simp_all add: newSecret_def newService_def newDeployment_def new_meta_def meta_key_def)

section \<open>The OAuth client reconciler\<close>

text \<open>48 bytes for the secret and 16 for the salt of its digest are enough.\<close>

lemma hashClientSecret_works:
  "16 \<le> length t \<Longrightarrow> \<exists>h t'. hashClientSecret fips s t = (Inr h, t')"
  using pbkdf2_Key_total[of "take 16 t" fips s pbkdf2Iterations]
  by (auto simp: hashClientSecret_def bindA_def rand_Read_def)

lemma fillClientSecret_works:
  assumes "64 \<le> length t"
  shows "\<exists>d' t'. fillClientSecret fips d t = (Inr d', t')"
proof -
  have fill: "\<exists>d' t'. fill_key gen k d t = (Inr d', t')" if "\<exists>v t'. gen t = (Inr v, t')" for gen k d t
    using that by (auto simp: fill_key_def bindA_def)
  have "\<exists>d1 t1. fill_key generateSecret ''client_secret'' d t = (Inr d1, t1) \<and> 16 \<le> length t1"
    using assms by (auto simp: fill_key_def generateSecret_def bindA_def rand_Read_def)
  then show ?thesis
    unfolding fillClientSecret_def using fill[OF hashClientSecret_works] by (fastforce simp: bindA_def)
qed

context kube_reliable
begin

text \<open>The laws of the four kinds of write, for total correctness.\<close>

lemma cou_Secret_completes:
  assumes "healthy w" and "completes (f (current (o_Secrets (live w)) (meta_key (s_Meta s)) s)) (tape w)
    (\<lambda>m _. ad_Secret adm (o_Secrets (live w) (meta_key (s_Meta s))) m)"
  shows "completes (cou_Secret K s f) w (\<lambda>_ w'. healthy w' \<and> (\<exists>x. live w' = (live w)\<lparr>o_Secrets := x\<rparr>))"
  using cou_Secret_works[OF assms(1), of f s] assms(2) cou_Secret_done[of s f w]
  by (fastforce simp: completes_def wrote_Secret_def Let_def)

lemma cou_ConfigMap_completes:
  assumes "healthy w" and "completes (g (current (o_ConfigMaps (live w)) (meta_key (cm_Meta cm)) cm)) (tape w)
    (\<lambda>m _. ad_ConfigMap adm (o_ConfigMaps (live w) (meta_key (cm_Meta cm))) m)"
  shows "completes (cou_ConfigMap K cm g) w (\<lambda>_ w'. healthy w' \<and> (\<exists>x. live w' = (live w)\<lparr>o_ConfigMaps := x\<rparr>))"
  using cou_ConfigMap_works[OF assms(1), of g cm] assms(2) cou_ConfigMap_done[of cm g w]
  by (fastforce simp: completes_def wrote_ConfigMap_def Let_def)

lemma cou_Service_completes:
  assumes "healthy w" and "completes (h (current (o_Services (live w)) (meta_key (svc_Meta v)) v)) (tape w)
    (\<lambda>m _. ad_Service adm (o_Services (live w) (meta_key (svc_Meta v))) m)"
  shows "completes (cou_Service K v h) w (\<lambda>_ w'. healthy w' \<and> (\<exists>x. live w' = (live w)\<lparr>o_Services := x\<rparr>))"
  using cou_Service_works[OF assms(1), of h v] assms(2) cou_Service_done[of v h w]
  by (fastforce simp: completes_def wrote_Service_def Let_def)

lemma cou_Deployment_completes:
  assumes "healthy w" and "completes (i (current (o_Deployments (live w)) (meta_key (d_Meta d)) d)) (tape w)
    (\<lambda>m _. ad_Deployment adm (o_Deployments (live w) (meta_key (d_Meta d))) m)"
  shows "completes (cou_Deployment K d i) w (\<lambda>_ w'. healthy w' \<and> (\<exists>x. live w' = (live w)\<lparr>o_Deployments := x\<rparr>))"
  using cou_Deployment_works[OF assms(1), of i d] assms(2) cou_Deployment_done[of d i w]
  by (fastforce simp: completes_def wrote_Deployment_def Let_def)

lemma setOwner_works:
  assumes "Namespace (s_Meta s) = Namespace own" and "ownable kind own (s_Meta s)"
    and "s_Meta x = (s_Meta s)\<lparr>Labels := l\<rparr>"
  shows "\<exists>m. setOwner K kind own x = Inr m"
  using set_owner_works[of own "s_Meta x" kind] assms by (auto simp: setOwner_def ownable_def)

lemma oauthMutate_works:
  assumes "Namespace (s_Meta s) = Namespace (c_Meta c)" and "ownable ''AutheliaOAuthClient'' (c_Meta c) (s_Meta s)"
    and "Public (c_Spec c) \<or> 64 \<le> length t"
  shows "completes (oauthMutate K fips c cid s) t (\<lambda>_ _. True)"
proof (cases "Public (c_Spec c)")
  case True
  then show ?thesis
    unfolding oauthMutate_def Let_def by (simp add: setOwner_works[OF assms(1,2)])
next
  case False
  with assms(3) fillClientSecret_works have "completes (fillClientSecret fips d) t (\<lambda>_ _. True)" for d
    by (auto simp: completes_def)
  then show ?thesis
    unfolding oauthMutate_def Let_def using False
    by (simp add: completes_bind setOwner_works[OF assms(1,2)])
qed

end

text \<open>The Secret and the status a run writes for a client are admitted.\<close>

definition client_admitted :: "admission \<Rightarrow> 'w kube \<Rightarrow> bool \<Rightarrow> AutheliaOAuthClient \<Rightarrow> objects \<Rightarrow> bool" where
  "client_admitted adm K fips c L \<longleftrightarrow>
     (\<forall>m. mutated (oauthMutate K fips c (effectiveClientID c)) (current (o_Secrets L) (oauthSecretKey c) (oauthSecret c)) m \<longrightarrow>
        ad_Secret adm (o_Secrets L (oauthSecretKey c)) m) \<and>
     ad_OAuthClient adm (withSecretName c)"

context kube_reliable
begin

lemma ReconcileOAuthClient_completes:
  assumes "healthy w" and c: "o_OAuthClients (live w) req = Some c" "meta_key (c_Meta c) = req"
    and own: "claimable ''AutheliaOAuthClient'' (c_Meta c) (o_Secrets (live w)) (oauthSecretKey c) s_Meta"
    and tape: "Public (c_Spec c) \<or> 64 \<le> length (tape w)" and ok: "client_admitted adm K fips c (live w)"
  shows "completes (ReconcileOAuthClient K fips req) w (\<lambda>r w'. r = \<lparr>RequeueAfter = 0\<rparr> \<and> healthy w')"
proof -
  obtain w1 where get: "get_OAuthClient K req w = (Inr c, w1)" "healthy w1" "tape w1 = tape w"
    using get_OAuthClient_works[OF assms(1) c(1)] by blast
  have live1: "live w1 = live w" using get_OAuthClient_reads[OF get(1)] by simp
  let ?s = "current (o_Secrets (live w1)) (meta_key (s_Meta (oauthSecret c))) (oauthSecret c)"
  have "completes (oauthMutate K fips c (effectiveClientID c) ?s) (tape w1) (\<lambda>_ _. True)"
    using claimable_current[OF own, of "oauthSecret c"] tape
    by (intro oauthMutate_works) (simp_all add: live1 get)
  then have "completes (oauthMutate K fips c (effectiveClientID c) ?s) (tape w1)
      (\<lambda>m _. ad_Secret adm (o_Secrets (live w1) (meta_key (s_Meta (oauthSecret c)))) m)"
    by (rule completes_mutated) (use ok live1 in \<open>simp add: client_admitted_def\<close>)
  from cou_Secret_completes[where s = "oauthSecret c" and f = "oauthMutate K fips c (effectiveClientID c)", OF get(2) this]
  obtain s' w2 x where cou: "cou_Secret K (oauthSecret c) (oauthMutate K fips c (effectiveClientID c)) w1 = (Inr s', w2)"
      "healthy w2" "live w2 = (live w1)\<lparr>o_Secrets := x\<rparr>"
    by (auto simp: completes_def)
  have "o_OAuthClients (live w2) (meta_key (c_Meta (withSecretName c))) = Some c"
    using cou(3) c by (simp add: live1)
  then obtain w3 where st: "status_OAuthClient K (withSecretName c) w2 = (Inr (), w3)" "healthy w3"
    using status_OAuthClient_works[OF cou(2), of "withSecretName c" c] ok by (auto simp: client_admitted_def)
  show ?thesis
    using get(1) cou st by (auto simp: completes_def ReconcileOAuthClient_def bindA_def)
qed

section \<open>The Authelia reconciler\<close>

lemma clientSecretDigest_completes:
  assumes "healthy w"
  shows "completes (clientSecretDigest K c) w (\<lambda>_ w'. healthy w' \<and> tape w' = tape w \<and> live w' = live w)"
proof -
  let ?k = "(Namespace (c_Meta c), if SecretName (c_Status c) = [] then Name (c_Meta c) @ ''-oauth-secret''
     else SecretName (c_Status c))"
  obtain w' where get: "get_Secret K ?k w =
      (case o_Secrets (live w) ?k of Some s \<Rightarrow> Inr s | None \<Rightarrow> Inl NotFound, w')" "healthy w'" "tape w' = tape w"
    using get_Secret_works[OF assms] by blast
  with get_Secret_reads[OF get(1)] show ?thesis
    by (auto simp: completes_def clientSecretDigest_def Let_def split: option.splits)
qed

lemma collectLoop_completes:
  "healthy w \<Longrightarrow>
   completes (collectLoop K a cs acc) w (\<lambda>_ w'. healthy w' \<and> tape w' = tape w \<and> live w' = live w)"
proof (induction cs arbitrary: acc w)
  case (Cons c cs)
  obtain clients missing where acc: "acc = (clients, missing)" by (rule prod.exhaust)
  have "completes (bindA (clientSecretDigest K c) (\<lambda>d. if d = [] then collectLoop K a cs (x d) else collectLoop K a cs (y d))) w
      (\<lambda>_ w'. healthy w' \<and> tape w' = tape w \<and> live w' = live w)" for x y
    unfolding completes_bind
    by (rule completes_mono[OF clientSecretDigest_completes[OF Cons.prems]])
      (auto intro: completes_mono[OF Cons.IH])
  with Cons acc show ?case by (simp add: Let_def)
qed simp

lemma collectClients_completes:
  assumes "healthy w"
  shows "completes (collectClients K a) w (\<lambda>_ w'. healthy w' \<and> tape w' = tape w \<and> live w' = live w)"
proof -
  obtain cs w' where cs: "list_OAuthClients K w = (Inr cs, w')" "healthy w'" "tape w' = tape w"
    using list_OAuthClients_works[OF assms] by blast
  have "live w' = live w" using list_OAuthClients_reads[OF cs(1)] by simp
  then show ?thesis
    using collectLoop_completes[OF cs(2)] cs
    unfolding collectClients_def completes_bind by (auto intro: completesI)
qed

lemma collectIngressRules_completes:
  assumes "healthy w"
  shows "completes (collectIngressRules K) w (\<lambda>_ w'. healthy w' \<and> tape w' = tape w \<and> live w' = live w)"
proof -
  obtain ings w' where ings: "list_Ingresses K w = (Inr ings, w')" "healthy w'" "tape w' = tape w"
    using list_Ingresses_works[OF assms] by blast
  with list_Ingresses_reads[OF ings(1)] show ?thesis
    by (simp add: completes_def collectIngressRules_eq)
qed

lemma reconcileCoreSecret_completes:
  assumes "healthy w"
    and "ExistingSecret (Deployment (a_Spec a)) = [] \<Longrightarrow>
      claimable ''Authelia'' (a_Meta a) (o_Secrets (live w)) (coreSecretKey a) s_Meta"
    and "ExistingSecret (Deployment (a_Spec a)) = [] \<Longrightarrow>
      completes (generatedCoreSecretData rsa
        (s_Data (current (o_Secrets (live w)) (coreSecretKey a) (newSecret (coreSecretName a) (authNamespace a)))))
        (tape w) (\<lambda>_ _. True)"
    and "\<And>m. ExistingSecret (Deployment (a_Spec a)) = [] \<Longrightarrow>
      mutated (coreMutate K rsa a) (current (o_Secrets (live w)) (coreSecretKey a)
        (newSecret (coreSecretName a) (authNamespace a))) m \<Longrightarrow> ad_Secret adm (o_Secrets (live w) (coreSecretKey a)) m"
  shows "completes (reconcileCoreSecret K rsa a) w (\<lambda>_ w'. healthy w' \<and> (\<exists>x. live w' = (live w)\<lparr>o_Secrets := x\<rparr>))"
proof (cases "ExistingSecret (Deployment (a_Spec a)) = []")
  case True
  let ?new = "newSecret (coreSecretName a) (authNamespace a)"
  let ?s = "current (o_Secrets (live w)) (meta_key (s_Meta ?new)) ?new"
  have "Namespace (s_Meta ?s) = Namespace (a_Meta a)" "ownable ''Authelia'' (a_Meta a) (s_Meta ?s)"
    using claimable_current[OF assms(2)[OF True], of ?new] by simp_all
  note own = setOwner_works[OF this]
  have "completes (coreMutate K rsa a ?s) (tape w) (\<lambda>_ _. True)"
    unfolding coreMutate_def Let_def completes_bind
    using own[of _ "Labels (s_Meta ?s)"] own[of _ "Some (labelsFor a)"] 
    by (auto intro!: completes_mono[OF assms(3)[OF True]])
  then have "completes (coreMutate K rsa a ?s) (tape w)
      (\<lambda>m _. ad_Secret adm (o_Secrets (live w) (meta_key (s_Meta ?new))) m)"
    by (rule completes_mutated) (use assms(4)[OF True] in simp)
  from cou_Secret_completes[where s = ?new and f = "coreMutate K rsa a", OF assms(1) this] True show ?thesis
    by (simp add: reconcileCoreSecret_def completes_bind)
qed (use assms(1) in \<open>auto simp: reconcileCoreSecret_def intro: exI[of _ "o_Secrets (live w)"]\<close>)

lemma labelled_owner_works:
  assumes "Namespace m = Namespace own" and "ownable kind own m"
  shows "\<exists>m'. set_owner K kind own (m\<lparr>Labels := l\<rparr>) = Inr m'"
  using assms by (intro set_owner_works) (simp_all add: ownable_def)

lemma reconcileConfigMap_completes:
  assumes "healthy w" and "claimable ''Authelia'' (a_Meta a) (o_ConfigMaps (live w)) (authNamespace a, configMapName a) cm_Meta"
    and "\<And>m. mutated (configMapMutate K a (buildConfigMap a rendered)) (current (o_ConfigMaps (live w)) (authNamespace a, configMapName a)
      (newConfigMap a)) m \<Longrightarrow> ad_ConfigMap adm (o_ConfigMaps (live w) (authNamespace a, configMapName a)) m"
  shows "completes (reconcileConfigMap K a rendered) w (\<lambda>_ w'. healthy w' \<and> (\<exists>x. live w' = (live w)\<lparr>o_ConfigMaps := x\<rparr>))"
proof -
  let ?new = "newConfigMap a"
  let ?x = "current (o_ConfigMaps (live w)) (meta_key (cm_Meta ?new)) ?new"
  have "Namespace (cm_Meta ?x) = Namespace (a_Meta a)" "ownable ''Authelia'' (a_Meta a) (cm_Meta ?x)"
    using claimable_current[OF assms(2), of ?new] by (simp_all add:  new_meta_def meta_key_def)
  then have "completes (configMapMutate K a (buildConfigMap a rendered) ?x) (tape w) (\<lambda>_ _. True)"
    unfolding configMapMutate_def Let_def using labelled_owner_works by fastforce
  then have "completes (configMapMutate K a (buildConfigMap a rendered) ?x) (tape w)
      (\<lambda>m _. ad_ConfigMap adm (o_ConfigMaps (live w) (meta_key (cm_Meta ?new))) m)"
    by (rule completes_mutated) (use assms(3) in \<open>simp add: new_meta_def meta_key_def\<close>)
  from cou_ConfigMap_completes[where cm = ?new and g = "configMapMutate K a (buildConfigMap a rendered)", OF assms(1) this] show ?thesis
    by (simp add: reconcileConfigMap_def completes_bind)
qed

lemma reconcileService_completes:
  assumes "healthy w" and "claimable ''Authelia'' (a_Meta a) (o_Services (live w)) (authNamespace a, authName a) svc_Meta"
    and "\<And>m. mutated (serviceMutate K a (buildService a)) (current (o_Services (live w)) (authNamespace a, authName a)
      (newService (authName a) (authNamespace a))) m \<Longrightarrow> ad_Service adm (o_Services (live w) (authNamespace a, authName a)) m"
  shows "completes (reconcileService K a) w (\<lambda>_ w'. healthy w' \<and> (\<exists>x. live w' = (live w)\<lparr>o_Services := x\<rparr>))"
proof -
  let ?new = "newService (authName a) (authNamespace a)"
  let ?x = "current (o_Services (live w)) (meta_key (svc_Meta ?new)) ?new"
  have "Namespace (svc_Meta ?x) = Namespace (a_Meta a)" "ownable ''Authelia'' (a_Meta a) (svc_Meta ?x)"
    using claimable_current[OF assms(2), of ?new] by simp_all
  then have "completes (serviceMutate K a (buildService a) ?x) (tape w) (\<lambda>_ _. True)"
    unfolding serviceMutate_def Let_def using labelled_owner_works by fastforce
  then have "completes (serviceMutate K a (buildService a) ?x) (tape w)
      (\<lambda>m _. ad_Service adm (o_Services (live w) (meta_key (svc_Meta ?new))) m)"
    by (rule completes_mutated) (use assms(3) in simp)
  from cou_Service_completes[where v = ?new and h = "serviceMutate K a (buildService a)", OF assms(1) this] show ?thesis
    by (simp add: reconcileService_def completes_bind)
qed

lemma reconcileDeployment_completes:
  assumes "healthy w" and "claimable ''Authelia'' (a_Meta a) (o_Deployments (live w)) (authNamespace a, authName a) d_Meta"
    and "\<And>m. mutated (deploymentMutate K a (buildDeployment a oidc checksum)) (current (o_Deployments (live w)) (authNamespace a, authName a)
      (newDeployment (authName a) (authNamespace a))) m \<Longrightarrow> ad_Deployment adm (o_Deployments (live w) (authNamespace a, authName a)) m"
  shows "completes (reconcileDeployment K a oidc checksum) w (\<lambda>_ w'. healthy w' \<and> (\<exists>x. live w' = (live w)\<lparr>o_Deployments := x\<rparr>))"
proof -
  let ?new = "newDeployment (authName a) (authNamespace a)"
  let ?x = "current (o_Deployments (live w)) (meta_key (d_Meta ?new)) ?new"
  have "Namespace (d_Meta ?x) = Namespace (a_Meta a)" "ownable ''Authelia'' (a_Meta a) (d_Meta ?x)"
    using claimable_current[OF assms(2), of ?new] by simp_all
  then have "completes (deploymentMutate K a (buildDeployment a oidc checksum) ?x) (tape w) (\<lambda>_ _. True)"
    unfolding deploymentMutate_def Let_def using labelled_owner_works by fastforce
  then have "completes (deploymentMutate K a (buildDeployment a oidc checksum) ?x) (tape w)
      (\<lambda>m _. ad_Deployment adm (o_Deployments (live w) (meta_key (d_Meta ?new))) m)"
    by (rule completes_mutated) (use assms(3) in simp)
  from cou_Deployment_completes[where d = ?new and i = "deploymentMutate K a (buildDeployment a oidc checksum)", OF assms(1) this] show ?thesis
    by (simp add: reconcileDeployment_def completes_bind)
qed

lemma reconcileDataPVC_completes:
  assumes "healthy w"
    and "VolumeClaimTemplate (Deployment (a_Spec a)) \<noteq> None \<Longrightarrow> \<exists>p. buildDataPVC a = Inr p \<and> ad_PVC adm p"
  shows "completes (reconcileDataPVC K a) w (\<lambda>_ w'. healthy w' \<and> (\<exists>x. live w' = (live w)\<lparr>o_PVCs := x\<rparr>))"
proof (cases "VolumeClaimTemplate (Deployment (a_Spec a)) = None")
  case True
  with assms(1) show ?thesis by (auto simp: completes_def reconcileDataPVC_def intro: exI[of _ "o_PVCs (live w)"])
next
  case False
  let ?k = "(authNamespace a, dataPVCName a)"
  obtain w1 where get: "get_PVC K ?k w = (case o_PVCs (live w) ?k of Some p \<Rightarrow> Inr p | None \<Rightarrow> Inl NotFound, w1)"
      "healthy w1"
    using get_PVC_works[OF assms(1)] by blast
  have live1: "live w1 = live w" using get_PVC_reads[OF get(1)] by simp
  from False assms(2) obtain p where p: "buildDataPVC a = Inr p" "ad_PVC adm p" by blast
  from p(1) have k: "meta_key (pvc_Meta p) = ?k"
    by (auto simp: buildDataPVC_def new_meta_def meta_key_def split: option.splits sum.splits)
  show ?thesis
  proof (cases "o_PVCs (live w) ?k")
    case None
    then obtain w2 where made: "create_PVC K p w1 = (Inr (), w2)" "healthy w2"
      using create_PVC_works[OF get(2), of p] k live1 p(2) by auto
    from create_PVC_done[OF made(1)] None get False made p live1 show ?thesis
      by (auto simp: completes_def reconcileDataPVC_def bindA_def wrote_PVC_def Let_def)
  next
    case (Some q)
    with get False live1 show ?thesis
      by (auto simp: completes_def reconcileDataPVC_def intro: exI[of _ "o_PVCs (live w)"])
  qed
qed

lemma updateStatus_completes:
  assumes "healthy w" and "o_Authelias (live w) (meta_key (a_Meta a)) = Some a" and "ad_Authelia adm (withStatus a n ids ds)"
  shows "completes (updateStatus K a n ids ds) w (\<lambda>_. healthy)"
  using status_Authelia_works[OF assms(1), of "withStatus a n ids ds" a] assms(2,3)
  by (auto simp: updateStatus_def completes_def)

end

text \<open>Nothing stands in the way of the writes for a resource: what is there already can be claimed.\<close>

definition writable :: "Authelia \<Rightarrow> objects \<Rightarrow> bool" where
  "writable a L \<longleftrightarrow>
     (ExistingSecret (Deployment (a_Spec a)) = [] \<longrightarrow>
      claimable ''Authelia'' (a_Meta a) (o_Secrets L) (coreSecretKey a) s_Meta) \<and>
     claimable ''Authelia'' (a_Meta a) (o_ConfigMaps L) (authNamespace a, configMapName a) cm_Meta \<and>
     claimable ''Authelia'' (a_Meta a) (o_Services L) (authNamespace a, authName a) svc_Meta \<and>
     claimable ''Authelia'' (a_Meta a) (o_Deployments L) (authNamespace a, authName a) d_Meta"

text \<open>
  The objects a run writes for a resource are admitted: what the mutate functions make of the
  objects that are there, the claim, and the status, whatever text is rendered and whatever
  clients and rules are found.
\<close>

definition instance_admitted :: "admission \<Rightarrow> 'w kube \<Rightarrow> rsa_gen \<Rightarrow> Authelia \<Rightarrow> objects \<Rightarrow> bool" where
  "instance_admitted adm K rsa a L \<longleftrightarrow>
     (ExistingSecret (Deployment (a_Spec a)) = [] \<longrightarrow>
      (\<forall>m. mutated (coreMutate K rsa a) (current (o_Secrets L) (coreSecretKey a)
              (newSecret (coreSecretName a) (authNamespace a))) m \<longrightarrow>
         ad_Secret adm (o_Secrets L (coreSecretKey a)) m)) \<and>
     (\<forall>rendered m. mutated (configMapMutate K a (buildConfigMap a rendered))
              (current (o_ConfigMaps L) (authNamespace a, configMapName a) (newConfigMap a)) m \<longrightarrow>
         ad_ConfigMap adm (o_ConfigMaps L (authNamespace a, configMapName a)) m) \<and>
     (\<forall>m. mutated (serviceMutate K a (buildService a))
              (current (o_Services L) (authNamespace a, authName a) (newService (authName a) (authNamespace a))) m \<longrightarrow>
         ad_Service adm (o_Services L (authNamespace a, authName a)) m) \<and>
     (\<forall>oidc checksum m. mutated (deploymentMutate K a (buildDeployment a oidc checksum))
              (current (o_Deployments L) (authNamespace a, authName a)
                (newDeployment (authName a) (authNamespace a))) m \<longrightarrow>
         ad_Deployment adm (o_Deployments L (authNamespace a, authName a)) m) \<and>
     (\<forall>p. buildDataPVC a = Inr p \<longrightarrow> ad_PVC adm p) \<and>
     (\<forall>n ids ds. ad_Authelia adm (withStatus a n ids ds))"

text \<open>The entropy is enough for the core keys that are missing.\<close>

definition enough_entropy :: "rsa_gen \<Rightarrow> Authelia \<Rightarrow> objects \<Rightarrow> bytes \<Rightarrow> bool" where
  "enough_entropy rsa a L t \<longleftrightarrow>
     (ExistingSecret (Deployment (a_Spec a)) = [] \<longrightarrow>
      completes (generatedCoreSecretData rsa
        (s_Data (current (o_Secrets L) (coreSecretKey a) (newSecret (coreSecretName a) (authNamespace a)))))
        t (\<lambda>_ _. True))"

context kube_reliable
begin

lemma writeObjects_completes:
  assumes "healthy w" and "writable a (live w)" and "enough_entropy (lib_rsa_GenerateKey lib) a (live w) (tape w)"
    and a: "o_Authelias (live w) (meta_key (a_Meta a)) = Some a"
    and ok: "instance_admitted adm K (lib_rsa_GenerateKey lib) a (live w)"
  shows "completes (writeObjects K lib a clients missing ds rendered) w (\<lambda>_. healthy)"
proof -
  have pvc: "\<exists>p. buildDataPVC a = Inr p \<and> ad_PVC adm p" if "VolumeClaimTemplate (Deployment (a_Spec a)) \<noteq> None"
    using that ok by (auto simp: buildDataPVC_def instance_admitted_def)
  have "completes (reconcileCoreSecret K (lib_rsa_GenerateKey lib) a) w
      (\<lambda>_ w'. healthy w' \<and> (\<exists>x. live w' = (live w)\<lparr>o_Secrets := x\<rparr>))"
    using assms(2,3) ok
    by (intro reconcileCoreSecret_completes[OF assms(1)]) (simp_all add: writable_def enough_entropy_def instance_admitted_def)
  then show ?thesis
    unfolding writeObjects_def completes_bind
  proof (rule completes_mono)
    fix u w1
    assume "healthy w1 \<and> (\<exists>x. live w1 = (live w)\<lparr>o_Secrets := x\<rparr>)"
    then obtain x where w1: "healthy w1" "live w1 = (live w)\<lparr>o_Secrets := x\<rparr>" by blast
    show "completes (reconcileConfigMap K a rendered) w1 (\<lambda>_ w'. completes (reconcileService K a) w' (\<lambda>_ w'.
      completes (reconcileDataPVC K a) w' (\<lambda>_ w'.
      completes (reconcileDeployment K a (clients \<noteq> []) (configChecksum rendered)) w' (\<lambda>n w'.
      completes (updateStatus K a n (sort (map (\<lambda>c. ClientID (oc_spec c)) clients)) ds) w' (\<lambda>_ w'.
      completes (returnA \<lparr>RequeueAfter = (if missing > 0 then 10 * second else 0)\<rparr>) w' (\<lambda>_. healthy))))))"
      using assms(2) w1 pvc ok a
      by (auto simp: writable_def instance_admitted_def
          intro!: completes_mono[OF reconcileConfigMap_completes] completes_mono[OF reconcileService_completes]
            completes_mono[OF reconcileDataPVC_completes] completes_mono[OF reconcileDeployment_completes]
            completes_mono[OF updateStatus_completes])
  qed
qed

lemma ReconcileAuthelia_completes:
  assumes "healthy w" and a: "o_Authelias (live w) req = Some a" and "writable a (live w)"
    and "enough_entropy (lib_rsa_GenerateKey lib) a (live w) (tape w)"
    and "initialRoot (Settings (a_Spec a)) = Inr (Some m)" and "\<And>root. lib_yaml_Marshal lib (Some root) \<noteq> None"
    and "meta_key (a_Meta a) = req" and "instance_admitted adm K (lib_rsa_GenerateKey lib) a (live w)"
  shows "completes (ReconcileAuthelia K lib req) w (\<lambda>_. healthy)"
proof -
  have render: "\<exists>text. renderConfig (lib_sort_Slice lib) (lib_yaml_Marshal lib) (Settings (a_Spec a)) clients rules
      (Hostname (a_Spec a)) = Inr text" for clients rules
    using assms(6) by (auto simp: renderConfig_def renderRoot_stores[OF assms(5)] split: option.splits)
  obtain w1 where get: "get_Authelia K req w = (Inr a, w1)" "healthy w1" "tape w1 = tape w"
    using get_Authelia_works[OF assms(1) a] by blast
  have live1: "live w1 = live w" using get_Authelia_reads[OF get(1)] by simp
  have rest: "completes (bindA (liftR (renderConfig (lib_sort_Slice lib) (lib_yaml_Marshal lib) (Settings (a_Spec a))
        clients rules (Hostname (a_Spec a)))) (writeObjects K lib a clients missing ds)) v (\<lambda>_. healthy)"
    if "healthy v" "tape v = tape w" "live v = live w" for clients rules missing ds v
    using render[of clients rules] writeObjects_completes[OF that(1)] assms(3,4,7,8) a that by (auto simp: completes_bind)
  have "completes (reconcileBody K lib a) w1 (\<lambda>_. healthy)"
    unfolding reconcileBody_def case_prod_unfold completes_bind[of "collectClients K a"]
      completes_bind[of "collectIngressRules K"]
    using get live1
    by (auto intro!: completes_mono[OF collectClients_completes] completes_mono[OF collectIngressRules_completes] rest)
  with get(1) show ?thesis by (simp add: completes_def ReconcileAuthelia_def)
qed

end

section \<open>Properties\<close>

text \<open>C2: The Authelia reconciler succeeds when nothing stands in its way: when calls do not fail without a
  reason, the API server admits the objects that are written, \<open>additionalConfig\<close> is empty or the
  text of an object, the marshaller does not fail, there is entropy for the core keys that are
  missing, and no foreign controller owns an object of the same name, a run for an existing
  resource returns without error, and then the core Secret, the ConfigMap with a rendered text,
  the Service, the claim and the Deployment with the checksum of that text are in place.\<close>

theorem authelia_reconcile_succeeds:
  assumes "kube_reliable K live healthy tape adm" and "healthy w" and "o_Authelias (live w) req = Some a"
    and "meta_key (a_Meta a) = req" and "writable a (live w)"
    and "instance_admitted adm K (lib_rsa_GenerateKey lib) a (live w)"
    and "enough_entropy (lib_rsa_GenerateKey lib) a (live w) (tape w)"
    and "initialRoot (Settings (a_Spec a)) = Inr (Some m)" and "\<forall>root. lib_yaml_Marshal lib (Some root) \<noteq> None"
  shows "\<exists>res w'. ReconcileAuthelia K lib req w = (Inr res, w') \<and>
    core_stored a (live w') \<and> service_stored a (live w') \<and> claim_stored a (live w') \<and>
    (\<exists>oidc rendered. config_stored a rendered (live w') \<and> deployment_stored a oidc rendered (live w'))"
proof -
  have fresh: "kube_fresh K live" using assms(1) by (simp add: kube_reliable_def)
  obtain res w' where run: "ReconcileAuthelia K lib req w = (Inr res, w')"
    using kube_reliable.ReconcileAuthelia_completes[OF assms(1-3,5,7,8) _ assms(4,6)] assms(9)
    by (auto simp: completes_def)
  obtain w0 where "get_Authelia K req w = (Inr a, w0)"
    using kube_reliable.get_Authelia_works[OF assms(1-3)] by blast
  from kube_fresh.authelia_established[OF fresh this assms(4) run] run show ?thesis
    by (auto simp: Let_def)
qed

lemma api_admission_new:
  "ad_Secret api_admission None s" "ad_ConfigMap api_admission oc cm" "ad_Service api_admission ov v"
  "ad_Deployment api_admission None d \<longleftrightarrow> distinct (map vol_Name (pod_Volumes (ds_Template (d_Spec d))))"
  "ad_PVC api_admission p" "ad_Authelia api_admission a" "ad_OAuthClient api_admission c"
  by (simp_all add: api_admission_def)

lemma deploymentMutate_spec: "mutated (deploymentMutate K a desired) d m \<Longrightarrow> d_Spec m = d_Spec desired"
  by (auto simp: mutated_def deploymentMutate_def Let_def)

lemma sample_admitted:
  "instance_admitted api_admission (admitting_kube api_admission) sample_rsa sample_authelia (mem_live sample_server)"
proof -
  have volumes: "distinct (map vol_Name (podVolumes sample_authelia))" by code_simp
  have none: "o_Deployments (mem_live sample_server) k = None"
    "o_Secrets (mem_live sample_server) (coreSecretKey sample_authelia) = None" for k
    by (simp_all add: mem_live_def sample_server_def empty_server_def coreSecretName_def sample_authelia_def new_meta_def)
  show ?thesis
    unfolding instance_admitted_def none
    using volumes by (auto simp: api_admission_new buildDeployment_sel dest!: deploymentMutate_spec)
qed

theorem authelia_reconcile_succeeds_witness:
  "\<exists>res w'. ReconcileAuthelia (admitting_kube api_admission) sample_lib (''auth'', ''sso'') sample_server = (Inr res, w') \<and>
    (\<exists>oidc rendered. config_stored sample_authelia rendered (mem_live w') \<and>
       deployment_stored sample_authelia oidc rendered (mem_live w'))"
proof -
  have lib: "lib_rsa_GenerateKey sample_lib = sample_rsa" "\<forall>root. lib_yaml_Marshal sample_lib (Some root) \<noteq> None"
    by (simp_all add: sample_lib_def)
  have ok: "mem_healthy sample_server" "o_Authelias (mem_live sample_server) (''auth'', ''sso'') = Some sample_authelia"
    by (simp_all add: mem_healthy_def mem_live_def sample_server_def empty_server_def)
  have free: "writable sample_authelia (mem_live sample_server)"
    by (auto simp: writable_def claimable_def mem_live_def sample_server_def empty_server_def sample_key coreSecretName_def
        split: if_splits)
  have entropy: "enough_entropy (lib_rsa_GenerateKey sample_lib) sample_authelia (mem_live sample_server)
      (m_tape sample_server)"
    using sample_core_run unfolding lib
    by (simp add: enough_entropy_def completes_def mem_live_def sample_server_def empty_server_def current_def
        newSecret_def coreSecretName_def sample_authelia_def new_meta_def)
  have root: "initialRoot (Settings (a_Spec sample_authelia)) = Inr (Some [])"
    by (simp add: sample_authelia_def sample_settings_def initialRoot_def)
  from authelia_reconcile_succeeds[OF admitting_ok.kube_reliable_axioms ok sample_key free _ entropy root lib(2)]
    sample_admitted show ?thesis unfolding lib by blast
qed

text \<open>C10: The OAuth client reconciler succeeds: when calls do not fail without a reason, the API server
  admits the Secret and the status that are written, there are 64 bytes of entropy (none are
  needed for a public client) and no foreign controller owns the client's Secret, a run for an
  existing client returns without error and without a delay, in FIPS mode or not; afterwards
  the Secret holds the client ID and, for a confidential client, a secret and a digest, and the
  status names it.\<close>

theorem oauth_reconcile_succeeds:
  assumes "kube_reliable K live healthy tape adm" and "healthy w" and "o_OAuthClients (live w) req = Some c"
    and "meta_key (c_Meta c) = req"
    and "claimable ''AutheliaOAuthClient'' (c_Meta c) (o_Secrets (live w)) (oauthSecretKey c) s_Meta"
    and "Public (c_Spec c) \<or> 64 \<le> length (tape w)" and "client_admitted adm K fips c (live w)"
  shows "\<exists>w'. ReconcileOAuthClient K fips req w = (Inr \<lparr>RequeueAfter = 0\<rparr>, w') \<and>
    (\<exists>s. o_Secrets (live w') (oauthSecretKey c) = Some s \<and>
      secret_data s ''client_id'' = Some (effectiveClientID c) \<and>
      has_value (secret_data s) ''client_secret'' = (\<not> Public (c_Spec c)) \<and>
      has_value (secret_data s) ''client_secret_digest'' = (\<not> Public (c_Spec c))) \<and>
    (\<exists>c'. o_OAuthClients (live w') req = Some c' \<and> SecretName (c_Status c') = oauthSecretName c)"
proof -
  have fresh: "kube_fresh K live" using assms(1) by (simp add: kube_reliable_def)
  obtain w' where run: "ReconcileOAuthClient K fips req w = (Inr \<lparr>RequeueAfter = 0\<rparr>, w')"
    using kube_reliable.ReconcileOAuthClient_completes[OF assms] by (auto simp: completes_def)
  obtain w0 where "get_OAuthClient K req w = (Inr c, w0)"
    using kube_reliable.get_OAuthClient_works[OF assms(1-3)] by blast
  from kube_fresh.oauth_established[OF fresh run this assms(4)] run show ?thesis
    by (auto simp: has_value_def split: if_splits)
qed

text \<open>A server with a client whose Secret was emptied, and 64 bytes of entropy.\<close>

definition sample_new_client :: server where
  "sample_new_client = empty_server\<lparr>m_OAuthClients := [((''web'', ''grafana''), sample_oauth)],
     m_Secrets := [((''web'', ''grafana-oauth-secret''),
       \<lparr>s_Meta = new_meta ''grafana-oauth-secret'' ''web'', s_Type = ''Opaque'', s_Data = None\<rparr>)],
     m_tape := replicate 64 (CHR ''x'')\<rparr>"

theorem oauth_reconcile_succeeds_witness:
  "\<exists>w' s. ReconcileOAuthClient (admitting_kube api_admission) True (''web'', ''grafana'') sample_new_client =
       (Inr \<lparr>RequeueAfter = 0\<rparr>, w') \<and>
     o_Secrets (mem_live w') (''web'', ''grafana-oauth-secret'') = Some s \<and>
     has_value (secret_data s) ''client_secret''"
proof -
  have key: "oauthSecretKey sample_oauth = (''web'', ''grafana-oauth-secret'')" "\<not> Public (c_Spec sample_oauth)"
    by (simp_all add: sample_oauth_def sample_spec_def oauthSecretName_def new_meta_def)
  have ok: "mem_healthy sample_new_client"
    "o_OAuthClients (mem_live sample_new_client) (''web'', ''grafana'') = Some sample_oauth"
    "meta_key (c_Meta sample_oauth) = (''web'', ''grafana'')"
    by (simp_all add: mem_healthy_def mem_live_def sample_new_client_def empty_server_def sample_oauth_def
        new_meta_def meta_key_def)
  have free: "claimable ''AutheliaOAuthClient'' (c_Meta sample_oauth) (o_Secrets (mem_live sample_new_client))
      (oauthSecretKey sample_oauth) s_Meta"
    unfolding key
    by (simp add: claimable_def mem_live_def sample_new_client_def empty_server_def ownable_def new_meta_def sample_oauth_def)
  have entropy: "Public (c_Spec sample_oauth) \<or> 64 \<le> length (m_tape sample_new_client)"
    by (simp add: sample_new_client_def)
  have "client_admitted api_admission (admitting_kube api_admission) True sample_oauth (mem_live sample_new_client)"
    using kube_api.oauthMutate_result[OF admitting.kube_api_axioms]
    unfolding client_admitted_def key
    by (fastforce simp: api_admission_def mem_live_def sample_new_client_def)
  from oauth_reconcile_succeeds[OF admitting_ok.kube_reliable_axioms ok free entropy this] key show ?thesis
    by auto
qed

end
