(* ===== verification/GoHeap.thy ===== *)
theory GoHeap
  imports Prelude
begin

text \<open>
  Memory for code that follows and creates pointers.

  A heap is a list of blocks, the address of a block is its index, and allocation appends.
  A block is an array of values of one Go type: \<open>new(T)\<close> makes an array of one element,
  \<open>make([]T, n)\<close> one of \<open>n\<close>. A pointer is a block and an index into it (Go lets a pointer
  point at an element of a slice), a slice is a block, an offset and a length, and \<open>nil\<close> is
  \<open>None\<close> for both. The block type is a parameter: a \<open>kind\<close> says how the arrays of one Go type
  are stored as blocks. An action returns \<open>None\<close> when it follows a pointer that does not
  point to a value of its type, which a Go program cannot do.

  A \<open>repr\<close> explains what a value in memory stands for: \<open>view\<close> is the tree one sees by
  following every pointer, with \<open>nil\<close> apart from the empty slice (two values are
  \<open>reflect.DeepEqual\<close> when their trees are equal), and \<open>foot\<close> is the set of blocks on the way.
  The locale \<open>heap_repr\<close> states the frame law of a \<open>repr\<close>, the locale \<open>deep_copier\<close> what a
  deep copy promises. The closure rules for pointers, slices and structs follow the shapes
  of code a deep-copy generator emits.
\<close>

section \<open>Memory\<close>

type_synonym ptr = "nat \<times> nat"
type_synonym slice = "nat \<times> nat \<times> nat"
type_synonym ('b, 'a) heap_act = "'b list \<Rightarrow> ('a \<times> 'b list) option"

record ('b, 'r) kind =
  pack :: "'r list \<Rightarrow> 'b"
  unpack :: "'b \<Rightarrow> 'r list option"

definition returnH :: "'a \<Rightarrow> ('b, 'a) heap_act" where
  "returnH x h = Some (x, h)"

definition bindH :: "('b, 'a) heap_act \<Rightarrow> ('a \<Rightarrow> ('b, 'c) heap_act) \<Rightarrow> ('b, 'c) heap_act" where
  "bindH m f h = (case m h of None \<Rightarrow> None | Some (x, h') \<Rightarrow> f x h')"

definition block :: "('b, 'r) kind \<Rightarrow> 'b list \<Rightarrow> nat \<Rightarrow> 'r list option" where
  "block k h a = (if a < length h then unpack k (h ! a) else None)"

definition load :: "('b, 'r) kind \<Rightarrow> 'b list \<Rightarrow> ptr \<Rightarrow> 'r option" where
  "load k h p =
     (case p of (a, i) \<Rightarrow>
        (case block k h a of
           None \<Rightarrow> None
         | Some xs \<Rightarrow> if i < length xs then Some (xs ! i) else None))"

definition readH :: "('b, 'r) kind \<Rightarrow> ptr \<Rightarrow> ('b, 'r) heap_act" where
  "readH k p h = (case load k h p of None \<Rightarrow> None | Some x \<Rightarrow> Some (x, h))"

definition writeH :: "('b, 'r) kind \<Rightarrow> ptr \<Rightarrow> 'r \<Rightarrow> ('b, unit) heap_act" where
  "writeH k p x h =
     (case p of (a, i) \<Rightarrow>
        (case block k h a of
           None \<Rightarrow> None
         | Some xs \<Rightarrow> if i < length xs then Some ((), h[a := pack k (xs[i := x])]) else None))"

definition newH :: "('b, 'r) kind \<Rightarrow> 'r \<Rightarrow> ('b, ptr) heap_act" where
  "newH k zero h = Some ((length h, 0), h @ [pack k [zero]])"

definition makeH :: "('b, 'r) kind \<Rightarrow> 'r \<Rightarrow> nat \<Rightarrow> ('b, slice) heap_act" where
  "makeH k zero n h = Some ((length h, 0, n), h @ [pack k (replicate n zero)])"

definition elements :: "('b, 'r) kind \<Rightarrow> 'b list \<Rightarrow> slice \<Rightarrow> 'r list option" where
  "elements k h s =
     (case s of (a, off, n) \<Rightarrow>
        (case block k h a of
           None \<Rightarrow> None
         | Some xs \<Rightarrow> if off + n \<le> length xs then Some (take n (drop off xs)) else None))"

text \<open>The built-in \<open>copy(dst, src)\<close> moves the first elements of \<open>src\<close>, as many as both have.\<close>

definition copyH :: "('b, 'r) kind \<Rightarrow> slice \<Rightarrow> slice \<Rightarrow> ('b, unit) heap_act" where
  "copyH k dst src h =
     (case (dst, elements k h dst, elements k h src) of
        ((a, off, n), Some ds, Some xs) \<Rightarrow>
          (case block k h a of
             None \<Rightarrow> None
           | Some old \<Rightarrow>
               (let m = min n (length xs) in
                Some ((), h[a := pack k (take off old @ take m xs @ drop (off + m) old)])))
      | _ \<Rightarrow> None)"

lemmas act_defs = returnH_def bindH_def readH_def writeH_def newH_def makeH_def

section \<open>What a value in memory stands for\<close>

datatype gval = GNil | GBool bool | GInt int32 | GString string | GRef gval
  | GSlice "gval list" | GStruct "gval list"

record ('b, 'r) repr =
  view :: "'b list \<Rightarrow> 'r \<Rightarrow> gval option"
  foot :: "'b list \<Rightarrow> 'r \<Rightarrow> nat set"

definition plain :: "('r \<Rightarrow> gval) \<Rightarrow> ('b, 'r) repr" where
  "plain f = \<lparr>view = (\<lambda>h x. Some (f x)), foot = (\<lambda>h x. {})\<rparr>"

definition pointer :: "('b, 'r) kind \<Rightarrow> ('b, 'r) repr \<Rightarrow> ('b, ptr option) repr" where
  "pointer k R =
     \<lparr>view = (\<lambda>h p. case p of
         None \<Rightarrow> Some GNil
       | Some q \<Rightarrow> Option.bind (load k h q) (\<lambda>x. map_option GRef (view R h x))),
      foot = (\<lambda>h p. case p of
         None \<Rightarrow> {}
       | Some q \<Rightarrow> insert (fst q) (case load k h q of None \<Rightarrow> {} | Some x \<Rightarrow> foot R h x))\<rparr>"

definition slice_of :: "('b, 'r) kind \<Rightarrow> ('b, 'r) repr \<Rightarrow> ('b, slice option) repr" where
  "slice_of k R =
     \<lparr>view = (\<lambda>h p. case p of
         None \<Rightarrow> Some GNil
       | Some s \<Rightarrow>
           Option.bind (elements k h s) (\<lambda>xs. map_option GSlice (those (map (view R h) xs)))),
      foot = (\<lambda>h p. case p of
         None \<Rightarrow> {}
       | Some s \<Rightarrow>
           insert (fst s) (case elements k h s of None \<Rightarrow> {} | Some xs \<Rightarrow> \<Union>x \<in> set xs. foot R h x))\<rparr>"

text \<open>A field of a struct, and a struct as the list of its fields.\<close>

definition part :: "('s \<Rightarrow> 'r) \<Rightarrow> ('b, 'r) repr \<Rightarrow> ('b, 's) repr" where
  "part sel R = \<lparr>view = (\<lambda>h s. view R h (sel s)), foot = (\<lambda>h s. foot R h (sel s))\<rparr>"

definition struct :: "('b, 's) repr list \<Rightarrow> ('b, 's) repr" where
  "struct Rs =
     \<lparr>view = (\<lambda>h s. map_option GStruct (those (map (\<lambda>R. view R h s) Rs))),
      foot = (\<lambda>h s. \<Union>R \<in> set Rs. foot R h s)\<rparr>"

section \<open>Copying\<close>

text \<open>
  The statements of generated code: \<open>*out = new(T); (*in).DeepCopyInto( *out)\<close> (with a plain
  assignment when \<open>T\<close> holds no reference), \<open>*out = make([]T, len( *in))\<close> followed by \<open>copy\<close> or
  by a loop over the elements, and the sequence of field statements of a struct, which starts
  from the shallow copy \<open>*out = *in\<close>.
\<close>

definition copyPtr :: "('b, 'r) kind \<Rightarrow> 'r \<Rightarrow> ('r \<Rightarrow> ('b, 'r) heap_act) \<Rightarrow>
    ptr option \<Rightarrow> ('b, ptr option) heap_act" where
  "copyPtr k zero cp p =
     (case p of
        None \<Rightarrow> returnH None
      | Some q \<Rightarrow>
          bindH (newH k zero) (\<lambda>out.
          bindH (readH k q) (\<lambda>x.
          bindH (cp x) (\<lambda>y.
          bindH (writeH k out y) (\<lambda>_. returnH (Some out))))))"

definition copySlice :: "('b, 'r) kind \<Rightarrow> 'r \<Rightarrow> slice option \<Rightarrow> ('b, slice option) heap_act" where
  "copySlice k zero p =
     (case p of
        None \<Rightarrow> returnH None
      | Some s \<Rightarrow>
          bindH (makeH k zero (snd (snd s))) (\<lambda>out.
          bindH (copyH k out s) (\<lambda>_. returnH (Some out))))"

fun copyLoop :: "('b, 'r) kind \<Rightarrow> ('r \<Rightarrow> ('b, 'r) heap_act) \<Rightarrow> slice \<Rightarrow> slice \<Rightarrow> nat list \<Rightarrow>
    ('b, unit) heap_act" where
  "copyLoop k cp out s [] = returnH ()"
| "copyLoop k cp out s (i # is) =
     bindH (readH k (fst s, fst (snd s) + i)) (\<lambda>x.
     bindH (cp x) (\<lambda>y.
     bindH (writeH k (fst out, fst (snd out) + i) y) (\<lambda>_. copyLoop k cp out s is)))"

definition copyEach :: "('b, 'r) kind \<Rightarrow> 'r \<Rightarrow> ('r \<Rightarrow> ('b, 'r) heap_act) \<Rightarrow>
    slice option \<Rightarrow> ('b, slice option) heap_act" where
  "copyEach k zero cp p =
     (case p of
        None \<Rightarrow> returnH None
      | Some s \<Rightarrow>
          bindH (makeH k zero (snd (snd s))) (\<lambda>out.
          bindH (copyLoop k cp out s [0..<snd (snd s)]) (\<lambda>_. returnH (Some out))))"

text \<open>One field statement: read the field of \<open>in\<close>, copy it, set the field of \<open>out\<close>.\<close>

definition copyField :: "('s \<Rightarrow> 'r) \<Rightarrow> ('r \<Rightarrow> 's \<Rightarrow> 's) \<Rightarrow> ('r \<Rightarrow> ('b, 'r) heap_act) \<Rightarrow>
    's \<Rightarrow> 's \<Rightarrow> ('b, 's) heap_act" where
  "copyField sel upd cp inn out = bindH (cp (sel inn)) (\<lambda>y. returnH (upd y out))"

fun copyFields :: "('s \<Rightarrow> 's \<Rightarrow> ('b, 's) heap_act) list \<Rightarrow> 's \<Rightarrow> 's \<Rightarrow> ('b, 's) heap_act" where
  "copyFields [] inn out = returnH out"
| "copyFields (F # Fs) inn out = bindH (F inn out) (copyFields Fs inn)"

section \<open>The frame law\<close>

definition agree :: "nat set \<Rightarrow> 'b list \<Rightarrow> 'b list \<Rightarrow> bool" where
  "agree A h h' \<longleftrightarrow> (\<forall>a \<in> A. a < length h' \<and> h' ! a = h ! a)"

locale block_kind =
  fixes k :: "('b, 'r) kind"
  assumes unpack_pack [simp]: "unpack k (pack k xs) = Some xs"

locale heap_repr =
  fixes R :: "('b, 'r) repr"
  assumes bounded: "view R h x = Some v \<Longrightarrow> foot R h x \<subseteq> {..<length h}"
    and frame: "view R h x = Some v \<Longrightarrow> agree (foot R h x) h h' \<Longrightarrow>
      view R h' x = Some v \<and> foot R h' x = foot R h x"
begin

lemma grow:
  assumes "view R h x = Some v" and "prefix h h'"
  shows "view R h' x = Some v" and "foot R h' x = foot R h x"
proof -
  have "agree (foot R h x) h h'"
    using bounded[OF assms(1)] assms(2) by (auto simp: agree_def prefix_def nth_append)
  from frame[OF assms(1) this] show "view R h' x = Some v" and "foot R h' x = foot R h x" by simp_all
qed

lemma frame_update:
  assumes "view R h x = Some v" and "a \<notin> foot R h x"
  shows "view R (h[a := b]) x = Some v" and "foot R (h[a := b]) x = foot R h x"
proof -
  have "agree (foot R h x) h (h[a := b])"
    using bounded[OF assms(1)] assms(2) by (auto simp: agree_def intro!: nth_list_update_neq)
  from frame[OF assms(1) this]
  show "view R (h[a := b]) x = Some v" and "foot R (h[a := b]) x = foot R h x" by simp_all
qed

end

lemma agree_subset: "agree A h h' \<Longrightarrow> B \<subseteq> A \<Longrightarrow> agree B h h'"
  by (auto simp: agree_def)

lemma agree_Un [simp]: "agree (A \<union> B) h h' \<longleftrightarrow> agree A h h' \<and> agree B h h'"
  by (auto simp: agree_def)

lemma block_bounded: "block k h a = Some xs \<Longrightarrow> a < length h"
  by (simp add: block_def split: if_splits)

lemma agree_block: "agree (insert a A) h h' \<Longrightarrow> block k h a = Some xs \<Longrightarrow> block k h' a = Some xs"
  by (simp add: agree_def block_def split: if_splits)

lemma load_eq_Some:
  "load k h p = Some x \<longleftrightarrow> (\<exists>xs. block k h (fst p) = Some xs \<and> snd p < length xs \<and> x = xs ! snd p)"
  by (auto simp: load_def split: prod.splits option.splits if_splits)

lemma elements_eq_Some:
  "elements k h s = Some ys \<longleftrightarrow> (\<exists>xs. block k h (fst s) = Some xs \<and>
     fst (snd s) + snd (snd s) \<le> length xs \<and> ys = take (snd (snd s)) (drop (fst (snd s)) xs))"
  by (auto simp: elements_def split: prod.splits option.splits if_splits)

lemma load_bounded: "load k h p = Some x \<Longrightarrow> fst p < length h"
  by (auto simp: load_eq_Some dest: block_bounded)

lemma elements_bounded: "elements k h s = Some ys \<Longrightarrow> fst s < length h"
  by (auto simp: elements_eq_Some dest: block_bounded)

lemma agree_load: "agree (insert (fst p) A) h h' \<Longrightarrow> load k h p = Some x \<Longrightarrow> load k h' p = Some x"
  by (metis agree_block load_eq_Some)

lemma agree_elements:
  "agree (insert (fst s) A) h h' \<Longrightarrow> elements k h s = Some ys \<Longrightarrow> elements k h' s = Some ys"
  by (metis agree_block elements_eq_Some)

lemma those_eq_Some: "those xs = Some vs \<longleftrightarrow> xs = map Some vs"
  by (induction xs arbitrary: vs) (auto split: option.splits)

lemma plain_sel [simp]: "view (plain f) h x = Some (f x)" "foot (plain f) h x = {}"
  by (simp_all add: plain_def)

lemma part_sel [simp]: "view (part sel R) h s = view R h (sel s)" "foot (part sel R) h s = foot R h (sel s)"
  by (simp_all add: part_def)

lemma pointer_sel [simp]:
  "view (pointer k R) h None = Some GNil" "foot (pointer k R) h None = {}"
  "view (pointer k R) h (Some q) = Some v \<longleftrightarrow>
     (\<exists>x u. load k h q = Some x \<and> view R h x = Some u \<and> v = GRef u)"
  "load k h q = Some x \<Longrightarrow> foot (pointer k R) h (Some q) = insert (fst q) (foot R h x)"
  by (auto simp: pointer_def bind_eq_Some_conv)

lemma slice_of_sel [simp]:
  "view (slice_of k R) h None = Some GNil" "foot (slice_of k R) h None = {}"
  "view (slice_of k R) h (Some s) = Some v \<longleftrightarrow>
     (\<exists>xs vs. elements k h s = Some xs \<and> map (view R h) xs = map Some vs \<and> v = GSlice vs)"
  "elements k h s = Some xs \<Longrightarrow>
     foot (slice_of k R) h (Some s) = insert (fst s) (\<Union>x \<in> set xs. foot R h x)"
  by (auto simp: slice_of_def bind_eq_Some_conv those_eq_Some)

lemma struct_sel:
  "view (struct Rs) h s = Some v \<longleftrightarrow>
     (\<exists>vs. map (\<lambda>R. view R h s) Rs = map Some vs \<and> v = GStruct vs)"
  "foot (struct Rs) h s = (\<Union>R \<in> set Rs. foot R h s)"
  by (auto simp: struct_def those_eq_Some)

lemma map_eq_map_SomeD: "map f xs = map Some vs \<Longrightarrow> x \<in> set xs \<Longrightarrow> \<exists>v. f x = Some v"
proof -
  assume "map f xs = map Some vs" and "x \<in> set xs"
  then have "f x \<in> set (map Some vs)" by (metis image_eqI list.set_map)
  then show ?thesis by auto
qed

named_theorems repr_intros \<open>closure rules of \<open>heap_repr\<close>\<close>

lemma heap_repr_plain [repr_intros]: "heap_repr (plain f)"
  by unfold_locales simp_all

lemma heap_repr_part [repr_intros]:
  assumes "heap_repr R"
  shows "heap_repr (part sel R)"
  by unfold_locales (unfold part_sel, rule heap_repr.bounded[OF assms], assumption,
    rule heap_repr.frame[OF assms])

lemma heap_repr_pointer [repr_intros]:
  assumes R: "heap_repr R"
  shows "heap_repr (pointer k R)"
proof
  fix h p v h'
  assume v: "view (pointer k R) h p = Some v"
  show "foot (pointer k R) h p \<subseteq> {..<length h}"
  proof (cases p)
    case (Some q)
    with v obtain x u where "load k h q = Some x" "view R h x = Some u" by auto
    with Some heap_repr.bounded[OF R, of h x u] load_bounded[of k h q x] show ?thesis by simp
  qed simp
  assume fr: "agree (foot (pointer k R) h p) h h'"
  show "view (pointer k R) h' p = Some v \<and> foot (pointer k R) h' p = foot (pointer k R) h p"
  proof (cases p)
    case (Some q)
    with v obtain x u where x: "load k h q = Some x" "view R h x = Some u" "v = GRef u" by auto
    with fr Some have "agree (insert (fst q) (foot R h x)) h h'" by simp
    moreover from this x(1) have "load k h' q = Some x" by (rule agree_load)
    ultimately show ?thesis
      using x Some heap_repr.frame[OF R x(2), of h'] by (auto intro: agree_subset)
  qed (use v in simp)
qed

lemma heap_repr_all_frame:
  assumes "heap_repr R" and "map (view R h) xs = map Some vs" and "agree (\<Union>x \<in> set xs. foot R h x) h h'"
  shows "map (view R h') xs = map Some vs" and "\<forall>x \<in> set xs. foot R h' x = foot R h x"
proof -
  have *: "view R h' x = view R h x \<and> foot R h' x = foot R h x" if "x \<in> set xs" for x
  proof -
    from map_eq_map_SomeD[OF assms(2) that] obtain v where "view R h x = Some v" ..
    with heap_repr.frame[OF assms(1) this, of h'] assms(3) that show ?thesis
      by (auto intro: agree_subset)
  qed
  then show "map (view R h') xs = map Some vs" using assms(2) by (metis (no_types, lifting) map_eq_conv)
  from * show "\<forall>x \<in> set xs. foot R h' x = foot R h x" by simp
qed

lemma heap_repr_slice [repr_intros]:
  assumes R: "heap_repr R"
  shows "heap_repr (slice_of k R)"
proof
  fix h p v h'
  assume v: "view (slice_of k R) h p = Some v"
  show "foot (slice_of k R) h p \<subseteq> {..<length h}"
  proof (cases p)
    case (Some s)
    with v obtain xs vs where x: "elements k h s = Some xs" "map (view R h) xs = map Some vs" by auto
    have "foot R h x \<subseteq> {..<length h}" if "x \<in> set xs" for x
      using map_eq_map_SomeD[OF x(2) that] heap_repr.bounded[OF R] by blast
    then have "(\<Union>x \<in> set xs. foot R h x) \<subseteq> {..<length h}" by blast
    with Some x elements_bounded[OF x(1)] show ?thesis by simp
  qed simp
  assume fr: "agree (foot (slice_of k R) h p) h h'"
  show "view (slice_of k R) h' p = Some v \<and> foot (slice_of k R) h' p = foot (slice_of k R) h p"
  proof (cases p)
    case (Some s)
    with v obtain xs vs where x: "elements k h s = Some xs" "map (view R h) xs = map Some vs"
      "v = GSlice vs" by auto
    with fr Some have fr': "agree (insert (fst s) (\<Union>x \<in> set xs. foot R h x)) h h'" by simp
    then have "elements k h' s = Some xs" using x(1) by (rule agree_elements)
    with heap_repr_all_frame[OF R x(2), of h'] fr' x Some show ?thesis
      by (auto intro: agree_subset)
  qed (use v in simp)
qed

lemma heap_repr_struct [repr_intros]:
  assumes "\<And>R. R \<in> set Rs \<Longrightarrow> heap_repr R"
  shows "heap_repr (struct Rs)"
proof
  fix h s v h'
  assume v: "view (struct Rs) h s = Some v"
  then have each: "\<exists>u. view R h s = Some u" if "R \<in> set Rs" for R
    using that by (auto simp: struct_sel dest: map_eq_map_SomeD)
  show "foot (struct Rs) h s \<subseteq> {..<length h}"
  proof -
    have "foot R h s \<subseteq> {..<length h}" if "R \<in> set Rs" for R
      using each that heap_repr.bounded[OF assms[OF that]] by metis
    then show ?thesis by (auto simp: struct_sel)
  qed
  assume fr: "agree (foot (struct Rs) h s) h h'"
  have "view R h' s = view R h s \<and> foot R h' s = foot R h s" if "R \<in> set Rs" for R
  proof -
    have "agree (foot R h s) h h'" using fr that by (auto simp: struct_sel intro: agree_subset)
    moreover from each[OF that] obtain u where "view R h s = Some u" by blast
    ultimately show ?thesis using heap_repr.frame[OF assms[OF that]] by metis
  qed
  then have "map (\<lambda>R. view R h' s) Rs = map (\<lambda>R. view R h s) Rs" and
    "(\<Union>R \<in> set Rs. foot R h' s) = (\<Union>R \<in> set Rs. foot R h s)" by simp_all
  with v show "view (struct Rs) h' s = Some v \<and> foot (struct Rs) h' s = foot (struct Rs) h s"
    by (simp only: struct_sel simp_thms)
qed

section \<open>Deep copies\<close>

text \<open>
  A deep copy of a value: it succeeds, leaves every existing block as it is, and returns a
  value that shows the same tree and reaches only blocks that did not exist before.
\<close>

locale deep_copier = heap_repr R for R :: "('b, 'r) repr" +
  fixes cp :: "'r \<Rightarrow> ('b, 'r) heap_act"
  assumes copies: "view R h x = Some v \<Longrightarrow> \<exists>x' h'. cp x h = Some (x', h') \<and> prefix h h' \<and>
    view R h' x' = Some v \<and> foot R h' x' \<inter> {..<length h} = {}"
begin

lemma copyE:
  assumes "view R h x = Some v"
  obtains x' h' where "cp x h = Some (x', h')" "prefix h h'" "view R h' x' = Some v"
    "foot R h' x' \<inter> {..<length h} = {}"
  using copies[OF assms] by blast

end

named_theorems copier_intros \<open>closure rules of \<open>deep_copier\<close>\<close>

lemma prefix_update: "prefix h h' \<Longrightarrow> length h \<le> a \<Longrightarrow> prefix h (h'[a := b])"
  by (auto simp: prefix_def list_update_append)

lemma prefix_append1: "prefix h (h @ [b])"
  by simp

lemma prefix_block: "prefix h h' \<Longrightarrow> block k h a = Some xs \<Longrightarrow> block k h' a = Some xs"
  by (auto simp: prefix_def block_def nth_append split: if_splits)

lemma prefix_load: "prefix h h' \<Longrightarrow> load k h p = Some x \<Longrightarrow> load k h' p = Some x"
  unfolding load_eq_Some using prefix_block[of h h' k] by blast

lemma prefix_elements: "prefix h h' \<Longrightarrow> elements k h s = Some ys \<Longrightarrow> elements k h' s = Some ys"
  unfolding elements_eq_Some using prefix_block[of h h' k] by blast

lemma copier_plain [copier_intros]: "deep_copier (plain f) returnH"
  by unfold_locales (auto simp: returnH_def)

context block_kind
begin

lemma block_new [simp]: "block k (h @ [pack k xs]) (length h) = Some xs"
  by (simp add: block_def)

lemma block_update [simp]: "a < length h \<Longrightarrow> block k (h[a := pack k xs]) a = Some xs"
  by (simp add: block_def)

lemma copier_pointer:
  assumes "deep_copier R cp"
  shows "deep_copier (pointer k R) (copyPtr k zero cp)"
proof (intro deep_copier.intro deep_copier_axioms.intro)
  have R: "heap_repr R" using assms by (rule deep_copier.axioms)
  then show "heap_repr (pointer k R)" by (rule repr_intros)
  fix h p v
  assume v: "view (pointer k R) h p = Some v"
  show "\<exists>x' h'. copyPtr k zero cp p h = Some (x', h') \<and> prefix h h' \<and>
    view (pointer k R) h' x' = Some v \<and> foot (pointer k R) h' x' \<inter> {..<length h} = {}"
  proof (cases p)
    case None
    with v show ?thesis by (simp add: copyPtr_def returnH_def)
  next
    case (Some q)
    let ?h1 = "h @ [pack k [zero]]"
    from v Some obtain x u where x: "load k h q = Some x" "view R h x = Some u" and v': "v = GRef u"
      by auto
    have load1: "load k ?h1 q = Some x" by (rule prefix_load[OF prefix_append1 x(1)])
    have "view R ?h1 x = Some u" by (rule heap_repr.grow[OF R x(2) prefix_append1])
    from deep_copier.copyE[OF assms this] obtain y h2 where
      y: "cp x ?h1 = Some (y, h2)" "prefix ?h1 h2" "view R h2 y = Some u"
        "foot R h2 y \<inter> {..<length ?h1} = {}" .
    let ?h3 = "h2[length h := pack k [y]]"
    have blk: "block k h2 (length h) = Some [zero]" by (rule prefix_block[OF y(2)]) simp
    then have len: "length h < length h2" by (rule block_bounded)
    have fresh: "length h \<notin> foot R h2 y" using y(4) by auto
    have run: "copyPtr k zero cp p h = Some (Some (length h, 0), ?h3)"
      using Some load1 y(1) blk by (simp add: copyPtr_def act_defs)
    have "prefix h ?h3" using y(2) by (intro prefix_update) (auto simp: prefix_def)
    moreover have load3: "load k ?h3 (length h, 0) = Some y" using len by (simp add: load_eq_Some)
    moreover have "view R ?h3 y = Some u" "foot R ?h3 y = foot R h2 y"
      by (rule heap_repr.frame_update[OF R y(3) fresh])+
    ultimately show ?thesis using run y(4) v' by (auto simp: disjoint_iff)
  qed
qed

lemma copier_strings:
  "deep_copier (slice_of k (plain f)) (copySlice k zero)"
proof (intro deep_copier.intro deep_copier_axioms.intro repr_intros)
  fix h p v
  assume v: "view (slice_of k (plain f)) h p = Some v"
  show "\<exists>x' h'. copySlice k zero p h = Some (x', h') \<and> prefix h h' \<and>
    view (slice_of k (plain f)) h' x' = Some v \<and> foot (slice_of k (plain f)) h' x' \<inter> {..<length h} = {}"
  proof (cases p)
    case None
    with v show ?thesis by (simp add: copySlice_def returnH_def)
  next
    case (Some s)
    let ?n = "snd (snd s)" and ?h1 = "h @ [pack k (replicate (snd (snd s)) zero)]"
    from v Some obtain xs vs where xs: "elements k h s = Some xs"
      "map (view (plain f) h) xs = map Some vs" "v = GSlice vs" by auto
    have els: "elements k ?h1 s = Some xs" by (rule prefix_elements[OF prefix_append1 xs(1)])
    have len: "length xs = ?n" using xs(1) by (auto simp: elements_eq_Some)
    have "copySlice k zero p h = Some (Some (length h, 0, ?n), h @ [pack k xs])"
      using Some els len by (simp add: copySlice_def act_defs copyH_def elements_def[of _ _ "(_, 0, _)"])
    moreover have "elements k (h @ [pack k xs]) (length h, 0, ?n) = Some xs"
      using len by (simp add: elements_eq_Some)
    moreover have "map (view (plain f) (h @ [pack k xs])) xs = map Some vs"
      using xs(2) by (simp cong: map_cong)
    ultimately show ?thesis using xs(3) by auto
  qed
qed

text \<open>
  The loop over a slice of structs. \<open>copied\<close> says how far it has come: the elements below
  \<open>i\<close> of the target \<open>b\<close> are deep copies of those of the source.
\<close>

definition copied :: "('b, 'r) repr \<Rightarrow> 'b list \<Rightarrow> 'r list \<Rightarrow> nat \<Rightarrow> nat \<Rightarrow> 'b list \<Rightarrow> bool" where
  "copied R h0 xs b i h \<longleftrightarrow>
     prefix h0 h \<and> length h0 \<le> b \<and>
     (\<exists>ys. block k h b = Some ys \<and> length ys = length xs \<and>
       (\<forall>j < i. view R h (ys ! j) = view R h0 (xs ! j) \<and>
                foot R h (ys ! j) \<inter> insert b {..<length h0} = {}))"

lemma copyLoop_step:
  assumes cp: "deep_copier R cp" and inv: "copied R h0 xs b i h" and i: "i < length xs"
    and src: "elements k h0 s = Some xs" and vs: "\<And>x. x \<in> set xs \<Longrightarrow> \<exists>v. view R h0 x = Some v"
  obtains y h1 h2 where "readH k (fst s, fst (snd s) + i) h = Some (xs ! i, h)"
    "cp (xs ! i) h = Some (y, h1)" "writeH k (b, i) y h1 = Some ((), h2)"
    "copied R h0 xs b (Suc i) h2"
proof -
  have R: "heap_repr R" using cp by (rule deep_copier.axioms)
  from inv obtain ys where h: "prefix h0 h" "length h0 \<le> b" and ys: "block k h b = Some ys"
    "length ys = length xs" and old: "\<And>j. j < i \<Longrightarrow> view R h (ys ! j) = view R h0 (xs ! j) \<and>
      foot R h (ys ! j) \<inter> insert b {..<length h0} = {}" unfolding copied_def by blast
  from vs[of "xs ! i"] i obtain v where v0: "view R h0 (xs ! i) = Some v" by auto
  have v: "view R h (xs ! i) = Some v" by (rule heap_repr.grow[OF R v0 h(1)])
  from deep_copier.copyE[OF cp v] obtain y h1 where y: "cp (xs ! i) h = Some (y, h1)" "prefix h h1"
    "view R h1 y = Some v" "foot R h1 y \<inter> {..<length h} = {}" .
  let ?h2 = "h1[b := pack k (ys[i := y])]"
  have blk: "block k h1 b = Some ys" by (rule prefix_block[OF y(2) ys(1)])
  have b: "b < length h" "b < length h1" using block_bounded[OF ys(1)] block_bounded[OF blk] by simp_all
  have pre: "prefix h0 ?h2" using prefix_order.trans[OF h(1) y(2)] h(2) by (rule prefix_update)
  have le: "length h0 \<le> length h" using h(1) by (rule prefix_length_le)
  have "b \<notin> foot R h1 y" using y(4) b by blast
  note new = heap_repr.frame_update[OF R y(3) this, of "pack k (ys[i := y])"]
  have kept: "view R ?h2 (ys ! j) = view R h0 (xs ! j) \<and>
      foot R ?h2 (ys ! j) \<inter> insert b {..<length h0} = {}" if j: "j < i" for j
  proof -
    from vs[of "xs ! j"] i j obtain u where u: "view R h0 (xs ! j) = Some u" by auto
    with old[OF j] have "view R h (ys ! j) = Some u" by simp
    note g = heap_repr.grow[OF R this y(2)]
    have "b \<notin> foot R h1 (ys ! j)" using old[OF j] unfolding g(2) by blast
    from heap_repr.frame_update[OF R g(1) this] g(2) old[OF j] u show ?thesis by simp
  qed
  have "view R ?h2 (ys[i := y] ! j) = view R h0 (xs ! j) \<and>
      foot R ?h2 (ys[i := y] ! j) \<inter> insert b {..<length h0} = {}" if "j < Suc i" for j
  proof (cases "j = i")
    case True
    have "foot R h1 y \<inter> insert b {..<length h0} = {}" using y(4) b(1) le by auto
    with True new v0 i ys(2) show ?thesis by simp
  next
    case False
    then show ?thesis using kept[of j] that by simp
  qed
  then have "copied R h0 xs b (Suc i) ?h2"
    unfolding copied_def using pre h(2) b(2) ys(2) by (intro conjI exI[of _ "ys[i := y]"]) simp_all
  moreover have "load k h0 (fst s, fst (snd s) + i) = Some (xs ! i)"
    using src i by (auto simp: elements_eq_Some load_eq_Some)
  then have "readH k (fst s, fst (snd s) + i) h = Some (xs ! i, h)"
    unfolding readH_def by (simp add: prefix_load[OF h(1)])
  ultimately show thesis using that y(1) blk i ys(2) by (simp add: writeH_def)
qed

lemma copyLoop_all:
  assumes "deep_copier R cp" and "copied R h0 xs b i h" and "i \<le> length xs"
    and "elements k h0 s = Some xs" and "\<And>x. x \<in> set xs \<Longrightarrow> \<exists>v. view R h0 x = Some v"
  shows "\<exists>h'. copyLoop k cp (b, 0, n) s [i..<length xs] h = Some ((), h') \<and>
    copied R h0 xs b (length xs) h'"
  using assms(2,3)
proof (induction "length xs - i" arbitrary: i h)
  case 0
  then show ?case by (simp add: returnH_def)
next
  case (Suc m)
  then have i: "i < length xs" by simp
  obtain y h1 h2 where
    step: "readH k (fst s, fst (snd s) + i) h = Some (xs ! i, h)" "cp (xs ! i) h = Some (y, h1)"
      "writeH k (b, i) y h1 = Some ((), h2)" and inv: "copied R h0 xs b (Suc i) h2"
    by (rule copyLoop_step[OF assms(1) Suc.prems(1) i assms(4,5)])
  have "\<exists>h'. copyLoop k cp (b, 0, n) s [Suc i..<length xs] h2 = Some ((), h') \<and>
      copied R h0 xs b (length xs) h'"
    using Suc.hyps(2) i by (intro Suc.hyps(1) inv) simp_all
  with step i show ?case by (simp add: upt_conv_Cons bindH_def)
qed

lemma copier_each:
  assumes "deep_copier R cp"
  shows "deep_copier (slice_of k R) (copyEach k zero cp)"
proof (intro deep_copier.intro deep_copier_axioms.intro)
  have R: "heap_repr R" using assms by (rule deep_copier.axioms)
  then show "heap_repr (slice_of k R)" by (rule repr_intros)
  fix h p v
  assume v: "view (slice_of k R) h p = Some v"
  show "\<exists>x' h'. copyEach k zero cp p h = Some (x', h') \<and> prefix h h' \<and>
    view (slice_of k R) h' x' = Some v \<and> foot (slice_of k R) h' x' \<inter> {..<length h} = {}"
  proof (cases p)
    case None
    with v show ?thesis by (simp add: copyEach_def returnH_def)
  next
    case (Some s)
    let ?n = "snd (snd s)" and ?h1 = "h @ [pack k (replicate (snd (snd s)) zero)]"
    from v Some obtain xs vs where xs: "elements k h s = Some xs" "map (view R h) xs = map Some vs"
      "v = GSlice vs" by auto
    have len: "length xs = ?n" using xs(1) by (auto simp: elements_eq_Some)
    have "copied R h xs (length h) 0 ?h1" using len by (simp add: copied_def)
    from copyLoop_all[OF assms this _ xs(1) map_eq_map_SomeD[OF xs(2)], of ?n] obtain h' where
      loop: "copyLoop k cp (length h, 0, ?n) s [0..<length xs] ?h1 = Some ((), h')" and
      inv: "copied R h xs (length h) (length xs) h'" by auto
    from inv obtain ys where pre: "prefix h h'" and ys: "block k h' (length h) = Some ys"
      "length ys = length xs" and each: "\<And>j. j < length xs \<Longrightarrow> view R h' (ys ! j) = view R h (xs ! j) \<and>
        foot R h' (ys ! j) \<inter> insert (length h) {..<length h} = {}" unfolding copied_def by blast
    have els: "elements k h' (length h, 0, ?n) = Some ys" using ys len by (simp add: elements_eq_Some)
    have views: "map (view R h') ys = map Some vs"
      unfolding xs(2)[symmetric] using each ys(2) by (intro nth_equalityI) simp_all
    have "foot R h' y \<inter> {..<length h} = {}" if y: "y \<in> set ys" for y
    proof -
      from y ys(2) obtain j where "j < length xs" "y = ys ! j" unfolding in_set_conv_nth by auto
      with each[of j] show ?thesis by blast
    qed
    then have "foot (slice_of k R) h' (Some (length h, 0, ?n)) \<inter> {..<length h} = {}"
      using els by auto
    moreover have "copyEach k zero cp p h = Some (Some (length h, 0, ?n), h')"
      using Some loop len by (simp add: copyEach_def act_defs)
    ultimately show ?thesis using pre els views xs(3) by auto
  qed
qed

end

section \<open>Structs\<close>

text \<open>
  A field statement \<open>F\<close> is right for the field \<open>R\<close> beside the fields \<open>D\<close>: it makes the field a
  deep copy of that of \<open>in\<close> and leaves the fields \<open>D\<close> alone. A struct is copied when each
  statement is right beside the fields without references and those copied before it.
\<close>

definition copies_field :: "('b, 's) repr \<Rightarrow> ('s \<Rightarrow> 's \<Rightarrow> ('b, 's) heap_act) \<Rightarrow> ('b, 's) repr set \<Rightarrow>
    bool" where
  "copies_field R F D \<longleftrightarrow> heap_repr R \<and>
     (\<forall>h inn out v. view R h inn = Some v \<longrightarrow>
        (\<exists>out' h'. F inn out h = Some (out', h') \<and> prefix h h' \<and> view R h' out' = Some v \<and>
           foot R h' out' \<inter> {..<length h} = {} \<and>
           (\<forall>R' \<in> D. \<forall>g. view R' g out' = view R' g out \<and> foot R' g out' = foot R' g out)))"

fun copies_fields :: "(('b, 's) repr \<times> ('s \<Rightarrow> 's \<Rightarrow> ('b, 's) heap_act)) list \<Rightarrow> ('b, 's) repr set \<Rightarrow>
    bool" where
  "copies_fields [] D \<longleftrightarrow> True"
| "copies_fields ((R, F) # fs) D \<longleftrightarrow> copies_field R F D \<and> copies_fields fs (insert R D)"

lemma copies_fieldD:
  "copies_field R F D \<Longrightarrow> view R h inn = Some v \<Longrightarrow>
    \<exists>out' h'. F inn out h = Some (out', h') \<and> prefix h h' \<and> view R h' out' = Some v \<and>
      foot R h' out' \<inter> {..<length h} = {} \<and>
      (\<forall>R' \<in> D. \<forall>g. view R' g out' = view R' g out \<and> foot R' g out' = foot R' g out)"
  by (simp add: copies_field_def)

lemma copies_fieldI:
  assumes "deep_copier R cp" and "\<And>y s. sel (upd y s) = y"
    and "\<And>R' y s g. R' \<in> D \<Longrightarrow> view R' g (upd y s) = view R' g s \<and> foot R' g (upd y s) = foot R' g s"
  shows "copies_field (part sel R) (copyField sel upd cp) D"
  unfolding copies_field_def
proof (intro conjI allI impI)
  show "heap_repr (part sel R)" by (intro repr_intros deep_copier.axioms(1)[OF assms(1)])
  fix h inn out v
  assume "view (part sel R) h inn = Some v"
  then have "view R h (sel inn) = Some v" by simp
  from deep_copier.copyE[OF assms(1) this] obtain y h' where y: "cp (sel inn) h = Some (y, h')"
    "prefix h h'" "view R h' y = Some v" "foot R h' y \<inter> {..<length h} = {}" .
  show "\<exists>out' h'. copyField sel upd cp inn out h = Some (out', h') \<and> prefix h h' \<and>
      view (part sel R) h' out' = Some v \<and> foot (part sel R) h' out' \<inter> {..<length h} = {} \<and>
      (\<forall>R' \<in> D. \<forall>g. view R' g out' = view R' g out \<and> foot R' g out' = foot R' g out)"
    by (intro exI[of _ "upd y out"] exI[of _ h'])
      (simp add: copyField_def act_defs y assms(2,3))
qed

text \<open>\<open>fresh_fields\<close>: the fields \<open>D\<close> of \<open>out\<close> show what those of \<open>in\<close> did and share no block with them.\<close>

definition fresh_fields :: "('b, 's) repr set \<Rightarrow> 'b list \<Rightarrow> 's \<Rightarrow> 'b list \<Rightarrow> 's \<Rightarrow> bool" where
  "fresh_fields D h0 inn h out \<longleftrightarrow>
     (\<forall>R \<in> D. view R h out = view R h0 inn \<and> foot R h out \<inter> {..<length h0} = {})"

lemma fresh_fields_step:
  assumes "fresh_fields D h0 inn h out" and D: "\<And>R. R \<in> D \<Longrightarrow> heap_repr R \<and> view R h0 inn \<noteq> None"
    and "prefix h h'"
    and same: "\<And>R g. R \<in> D \<Longrightarrow> view R g out' = view R g out \<and> foot R g out' = foot R g out"
  shows "fresh_fields D h0 inn h' out'"
  unfolding fresh_fields_def
proof
  fix R
  assume R: "R \<in> D"
  with D obtain v where "view R h0 inn = Some v" by auto
  with assms(1) R have v: "view R h out = Some v" "foot R h out \<inter> {..<length h0} = {}"
    "view R h0 inn = Some v" by (auto simp: fresh_fields_def)
  have "heap_repr R" using D[OF R] by simp
  from heap_repr.grow[OF this v(1) assms(3)] v same[OF R, of h']
  show "view R h' out' = view R h0 inn \<and> foot R h' out' \<inter> {..<length h0} = {}" by simp
qed

lemma copyFields_all:
  assumes "copies_fields fs D" and "prefix h0 h" and "fresh_fields D h0 inn h out"
    and "\<And>R. R \<in> D \<union> fst ` set fs \<Longrightarrow> heap_repr R \<and> view R h0 inn \<noteq> None"
  shows "\<exists>out' h'. copyFields (map snd fs) inn out h = Some (out', h') \<and> prefix h0 h' \<and>
    fresh_fields (D \<union> fst ` set fs) h0 inn h' out'"
  using assms
proof (induction fs arbitrary: D h out)
  case Nil
  then show ?case by (simp add: returnH_def)
next
  case (Cons RF fs)
  obtain R F where RF: "RF = (R, F)" by (cases RF)
  from Cons.prems(4)[of R] RF obtain v where R: "heap_repr R" "view R h0 inn = Some v" by auto
  have "view R h inn = Some v" by (rule heap_repr.grow[OF R Cons.prems(2)])
  then have "\<exists>out' h'. F inn out h = Some (out', h') \<and> prefix h h' \<and> view R h' out' = Some v \<and>
      foot R h' out' \<inter> {..<length h} = {} \<and>
      (\<forall>R' \<in> D. \<forall>g. view R' g out' = view R' g out \<and> foot R' g out' = foot R' g out)"
    using Cons.prems(1) RF by (intro copies_fieldD) simp_all
  then obtain out' h' where F: "F inn out h = Some (out', h')" "prefix h h'"
    "view R h' out' = Some v" "foot R h' out' \<inter> {..<length h} = {}"
    and same: "\<forall>R' \<in> D. \<forall>g. view R' g out' = view R' g out \<and> foot R' g out' = foot R' g out"
    by blast
  have "fresh_fields D h0 inn h' out'"
    by (rule fresh_fields_step[OF Cons.prems(3) _ F(2)]) (use Cons.prems(4) same in auto)
  moreover have "foot R h' out' \<inter> {..<length h0} = {}"
    using F(4) prefix_length_le[OF Cons.prems(2)] by auto
  ultimately have "fresh_fields (insert R D) h0 inn h' out'"
    using F(3) R(2) by (simp add: fresh_fields_def)
  moreover have "prefix h0 h'" using Cons.prems(2) F(2) by (rule prefix_order.trans)
  ultimately have "\<exists>out'' h''. copyFields (map snd fs) inn out' h' = Some (out'', h'') \<and>
      prefix h0 h'' \<and> fresh_fields (insert R D \<union> fst ` set fs) h0 inn h'' out''"
    using Cons.prems(1,4) RF by (intro Cons.IH) auto
  then show ?case using F(1) RF by (simp add: bindH_def)
qed

text \<open>
  The rule for a struct with fields \<open>Rs\<close>: those in \<open>D\<close> hold no reference, the others are
  copied by the statements \<open>fs\<close> in order.
\<close>

lemma copier_struct:
  assumes fs: "copies_fields fs D" and "\<And>R. R \<in> D \<Longrightarrow> heap_repr R"
    and D: "\<And>R h s. R \<in> D \<Longrightarrow> foot R h s = {}" and Rs: "set Rs = D \<union> fst ` set fs"
  shows "deep_copier (struct Rs) (\<lambda>inn. copyFields (map snd fs) inn inn)"
proof (intro deep_copier.intro deep_copier_axioms.intro)
  have fields: "heap_repr R" if "(R, F) \<in> set fs" for R F
    using fs that by (induction fs D rule: copies_fields.induct) (auto simp: copies_field_def)
  have all: "heap_repr R" if "R \<in> set Rs" for R using that assms(2) fields Rs by auto
  then show "heap_repr (struct Rs)" by (rule repr_intros)
  fix h s v
  assume "view (struct Rs) h s = Some v"
  then obtain vs where vs: "map (\<lambda>R. view R h s) Rs = map Some vs" "v = GStruct vs"
    by (auto simp: struct_sel)
  have "fresh_fields D h s h s" using D by (simp add: fresh_fields_def)
  moreover have "heap_repr R \<and> view R h s \<noteq> None" if "R \<in> D \<union> fst ` set fs" for R
    using that all map_eq_map_SomeD[OF vs(1), of R] unfolding Rs by simp
  ultimately obtain s' h' where s': "copyFields (map snd fs) s s h = Some (s', h')" "prefix h h'"
    "fresh_fields (set Rs) h s h' s'"
    using copyFields_all[OF fs prefix_order.refl, of h s s] unfolding Rs by blast
  then have "map (\<lambda>R. view R h' s') Rs = map Some vs" and
    "(\<Union>R \<in> set Rs. foot R h' s') \<inter> {..<length h} = {}"
    unfolding vs(1)[symmetric] by (auto simp: fresh_fields_def)
  with s' vs(2) show "\<exists>x' h'. copyFields (map snd fs) s s h = Some (x', h') \<and> prefix h h' \<and>
      view (struct Rs) h' x' = Some v \<and> foot (struct Rs) h' x' \<inter> {..<length h} = {}"
    unfolding struct_sel by blast
qed

text \<open>The same with the fields given as lists: \<open>Ps\<close> hold no reference, \<open>Rs\<close> are copied by \<open>Fs\<close>.\<close>

lemma copier_fields:
  assumes "copies_fields (zip Rs Fs) (set Ps)" and "length Rs = length Fs"
    and "\<And>R. R \<in> set Ps \<Longrightarrow> heap_repr R" and "\<And>R h s. R \<in> set Ps \<Longrightarrow> foot R h s = {}"
    and "set Qs = set Ps \<union> set Rs"
  shows "deep_copier (struct Qs) (\<lambda>inn. copyFields Fs inn inn)"
  using copier_struct[OF assms(1,3,4), of Qs] assms(2,5)
  by (simp flip: set_map)

section \<open>Independence\<close>

text \<open>
  \<open>edited A h g\<close>: some code has run since \<open>h\<close> and written only to blocks in \<open>A\<close> and to new
  ones. A copy and its original are independent: neither sees what is written to the other.
\<close>

definition edited :: "nat set \<Rightarrow> 'b list \<Rightarrow> 'b list \<Rightarrow> bool" where
  "edited A h g \<longleftrightarrow> length h \<le> length g \<and> (\<forall>a < length h. a \<notin> A \<longrightarrow> g ! a = h ! a)"

definition deep_copies :: "('b, 'r) repr \<Rightarrow> ('r \<Rightarrow> ('b, 'r) heap_act) \<Rightarrow> bool" where
  "deep_copies R cp \<longleftrightarrow>
     (\<forall>h x v. view R h x = Some v \<longrightarrow>
        (\<exists>x' h'. cp x h = Some (x', h') \<and> prefix h h' \<and>
           (\<forall>g. edited (foot R h' x) h' g \<longrightarrow> view R g x' = Some v) \<and>
           (\<forall>g. edited (foot R h' x') h' g \<longrightarrow> view R g x = Some v)))"

context heap_repr
begin

lemma edited_frame:
  assumes "view R h x = Some v" and "edited A h g" and "foot R h x \<inter> A = {}"
  shows "view R g x = Some v"
proof -
  have "agree (foot R h x) h g"
    using assms bounded[OF assms(1)] by (fastforce simp: agree_def edited_def)
  then show ?thesis using frame[OF assms(1)] by simp
qed

end

context deep_copier
begin

lemma deep_copies: "deep_copies R cp"
  unfolding deep_copies_def
proof (intro allI impI)
  fix h x v
  assume v: "view R h x = Some v"
  from copyE[OF v] obtain x' h' where cp: "cp x h = Some (x', h')" "prefix h h'" "view R h' x' = Some v"
    "foot R h' x' \<inter> {..<length h} = {}" .
  have x: "view R h' x = Some v" "foot R h' x = foot R h x" by (rule grow[OF v cp(2)])+
  have "foot R h' x' \<inter> foot R h' x = {}" using cp(4) bounded[OF v] x(2) by auto
  with edited_frame[OF cp(3)] edited_frame[OF x(1)] cp(1,2)
  show "\<exists>x' h'. cp x h = Some (x', h') \<and> prefix h h' \<and>
      (\<forall>g. edited (foot R h' x) h' g \<longrightarrow> view R g x' = Some v) \<and>
      (\<forall>g. edited (foot R h' x') h' g \<longrightarrow> view R g x = Some v)" by blast
qed

end

end
