(* ===== verification/DeepCopy.thy ===== *)
theory DeepCopy
  imports GoHeap ApiTypes
begin

text \<open>
  The generated deep-copy code of \<open>api/v1alpha1/zz_generated.deepcopy.go\<close>.

  The records of \<open>ApiTypes\<close> are values; here the same structs are seen as they lie in memory:
  a pointer field is an address, a slice field a slice header, and an embedded struct stays
  embedded. \<open>T_DeepCopyInto\<close> takes the struct behind the receiver and returns the struct that is
  behind \<open>out\<close> when the method ends; it starts, as every method does, from the shallow copy
  \<open>*out = *in\<close>, and lists the statements of the method in their order. \<open>T_DeepCopy\<close> is the
  method on pointers, \<open>T_DeepCopyObject\<close> the one that returns the interface \<open>runtime.Object\<close>,
  where a nil interface and an interface that holds a nil pointer differ.

  The structs of the Kubernetes libraries (\<open>ObjectMeta\<close>, \<open>ListMeta\<close>, \<open>Condition\<close>,
  \<open>ResourceRequirements\<close>, \<open>PersistentVolumeClaimSpec\<close>, \<open>RawExtension\<close>) are of a type \<open>'x\<close>, and their
  methods are fields of \<open>apimachinery\<close>; the locale \<open>copying_library\<close> says that these methods
  are deep copies themselves. It is interpreted on structs of a string and a slice.
\<close>

section \<open>Structs in memory\<close>

record TypeMeta =
  tm_Kind :: string
  tm_APIVersion :: string

record gAutheliaSecret =
  g_EnvName :: string
  g_Secret :: "ptr option"

record gAutheliaSettings =
  g_AdditionalConfig :: "ptr option"
  g_FileUsersSecret :: "ptr option"
  g_Secrets :: "slice option"

record 'x gAutheliaDeploymentSpec =
  g_Replicas :: "ptr option"
  g_Image :: string
  g_ImagePullPolicy :: string
  g_Resources :: "'x"
  g_ExistingSecret :: string
  g_VolumeClaimTemplate :: "ptr option"

record 'x gAutheliaSpec =
  g_Hostname :: string
  g_Deployment :: "'x gAutheliaDeploymentSpec"
  g_Settings :: gAutheliaSettings

record gAutheliaStatus =
  g_Conditions :: "slice option"
  g_ReadyReplicas :: int32
  g_OIDCClients :: "slice option"
  g_AccessControlRules :: "slice option"

record 'x gAuthelia =
  g_TypeMeta :: TypeMeta
  g_ObjectMeta :: "'x"
  g_Spec :: "'x gAutheliaSpec"
  g_Status :: gAutheliaStatus

record 'x gAutheliaList =
  g_ListTypeMeta :: TypeMeta
  g_ListMeta :: "'x"
  g_Items :: "slice option"

record gAutheliaOAuthClientSpec =
  g_AutheliaRef :: AutheliaReference
  g_ClientID :: string
  g_ClientName :: string
  g_Public :: bool
  g_AuthorizationPolicy :: string
  g_ConsentMode :: string
  g_ClaimsPolicy :: string
  g_Lifespan :: string
  g_RedirectURIs :: "slice option"
  g_Scopes :: "slice option"
  g_GrantTypes :: "slice option"
  g_ResponseTypes :: "slice option"
  g_TokenEndpointAuthMethod :: string
  g_UserinfoSignedResponseAlg :: string

record gAutheliaOAuthClientStatus =
  g_ClientConditions :: "slice option"
  g_SecretName :: string

record 'x gAutheliaOAuthClient =
  g_ClientTypeMeta :: TypeMeta
  g_ClientObjectMeta :: "'x"
  g_ClientSpec :: gAutheliaOAuthClientSpec
  g_ClientStatus :: gAutheliaOAuthClientStatus

record 'x gAutheliaOAuthClientList =
  g_ClientListTypeMeta :: TypeMeta
  g_ClientListMeta :: "'x"
  g_ClientItems :: "slice option"

text \<open>A block of memory is an array of one of the types that code allocates or points at.\<close>

datatype 'x goblock =
    B_Int32 "int32 list"
  | B_String "string list"
  | B_Lib "'x list"
  | B_SecretKeyRef "SecretKeyRef list"
  | B_AutheliaReference "AutheliaReference list"
  | B_AutheliaSecret "gAutheliaSecret list"
  | B_AutheliaSettings "gAutheliaSettings list"
  | B_AutheliaDeploymentSpec "'x gAutheliaDeploymentSpec list"
  | B_AutheliaSpec "'x gAutheliaSpec list"
  | B_AutheliaStatus "gAutheliaStatus list"
  | B_Authelia "'x gAuthelia list"
  | B_AutheliaList "'x gAutheliaList list"
  | B_AutheliaOAuthClientSpec "gAutheliaOAuthClientSpec list"
  | B_AutheliaOAuthClientStatus "gAutheliaOAuthClientStatus list"
  | B_AutheliaOAuthClient "'x gAutheliaOAuthClient list"
  | B_AutheliaOAuthClientList "'x gAutheliaOAuthClientList list"

definition k_int32 :: "('x goblock, int32) kind" where
  "k_int32 = \<lparr>pack = B_Int32, unpack = (\<lambda>b. case b of B_Int32 xs \<Rightarrow> Some xs | _ \<Rightarrow> None)\<rparr>"

definition k_string :: "('x goblock, string) kind" where
  "k_string = \<lparr>pack = B_String, unpack = (\<lambda>b. case b of B_String xs \<Rightarrow> Some xs | _ \<Rightarrow> None)\<rparr>"

definition k_Lib :: "('x goblock, 'x) kind" where
  "k_Lib = \<lparr>pack = B_Lib, unpack = (\<lambda>b. case b of B_Lib xs \<Rightarrow> Some xs | _ \<Rightarrow> None)\<rparr>"

definition k_SecretKeyRef :: "('x goblock, SecretKeyRef) kind" where
  "k_SecretKeyRef = \<lparr>pack = B_SecretKeyRef, unpack = (\<lambda>b. case b of B_SecretKeyRef xs \<Rightarrow> Some xs | _ \<Rightarrow> None)\<rparr>"

definition k_AutheliaReference :: "('x goblock, AutheliaReference) kind" where
  "k_AutheliaReference = \<lparr>pack = B_AutheliaReference, unpack = (\<lambda>b. case b of B_AutheliaReference xs \<Rightarrow> Some xs | _ \<Rightarrow> None)\<rparr>"

definition k_AutheliaSecret :: "('x goblock, gAutheliaSecret) kind" where
  "k_AutheliaSecret = \<lparr>pack = B_AutheliaSecret, unpack = (\<lambda>b. case b of B_AutheliaSecret xs \<Rightarrow> Some xs | _ \<Rightarrow> None)\<rparr>"

definition k_AutheliaSettings :: "('x goblock, gAutheliaSettings) kind" where
  "k_AutheliaSettings = \<lparr>pack = B_AutheliaSettings, unpack = (\<lambda>b. case b of B_AutheliaSettings xs \<Rightarrow> Some xs | _ \<Rightarrow> None)\<rparr>"

definition k_AutheliaDeploymentSpec :: "('x goblock, 'x gAutheliaDeploymentSpec) kind" where
  "k_AutheliaDeploymentSpec = \<lparr>pack = B_AutheliaDeploymentSpec, unpack = (\<lambda>b. case b of B_AutheliaDeploymentSpec xs \<Rightarrow> Some xs | _ \<Rightarrow> None)\<rparr>"

definition k_AutheliaSpec :: "('x goblock, 'x gAutheliaSpec) kind" where
  "k_AutheliaSpec = \<lparr>pack = B_AutheliaSpec, unpack = (\<lambda>b. case b of B_AutheliaSpec xs \<Rightarrow> Some xs | _ \<Rightarrow> None)\<rparr>"

definition k_AutheliaStatus :: "('x goblock, gAutheliaStatus) kind" where
  "k_AutheliaStatus = \<lparr>pack = B_AutheliaStatus, unpack = (\<lambda>b. case b of B_AutheliaStatus xs \<Rightarrow> Some xs | _ \<Rightarrow> None)\<rparr>"

definition k_Authelia :: "('x goblock, 'x gAuthelia) kind" where
  "k_Authelia = \<lparr>pack = B_Authelia, unpack = (\<lambda>b. case b of B_Authelia xs \<Rightarrow> Some xs | _ \<Rightarrow> None)\<rparr>"

definition k_AutheliaList :: "('x goblock, 'x gAutheliaList) kind" where
  "k_AutheliaList = \<lparr>pack = B_AutheliaList, unpack = (\<lambda>b. case b of B_AutheliaList xs \<Rightarrow> Some xs | _ \<Rightarrow> None)\<rparr>"

definition k_AutheliaOAuthClientSpec :: "('x goblock, gAutheliaOAuthClientSpec) kind" where
  "k_AutheliaOAuthClientSpec = \<lparr>pack = B_AutheliaOAuthClientSpec, unpack = (\<lambda>b. case b of B_AutheliaOAuthClientSpec xs \<Rightarrow> Some xs | _ \<Rightarrow> None)\<rparr>"

definition k_AutheliaOAuthClientStatus :: "('x goblock, gAutheliaOAuthClientStatus) kind" where
  "k_AutheliaOAuthClientStatus = \<lparr>pack = B_AutheliaOAuthClientStatus, unpack = (\<lambda>b. case b of B_AutheliaOAuthClientStatus xs \<Rightarrow> Some xs | _ \<Rightarrow> None)\<rparr>"

definition k_AutheliaOAuthClient :: "('x goblock, 'x gAutheliaOAuthClient) kind" where
  "k_AutheliaOAuthClient = \<lparr>pack = B_AutheliaOAuthClient, unpack = (\<lambda>b. case b of B_AutheliaOAuthClient xs \<Rightarrow> Some xs | _ \<Rightarrow> None)\<rparr>"

definition k_AutheliaOAuthClientList :: "('x goblock, 'x gAutheliaOAuthClientList) kind" where
  "k_AutheliaOAuthClientList = \<lparr>pack = B_AutheliaOAuthClientList, unpack = (\<lambda>b. case b of B_AutheliaOAuthClientList xs \<Rightarrow> Some xs | _ \<Rightarrow> None)\<rparr>"

interpretation blk_int32: block_kind k_int32
  by unfold_locales (simp add: k_int32_def)

interpretation blk_string: block_kind k_string
  by unfold_locales (simp add: k_string_def)

interpretation blk_Lib: block_kind k_Lib
  by unfold_locales (simp add: k_Lib_def)

interpretation blk_SecretKeyRef: block_kind k_SecretKeyRef
  by unfold_locales (simp add: k_SecretKeyRef_def)

interpretation blk_AutheliaReference: block_kind k_AutheliaReference
  by unfold_locales (simp add: k_AutheliaReference_def)

interpretation blk_AutheliaSecret: block_kind k_AutheliaSecret
  by unfold_locales (simp add: k_AutheliaSecret_def)

interpretation blk_AutheliaSettings: block_kind k_AutheliaSettings
  by unfold_locales (simp add: k_AutheliaSettings_def)

interpretation blk_AutheliaDeploymentSpec: block_kind k_AutheliaDeploymentSpec
  by unfold_locales (simp add: k_AutheliaDeploymentSpec_def)

interpretation blk_AutheliaSpec: block_kind k_AutheliaSpec
  by unfold_locales (simp add: k_AutheliaSpec_def)

interpretation blk_AutheliaStatus: block_kind k_AutheliaStatus
  by unfold_locales (simp add: k_AutheliaStatus_def)

interpretation blk_Authelia: block_kind k_Authelia
  by unfold_locales (simp add: k_Authelia_def)

interpretation blk_AutheliaList: block_kind k_AutheliaList
  by unfold_locales (simp add: k_AutheliaList_def)

interpretation blk_AutheliaOAuthClientSpec: block_kind k_AutheliaOAuthClientSpec
  by unfold_locales (simp add: k_AutheliaOAuthClientSpec_def)

interpretation blk_AutheliaOAuthClientStatus: block_kind k_AutheliaOAuthClientStatus
  by unfold_locales (simp add: k_AutheliaOAuthClientStatus_def)

interpretation blk_AutheliaOAuthClient: block_kind k_AutheliaOAuthClient
  by unfold_locales (simp add: k_AutheliaOAuthClient_def)

interpretation blk_AutheliaOAuthClientList: block_kind k_AutheliaOAuthClientList
  by unfold_locales (simp add: k_AutheliaOAuthClientList_def)

text \<open>The methods of the libraries' structs, and their zero value.\<close>

record 'x apimachinery =
  lib_zero :: 'x
  ObjectMeta_DeepCopyInto :: "'x \<Rightarrow> ('x goblock, 'x) heap_act"
  ListMeta_DeepCopyInto :: "'x \<Rightarrow> ('x goblock, 'x) heap_act"
  ResourceRequirements_DeepCopyInto :: "'x \<Rightarrow> ('x goblock, 'x) heap_act"
  PersistentVolumeClaimSpec_DeepCopyInto :: "'x \<Rightarrow> ('x goblock, 'x) heap_act"
  RawExtension_DeepCopyInto :: "'x \<Rightarrow> ('x goblock, 'x) heap_act"
  Condition_DeepCopyInto :: "'x \<Rightarrow> ('x goblock, 'x) heap_act"

text \<open>Zero values, which \<open>new\<close> and \<open>make\<close> fill memory with.\<close>

definition zero_TypeMeta :: TypeMeta where
  "zero_TypeMeta = \<lparr>tm_Kind = [], tm_APIVersion = []\<rparr>"

definition zero_SecretKeyRef :: SecretKeyRef where
  "zero_SecretKeyRef = \<lparr>ref_Name = [], ref_Key = []\<rparr>"

definition zero_AutheliaReference :: AutheliaReference where
  "zero_AutheliaReference = \<lparr>aref_Name = [], aref_Namespace = []\<rparr>"

definition zero_AutheliaSecret :: "gAutheliaSecret" where
  "zero_AutheliaSecret = \<lparr>g_EnvName = [], g_Secret = None\<rparr>"

definition zero_AutheliaSettings :: "gAutheliaSettings" where
  "zero_AutheliaSettings = \<lparr>g_AdditionalConfig = None, g_FileUsersSecret = None, g_Secrets = None\<rparr>"

definition zero_AutheliaDeploymentSpec :: "'x apimachinery \<Rightarrow> 'x gAutheliaDeploymentSpec" where
  "zero_AutheliaDeploymentSpec lib = \<lparr>g_Replicas = None, g_Image = [], g_ImagePullPolicy = [], g_Resources = lib_zero lib, g_ExistingSecret = [], g_VolumeClaimTemplate = None\<rparr>"

definition zero_AutheliaSpec :: "'x apimachinery \<Rightarrow> 'x gAutheliaSpec" where
  "zero_AutheliaSpec lib = \<lparr>g_Hostname = [], g_Deployment = zero_AutheliaDeploymentSpec lib, g_Settings = zero_AutheliaSettings\<rparr>"

definition zero_AutheliaStatus :: "gAutheliaStatus" where
  "zero_AutheliaStatus = \<lparr>g_Conditions = None, g_ReadyReplicas = 0, g_OIDCClients = None, g_AccessControlRules = None\<rparr>"

definition zero_Authelia :: "'x apimachinery \<Rightarrow> 'x gAuthelia" where
  "zero_Authelia lib = \<lparr>g_TypeMeta = zero_TypeMeta, g_ObjectMeta = lib_zero lib, g_Spec = zero_AutheliaSpec lib, g_Status = zero_AutheliaStatus\<rparr>"

definition zero_AutheliaList :: "'x apimachinery \<Rightarrow> 'x gAutheliaList" where
  "zero_AutheliaList lib = \<lparr>g_ListTypeMeta = zero_TypeMeta, g_ListMeta = lib_zero lib, g_Items = None\<rparr>"

definition zero_AutheliaOAuthClientSpec :: "gAutheliaOAuthClientSpec" where
  "zero_AutheliaOAuthClientSpec = \<lparr>g_AutheliaRef = zero_AutheliaReference, g_ClientID = [], g_ClientName = [], g_Public = False, g_AuthorizationPolicy = [], g_ConsentMode = [], g_ClaimsPolicy = [], g_Lifespan = [], g_RedirectURIs = None, g_Scopes = None, g_GrantTypes = None, g_ResponseTypes = None, g_TokenEndpointAuthMethod = [], g_UserinfoSignedResponseAlg = []\<rparr>"

definition zero_AutheliaOAuthClientStatus :: "gAutheliaOAuthClientStatus" where
  "zero_AutheliaOAuthClientStatus = \<lparr>g_ClientConditions = None, g_SecretName = []\<rparr>"

definition zero_AutheliaOAuthClient :: "'x apimachinery \<Rightarrow> 'x gAutheliaOAuthClient" where
  "zero_AutheliaOAuthClient lib = \<lparr>g_ClientTypeMeta = zero_TypeMeta, g_ClientObjectMeta = lib_zero lib, g_ClientSpec = zero_AutheliaOAuthClientSpec, g_ClientStatus = zero_AutheliaOAuthClientStatus\<rparr>"

definition zero_AutheliaOAuthClientList :: "'x apimachinery \<Rightarrow> 'x gAutheliaOAuthClientList" where
  "zero_AutheliaOAuthClientList lib = \<lparr>g_ClientListTypeMeta = zero_TypeMeta, g_ClientListMeta = lib_zero lib, g_ClientItems = None\<rparr>"

section \<open>The methods\<close>

text \<open>Two structs hold no reference: the method is the shallow copy alone.\<close>

definition SecretKeyRef_DeepCopyInto :: "SecretKeyRef \<Rightarrow> ('x goblock, SecretKeyRef) heap_act" where
  "SecretKeyRef_DeepCopyInto inn = copyFields [] inn inn"

definition AutheliaReference_DeepCopyInto :: "AutheliaReference \<Rightarrow> ('x goblock, AutheliaReference) heap_act" where
  "AutheliaReference_DeepCopyInto inn = copyFields [] inn inn"

definition AutheliaSecret_DeepCopyInto :: "gAutheliaSecret \<Rightarrow> ('x goblock, gAutheliaSecret) heap_act" where
  "AutheliaSecret_DeepCopyInto inn = copyFields
     [copyField g_Secret (\<lambda>y s. s\<lparr>g_Secret := y\<rparr>) (copyPtr k_SecretKeyRef zero_SecretKeyRef returnH)] inn inn"

definition AutheliaSettings_DeepCopyInto :: "'x apimachinery \<Rightarrow> gAutheliaSettings \<Rightarrow> ('x goblock, gAutheliaSettings) heap_act" where
  "AutheliaSettings_DeepCopyInto lib inn = copyFields
     [copyField g_AdditionalConfig (\<lambda>y s. s\<lparr>g_AdditionalConfig := y\<rparr>) (copyPtr k_Lib (lib_zero lib) (RawExtension_DeepCopyInto lib)),
      copyField g_FileUsersSecret (\<lambda>y s. s\<lparr>g_FileUsersSecret := y\<rparr>) (copyPtr k_SecretKeyRef zero_SecretKeyRef returnH),
      copyField g_Secrets (\<lambda>y s. s\<lparr>g_Secrets := y\<rparr>) (copyEach k_AutheliaSecret zero_AutheliaSecret AutheliaSecret_DeepCopyInto)] inn inn"

definition AutheliaDeploymentSpec_DeepCopyInto :: "'x apimachinery \<Rightarrow> 'x gAutheliaDeploymentSpec \<Rightarrow> ('x goblock, 'x gAutheliaDeploymentSpec) heap_act" where
  "AutheliaDeploymentSpec_DeepCopyInto lib inn = copyFields
     [copyField g_Replicas (\<lambda>y s. s\<lparr>g_Replicas := y\<rparr>) (copyPtr k_int32 0 returnH),
      copyField g_Resources (\<lambda>y s. s\<lparr>g_Resources := y\<rparr>) (ResourceRequirements_DeepCopyInto lib),
      copyField g_VolumeClaimTemplate (\<lambda>y s. s\<lparr>g_VolumeClaimTemplate := y\<rparr>) (copyPtr k_Lib (lib_zero lib) (PersistentVolumeClaimSpec_DeepCopyInto lib))] inn inn"

definition AutheliaSpec_DeepCopyInto :: "'x apimachinery \<Rightarrow> 'x gAutheliaSpec \<Rightarrow> ('x goblock, 'x gAutheliaSpec) heap_act" where
  "AutheliaSpec_DeepCopyInto lib inn = copyFields
     [copyField g_Deployment (\<lambda>y s. s\<lparr>g_Deployment := y\<rparr>) (AutheliaDeploymentSpec_DeepCopyInto lib),
      copyField g_Settings (\<lambda>y s. s\<lparr>g_Settings := y\<rparr>) (AutheliaSettings_DeepCopyInto lib)] inn inn"

definition AutheliaStatus_DeepCopyInto :: "'x apimachinery \<Rightarrow> gAutheliaStatus \<Rightarrow> ('x goblock, gAutheliaStatus) heap_act" where
  "AutheliaStatus_DeepCopyInto lib inn = copyFields
     [copyField g_Conditions (\<lambda>y s. s\<lparr>g_Conditions := y\<rparr>) (copyEach k_Lib (lib_zero lib) (Condition_DeepCopyInto lib)),
      copyField g_OIDCClients (\<lambda>y s. s\<lparr>g_OIDCClients := y\<rparr>) (copySlice k_string []),
      copyField g_AccessControlRules (\<lambda>y s. s\<lparr>g_AccessControlRules := y\<rparr>) (copySlice k_string [])] inn inn"

definition Authelia_DeepCopyInto :: "'x apimachinery \<Rightarrow> 'x gAuthelia \<Rightarrow> ('x goblock, 'x gAuthelia) heap_act" where
  "Authelia_DeepCopyInto lib inn = copyFields
     [copyField g_TypeMeta (\<lambda>y s. s\<lparr>g_TypeMeta := y\<rparr>) returnH,
      copyField g_ObjectMeta (\<lambda>y s. s\<lparr>g_ObjectMeta := y\<rparr>) (ObjectMeta_DeepCopyInto lib),
      copyField g_Spec (\<lambda>y s. s\<lparr>g_Spec := y\<rparr>) (AutheliaSpec_DeepCopyInto lib),
      copyField g_Status (\<lambda>y s. s\<lparr>g_Status := y\<rparr>) (AutheliaStatus_DeepCopyInto lib)] inn inn"

definition AutheliaList_DeepCopyInto :: "'x apimachinery \<Rightarrow> 'x gAutheliaList \<Rightarrow> ('x goblock, 'x gAutheliaList) heap_act" where
  "AutheliaList_DeepCopyInto lib inn = copyFields
     [copyField g_ListTypeMeta (\<lambda>y s. s\<lparr>g_ListTypeMeta := y\<rparr>) returnH,
      copyField g_ListMeta (\<lambda>y s. s\<lparr>g_ListMeta := y\<rparr>) (ListMeta_DeepCopyInto lib),
      copyField g_Items (\<lambda>y s. s\<lparr>g_Items := y\<rparr>) (copyEach k_Authelia (zero_Authelia lib) (Authelia_DeepCopyInto lib))] inn inn"

definition AutheliaOAuthClientSpec_DeepCopyInto :: "gAutheliaOAuthClientSpec \<Rightarrow> ('x goblock, gAutheliaOAuthClientSpec) heap_act" where
  "AutheliaOAuthClientSpec_DeepCopyInto inn = copyFields
     [copyField g_AutheliaRef (\<lambda>y s. s\<lparr>g_AutheliaRef := y\<rparr>) returnH,
      copyField g_RedirectURIs (\<lambda>y s. s\<lparr>g_RedirectURIs := y\<rparr>) (copySlice k_string []),
      copyField g_Scopes (\<lambda>y s. s\<lparr>g_Scopes := y\<rparr>) (copySlice k_string []),
      copyField g_GrantTypes (\<lambda>y s. s\<lparr>g_GrantTypes := y\<rparr>) (copySlice k_string []),
      copyField g_ResponseTypes (\<lambda>y s. s\<lparr>g_ResponseTypes := y\<rparr>) (copySlice k_string [])] inn inn"

definition AutheliaOAuthClientStatus_DeepCopyInto :: "'x apimachinery \<Rightarrow> gAutheliaOAuthClientStatus \<Rightarrow> ('x goblock, gAutheliaOAuthClientStatus) heap_act" where
  "AutheliaOAuthClientStatus_DeepCopyInto lib inn = copyFields
     [copyField g_ClientConditions (\<lambda>y s. s\<lparr>g_ClientConditions := y\<rparr>) (copyEach k_Lib (lib_zero lib) (Condition_DeepCopyInto lib))] inn inn"

definition AutheliaOAuthClient_DeepCopyInto :: "'x apimachinery \<Rightarrow> 'x gAutheliaOAuthClient \<Rightarrow> ('x goblock, 'x gAutheliaOAuthClient) heap_act" where
  "AutheliaOAuthClient_DeepCopyInto lib inn = copyFields
     [copyField g_ClientTypeMeta (\<lambda>y s. s\<lparr>g_ClientTypeMeta := y\<rparr>) returnH,
      copyField g_ClientObjectMeta (\<lambda>y s. s\<lparr>g_ClientObjectMeta := y\<rparr>) (ObjectMeta_DeepCopyInto lib),
      copyField g_ClientSpec (\<lambda>y s. s\<lparr>g_ClientSpec := y\<rparr>) AutheliaOAuthClientSpec_DeepCopyInto,
      copyField g_ClientStatus (\<lambda>y s. s\<lparr>g_ClientStatus := y\<rparr>) (AutheliaOAuthClientStatus_DeepCopyInto lib)] inn inn"

definition AutheliaOAuthClientList_DeepCopyInto :: "'x apimachinery \<Rightarrow> 'x gAutheliaOAuthClientList \<Rightarrow> ('x goblock, 'x gAutheliaOAuthClientList) heap_act" where
  "AutheliaOAuthClientList_DeepCopyInto lib inn = copyFields
     [copyField g_ClientListTypeMeta (\<lambda>y s. s\<lparr>g_ClientListTypeMeta := y\<rparr>) returnH,
      copyField g_ClientListMeta (\<lambda>y s. s\<lparr>g_ClientListMeta := y\<rparr>) (ListMeta_DeepCopyInto lib),
      copyField g_ClientItems (\<lambda>y s. s\<lparr>g_ClientItems := y\<rparr>) (copyEach k_AutheliaOAuthClient (zero_AutheliaOAuthClient lib) (AutheliaOAuthClient_DeepCopyInto lib))] inn inn"

text \<open>\<open>DeepCopy\<close>: nil for nil, else a new struct filled by \<open>DeepCopyInto\<close>.\<close>

definition SecretKeyRef_DeepCopy :: "ptr option \<Rightarrow> ('x goblock, ptr option) heap_act" where
  "SecretKeyRef_DeepCopy = copyPtr k_SecretKeyRef zero_SecretKeyRef SecretKeyRef_DeepCopyInto"

definition AutheliaReference_DeepCopy :: "ptr option \<Rightarrow> ('x goblock, ptr option) heap_act" where
  "AutheliaReference_DeepCopy =
     copyPtr k_AutheliaReference zero_AutheliaReference AutheliaReference_DeepCopyInto"

definition AutheliaSecret_DeepCopy :: "ptr option \<Rightarrow> ('x goblock, ptr option) heap_act" where
  "AutheliaSecret_DeepCopy = copyPtr k_AutheliaSecret zero_AutheliaSecret AutheliaSecret_DeepCopyInto"

definition AutheliaSettings_DeepCopy :: "'x apimachinery \<Rightarrow> ptr option \<Rightarrow> ('x goblock, ptr option) heap_act" where
  "AutheliaSettings_DeepCopy lib = copyPtr k_AutheliaSettings zero_AutheliaSettings (AutheliaSettings_DeepCopyInto lib)"

definition AutheliaDeploymentSpec_DeepCopy :: "'x apimachinery \<Rightarrow> ptr option \<Rightarrow> ('x goblock, ptr option) heap_act" where
  "AutheliaDeploymentSpec_DeepCopy lib = copyPtr k_AutheliaDeploymentSpec (zero_AutheliaDeploymentSpec lib) (AutheliaDeploymentSpec_DeepCopyInto lib)"

definition AutheliaSpec_DeepCopy :: "'x apimachinery \<Rightarrow> ptr option \<Rightarrow> ('x goblock, ptr option) heap_act" where
  "AutheliaSpec_DeepCopy lib = copyPtr k_AutheliaSpec (zero_AutheliaSpec lib) (AutheliaSpec_DeepCopyInto lib)"

definition AutheliaStatus_DeepCopy :: "'x apimachinery \<Rightarrow> ptr option \<Rightarrow> ('x goblock, ptr option) heap_act" where
  "AutheliaStatus_DeepCopy lib = copyPtr k_AutheliaStatus zero_AutheliaStatus (AutheliaStatus_DeepCopyInto lib)"

definition Authelia_DeepCopy :: "'x apimachinery \<Rightarrow> ptr option \<Rightarrow> ('x goblock, ptr option) heap_act" where
  "Authelia_DeepCopy lib = copyPtr k_Authelia (zero_Authelia lib) (Authelia_DeepCopyInto lib)"

definition AutheliaList_DeepCopy :: "'x apimachinery \<Rightarrow> ptr option \<Rightarrow> ('x goblock, ptr option) heap_act" where
  "AutheliaList_DeepCopy lib = copyPtr k_AutheliaList (zero_AutheliaList lib) (AutheliaList_DeepCopyInto lib)"

definition AutheliaOAuthClientSpec_DeepCopy :: "ptr option \<Rightarrow> ('x goblock, ptr option) heap_act" where
  "AutheliaOAuthClientSpec_DeepCopy = copyPtr k_AutheliaOAuthClientSpec zero_AutheliaOAuthClientSpec AutheliaOAuthClientSpec_DeepCopyInto"

definition AutheliaOAuthClientStatus_DeepCopy :: "'x apimachinery \<Rightarrow> ptr option \<Rightarrow> ('x goblock, ptr option) heap_act" where
  "AutheliaOAuthClientStatus_DeepCopy lib = copyPtr k_AutheliaOAuthClientStatus zero_AutheliaOAuthClientStatus (AutheliaOAuthClientStatus_DeepCopyInto lib)"

definition AutheliaOAuthClient_DeepCopy :: "'x apimachinery \<Rightarrow> ptr option \<Rightarrow> ('x goblock, ptr option) heap_act" where
  "AutheliaOAuthClient_DeepCopy lib = copyPtr k_AutheliaOAuthClient (zero_AutheliaOAuthClient lib) (AutheliaOAuthClient_DeepCopyInto lib)"

definition AutheliaOAuthClientList_DeepCopy :: "'x apimachinery \<Rightarrow> ptr option \<Rightarrow> ('x goblock, ptr option) heap_act" where
  "AutheliaOAuthClientList_DeepCopy lib = copyPtr k_AutheliaOAuthClientList (zero_AutheliaOAuthClientList lib) (AutheliaOAuthClientList_DeepCopyInto lib)"

text \<open>
  An interface value of type \<open>runtime.Object\<close>: \<open>None\<close> is the nil interface, otherwise the
  dynamic type and the pointer, which may itself be nil.
\<close>

datatype dyntype = DynAuthelia | DynAutheliaList | DynAutheliaOAuthClient | DynAutheliaOAuthClientList

type_synonym object = "(dyntype \<times> ptr option) option"

definition objectOf :: "dyntype \<Rightarrow> ptr option \<Rightarrow> object" where
  "objectOf t c = (if c \<noteq> None then Some (t, c) else None)"

definition Authelia_DeepCopyObject :: "'x apimachinery \<Rightarrow> ptr option \<Rightarrow> ('x goblock, object) heap_act" where
  "Authelia_DeepCopyObject lib p = bindH (Authelia_DeepCopy lib p) (\<lambda>c. returnH (objectOf DynAuthelia c))"

definition AutheliaList_DeepCopyObject :: "'x apimachinery \<Rightarrow> ptr option \<Rightarrow> ('x goblock, object) heap_act" where
  "AutheliaList_DeepCopyObject lib p =
     bindH (AutheliaList_DeepCopy lib p) (\<lambda>c. returnH (objectOf DynAutheliaList c))"

definition AutheliaOAuthClient_DeepCopyObject ::
    "'x apimachinery \<Rightarrow> ptr option \<Rightarrow> ('x goblock, object) heap_act" where
  "AutheliaOAuthClient_DeepCopyObject lib p =
     bindH (AutheliaOAuthClient_DeepCopy lib p) (\<lambda>c. returnH (objectOf DynAutheliaOAuthClient c))"

definition AutheliaOAuthClientList_DeepCopyObject ::
    "'x apimachinery \<Rightarrow> ptr option \<Rightarrow> ('x goblock, object) heap_act" where
  "AutheliaOAuthClientList_DeepCopyObject lib p =
     bindH (AutheliaOAuthClientList_DeepCopy lib p) (\<lambda>c. returnH (objectOf DynAutheliaOAuthClientList c))"

section \<open>What the structs stand for\<close>

definition val_TypeMeta :: "TypeMeta \<Rightarrow> gval" where
  "val_TypeMeta t = GStruct [GString (tm_Kind t), GString (tm_APIVersion t)]"

definition val_SecretKeyRef :: "SecretKeyRef \<Rightarrow> gval" where
  "val_SecretKeyRef r = GStruct [GString (ref_Name r), GString (ref_Key r)]"

definition val_AutheliaReference :: "AutheliaReference \<Rightarrow> gval" where
  "val_AutheliaReference r = GStruct [GString (aref_Name r), GString (aref_Namespace r)]"

definition repr_AutheliaSecret :: "('x goblock, gAutheliaSecret) repr" where
  "repr_AutheliaSecret = struct
     [part g_EnvName (plain GString),
      part g_Secret (pointer k_SecretKeyRef (plain val_SecretKeyRef))]"

definition repr_AutheliaSettings :: "('x goblock, 'x) repr \<Rightarrow> ('x goblock, gAutheliaSettings) repr" where
  "repr_AutheliaSettings L = struct
     [part g_AdditionalConfig (pointer k_Lib L),
      part g_FileUsersSecret (pointer k_SecretKeyRef (plain val_SecretKeyRef)),
      part g_Secrets (slice_of k_AutheliaSecret repr_AutheliaSecret)]"

definition repr_AutheliaDeploymentSpec :: "('x goblock, 'x) repr \<Rightarrow> ('x goblock, 'x gAutheliaDeploymentSpec) repr" where
  "repr_AutheliaDeploymentSpec L = struct
     [part g_Replicas (pointer k_int32 (plain GInt)),
      part g_Image (plain GString),
      part g_ImagePullPolicy (plain GString),
      part g_Resources L,
      part g_ExistingSecret (plain GString),
      part g_VolumeClaimTemplate (pointer k_Lib L)]"

definition repr_AutheliaSpec :: "('x goblock, 'x) repr \<Rightarrow> ('x goblock, 'x gAutheliaSpec) repr" where
  "repr_AutheliaSpec L = struct
     [part g_Hostname (plain GString),
      part g_Deployment (repr_AutheliaDeploymentSpec L),
      part g_Settings (repr_AutheliaSettings L)]"

definition repr_AutheliaStatus :: "('x goblock, 'x) repr \<Rightarrow> ('x goblock, gAutheliaStatus) repr" where
  "repr_AutheliaStatus L = struct
     [part g_Conditions (slice_of k_Lib L),
      part g_ReadyReplicas (plain GInt),
      part g_OIDCClients (slice_of k_string (plain GString)),
      part g_AccessControlRules (slice_of k_string (plain GString))]"

definition repr_Authelia :: "('x goblock, 'x) repr \<Rightarrow> ('x goblock, 'x gAuthelia) repr" where
  "repr_Authelia L = struct
     [part g_TypeMeta (plain val_TypeMeta),
      part g_ObjectMeta L,
      part g_Spec (repr_AutheliaSpec L),
      part g_Status (repr_AutheliaStatus L)]"

definition repr_AutheliaList :: "('x goblock, 'x) repr \<Rightarrow> ('x goblock, 'x gAutheliaList) repr" where
  "repr_AutheliaList L = struct
     [part g_ListTypeMeta (plain val_TypeMeta),
      part g_ListMeta L,
      part g_Items (slice_of k_Authelia (repr_Authelia L))]"

definition repr_AutheliaOAuthClientSpec :: "('x goblock, gAutheliaOAuthClientSpec) repr" where
  "repr_AutheliaOAuthClientSpec = struct
     [part g_AutheliaRef (plain val_AutheliaReference),
      part g_ClientID (plain GString),
      part g_ClientName (plain GString),
      part g_Public (plain GBool),
      part g_AuthorizationPolicy (plain GString),
      part g_ConsentMode (plain GString),
      part g_ClaimsPolicy (plain GString),
      part g_Lifespan (plain GString),
      part g_RedirectURIs (slice_of k_string (plain GString)),
      part g_Scopes (slice_of k_string (plain GString)),
      part g_GrantTypes (slice_of k_string (plain GString)),
      part g_ResponseTypes (slice_of k_string (plain GString)),
      part g_TokenEndpointAuthMethod (plain GString),
      part g_UserinfoSignedResponseAlg (plain GString)]"

definition repr_AutheliaOAuthClientStatus :: "('x goblock, 'x) repr \<Rightarrow> ('x goblock, gAutheliaOAuthClientStatus) repr" where
  "repr_AutheliaOAuthClientStatus L = struct
     [part g_ClientConditions (slice_of k_Lib L),
      part g_SecretName (plain GString)]"

definition repr_AutheliaOAuthClient :: "('x goblock, 'x) repr \<Rightarrow> ('x goblock, 'x gAutheliaOAuthClient) repr" where
  "repr_AutheliaOAuthClient L = struct
     [part g_ClientTypeMeta (plain val_TypeMeta),
      part g_ClientObjectMeta L,
      part g_ClientSpec repr_AutheliaOAuthClientSpec,
      part g_ClientStatus (repr_AutheliaOAuthClientStatus L)]"

definition repr_AutheliaOAuthClientList :: "('x goblock, 'x) repr \<Rightarrow> ('x goblock, 'x gAutheliaOAuthClientList) repr" where
  "repr_AutheliaOAuthClientList L = struct
     [part g_ClientListTypeMeta (plain val_TypeMeta),
      part g_ClientListMeta L,
      part g_ClientItems (slice_of k_AutheliaOAuthClient (repr_AutheliaOAuthClient L))]"

section \<open>Every method is a deep copy\<close>

locale copying_library =
  fixes lib :: "'x apimachinery" and L :: "('x goblock, 'x) repr"
  assumes copier_lib [copier_intros]:
    "deep_copier L (ObjectMeta_DeepCopyInto lib)" "deep_copier L (ListMeta_DeepCopyInto lib)"
    "deep_copier L (ResourceRequirements_DeepCopyInto lib)"
    "deep_copier L (PersistentVolumeClaimSpec_DeepCopyInto lib)"
    "deep_copier L (RawExtension_DeepCopyInto lib)" "deep_copier L (Condition_DeepCopyInto lib)"

lemmas copier_pointers [copier_intros] =
  blk_int32.copier_pointer blk_Lib.copier_pointer blk_SecretKeyRef.copier_pointer

lemmas copier_slices [copier_intros] =
  blk_string.copier_strings blk_Lib.copier_each blk_AutheliaSecret.copier_each
  blk_Authelia.copier_each blk_AutheliaOAuthClient.copier_each

lemma copier_AutheliaSecret [copier_intros]:
  "deep_copier repr_AutheliaSecret AutheliaSecret_DeepCopyInto"
  unfolding repr_AutheliaSecret_def AutheliaSecret_DeepCopyInto_def [abs_def]
  by (rule copier_fields[where Ps = "[part g_EnvName (plain GString)]" and
      Rs = "[part g_Secret (pointer k_SecretKeyRef (plain val_SecretKeyRef))]"])
    (auto intro!: copies_fieldI copier_intros repr_intros)

lemma copier_AutheliaOAuthClientSpec [copier_intros]:
  "deep_copier repr_AutheliaOAuthClientSpec AutheliaOAuthClientSpec_DeepCopyInto"
  unfolding repr_AutheliaOAuthClientSpec_def AutheliaOAuthClientSpec_DeepCopyInto_def [abs_def]
  by (rule copier_fields[where Ps = "[part g_ClientID (plain GString), part g_ClientName (plain GString), part g_Public (plain GBool), part g_AuthorizationPolicy (plain GString), part g_ConsentMode (plain GString), part g_ClaimsPolicy (plain GString), part g_Lifespan (plain GString), part g_TokenEndpointAuthMethod (plain GString), part g_UserinfoSignedResponseAlg (plain GString)]" and
      Rs = "[part g_AutheliaRef (plain val_AutheliaReference), part g_RedirectURIs (slice_of k_string (plain GString)), part g_Scopes (slice_of k_string (plain GString)), part g_GrantTypes (slice_of k_string (plain GString)), part g_ResponseTypes (slice_of k_string (plain GString))]"])
    (auto intro!: copies_fieldI copier_intros repr_intros)

context copying_library
begin

lemma copier_AutheliaSettings [copier_intros]:
  "deep_copier (repr_AutheliaSettings L) (AutheliaSettings_DeepCopyInto lib)"
  unfolding repr_AutheliaSettings_def AutheliaSettings_DeepCopyInto_def [abs_def]
  by (rule copier_fields[where Ps = "[]" and
      Rs = "[part g_AdditionalConfig (pointer k_Lib L), part g_FileUsersSecret (pointer k_SecretKeyRef (plain val_SecretKeyRef)), part g_Secrets (slice_of k_AutheliaSecret repr_AutheliaSecret)]"])
    (auto intro!: copies_fieldI copier_intros repr_intros)

lemma copier_AutheliaDeploymentSpec [copier_intros]:
  "deep_copier (repr_AutheliaDeploymentSpec L) (AutheliaDeploymentSpec_DeepCopyInto lib)"
  unfolding repr_AutheliaDeploymentSpec_def AutheliaDeploymentSpec_DeepCopyInto_def [abs_def]
  by (rule copier_fields[where Ps = "[part g_Image (plain GString), part g_ImagePullPolicy (plain GString), part g_ExistingSecret (plain GString)]" and
      Rs = "[part g_Replicas (pointer k_int32 (plain GInt)), part g_Resources (L), part g_VolumeClaimTemplate (pointer k_Lib L)]"])
    (auto intro!: copies_fieldI copier_intros repr_intros)

lemma copier_AutheliaSpec [copier_intros]:
  "deep_copier (repr_AutheliaSpec L) (AutheliaSpec_DeepCopyInto lib)"
  unfolding repr_AutheliaSpec_def AutheliaSpec_DeepCopyInto_def [abs_def]
  by (rule copier_fields[where Ps = "[part g_Hostname (plain GString)]" and
      Rs = "[part g_Deployment (repr_AutheliaDeploymentSpec L), part g_Settings (repr_AutheliaSettings L)]"])
    (auto intro!: copies_fieldI copier_intros repr_intros)

lemma copier_AutheliaStatus [copier_intros]:
  "deep_copier (repr_AutheliaStatus L) (AutheliaStatus_DeepCopyInto lib)"
  unfolding repr_AutheliaStatus_def AutheliaStatus_DeepCopyInto_def [abs_def]
  by (rule copier_fields[where Ps = "[part g_ReadyReplicas (plain GInt)]" and
      Rs = "[part g_Conditions (slice_of k_Lib L), part g_OIDCClients (slice_of k_string (plain GString)), part g_AccessControlRules (slice_of k_string (plain GString))]"])
    (auto intro!: copies_fieldI copier_intros repr_intros)

lemma copier_Authelia [copier_intros]:
  "deep_copier (repr_Authelia L) (Authelia_DeepCopyInto lib)"
  unfolding repr_Authelia_def Authelia_DeepCopyInto_def [abs_def]
  by (rule copier_fields[where Ps = "[]" and
      Rs = "[part g_TypeMeta (plain val_TypeMeta), part g_ObjectMeta (L), part g_Spec (repr_AutheliaSpec L), part g_Status (repr_AutheliaStatus L)]"])
    (auto intro!: copies_fieldI copier_intros repr_intros)

lemma copier_AutheliaList [copier_intros]:
  "deep_copier (repr_AutheliaList L) (AutheliaList_DeepCopyInto lib)"
  unfolding repr_AutheliaList_def AutheliaList_DeepCopyInto_def [abs_def]
  by (rule copier_fields[where Ps = "[]" and
      Rs = "[part g_ListTypeMeta (plain val_TypeMeta), part g_ListMeta (L), part g_Items (slice_of k_Authelia (repr_Authelia L))]"])
    (auto intro!: copies_fieldI copier_intros repr_intros)

lemma copier_AutheliaOAuthClientStatus [copier_intros]:
  "deep_copier (repr_AutheliaOAuthClientStatus L) (AutheliaOAuthClientStatus_DeepCopyInto lib)"
  unfolding repr_AutheliaOAuthClientStatus_def AutheliaOAuthClientStatus_DeepCopyInto_def [abs_def]
  by (rule copier_fields[where Ps = "[part g_SecretName (plain GString)]" and
      Rs = "[part g_ClientConditions (slice_of k_Lib L)]"])
    (auto intro!: copies_fieldI copier_intros repr_intros)

lemma copier_AutheliaOAuthClient [copier_intros]:
  "deep_copier (repr_AutheliaOAuthClient L) (AutheliaOAuthClient_DeepCopyInto lib)"
  unfolding repr_AutheliaOAuthClient_def AutheliaOAuthClient_DeepCopyInto_def [abs_def]
  by (rule copier_fields[where Ps = "[]" and
      Rs = "[part g_ClientTypeMeta (plain val_TypeMeta), part g_ClientObjectMeta (L), part g_ClientSpec (repr_AutheliaOAuthClientSpec), part g_ClientStatus (repr_AutheliaOAuthClientStatus L)]"])
    (auto intro!: copies_fieldI copier_intros repr_intros)

lemma copier_AutheliaOAuthClientList [copier_intros]:
  "deep_copier (repr_AutheliaOAuthClientList L) (AutheliaOAuthClientList_DeepCopyInto lib)"
  unfolding repr_AutheliaOAuthClientList_def AutheliaOAuthClientList_DeepCopyInto_def [abs_def]
  by (rule copier_fields[where Ps = "[]" and
      Rs = "[part g_ClientListTypeMeta (plain val_TypeMeta), part g_ClientListMeta (L), part g_ClientItems (slice_of k_AutheliaOAuthClient (repr_AutheliaOAuthClient L))]"])
    (auto intro!: copies_fieldI copier_intros repr_intros)

end

lemma copier_values [copier_intros]:
  "deep_copier (plain val_SecretKeyRef) SecretKeyRef_DeepCopyInto"
  "deep_copier (plain val_AutheliaReference) AutheliaReference_DeepCopyInto"
  using copier_plain by (simp_all add: SecretKeyRef_DeepCopyInto_def[abs_def]
      AutheliaReference_DeepCopyInto_def[abs_def] returnH_def[abs_def])

lemmas DeepCopy_defs = SecretKeyRef_DeepCopy_def AutheliaReference_DeepCopy_def AutheliaSecret_DeepCopy_def
  AutheliaSettings_DeepCopy_def AutheliaDeploymentSpec_DeepCopy_def AutheliaSpec_DeepCopy_def
  AutheliaStatus_DeepCopy_def Authelia_DeepCopy_def AutheliaList_DeepCopy_def
  AutheliaOAuthClientSpec_DeepCopy_def AutheliaOAuthClientStatus_DeepCopy_def
  AutheliaOAuthClient_DeepCopy_def AutheliaOAuthClientList_DeepCopy_def

lemmas copier_roots = blk_AutheliaReference.copier_pointer blk_AutheliaSecret.copier_pointer
  blk_AutheliaSettings.copier_pointer blk_AutheliaDeploymentSpec.copier_pointer
  blk_AutheliaSpec.copier_pointer blk_AutheliaStatus.copier_pointer blk_Authelia.copier_pointer
  blk_AutheliaList.copier_pointer blk_AutheliaOAuthClientSpec.copier_pointer
  blk_AutheliaOAuthClientStatus.copier_pointer blk_AutheliaOAuthClient.copier_pointer
  blk_AutheliaOAuthClientList.copier_pointer

context copying_library
begin

lemma DeepCopy_copies:
  "deep_copies (pointer k_SecretKeyRef (plain val_SecretKeyRef)) SecretKeyRef_DeepCopy"
  "deep_copies (pointer k_AutheliaReference (plain val_AutheliaReference)) AutheliaReference_DeepCopy"
  "deep_copies (pointer k_AutheliaSecret repr_AutheliaSecret) AutheliaSecret_DeepCopy"
  "deep_copies (pointer k_AutheliaSettings (repr_AutheliaSettings L)) (AutheliaSettings_DeepCopy lib)"
  "deep_copies (pointer k_AutheliaDeploymentSpec (repr_AutheliaDeploymentSpec L))
     (AutheliaDeploymentSpec_DeepCopy lib)"
  "deep_copies (pointer k_AutheliaSpec (repr_AutheliaSpec L)) (AutheliaSpec_DeepCopy lib)"
  "deep_copies (pointer k_AutheliaStatus (repr_AutheliaStatus L)) (AutheliaStatus_DeepCopy lib)"
  "deep_copies (pointer k_Authelia (repr_Authelia L)) (Authelia_DeepCopy lib)"
  "deep_copies (pointer k_AutheliaList (repr_AutheliaList L)) (AutheliaList_DeepCopy lib)"
  "deep_copies (pointer k_AutheliaOAuthClientSpec repr_AutheliaOAuthClientSpec)
     AutheliaOAuthClientSpec_DeepCopy"
  "deep_copies (pointer k_AutheliaOAuthClientStatus (repr_AutheliaOAuthClientStatus L))
     (AutheliaOAuthClientStatus_DeepCopy lib)"
  "deep_copies (pointer k_AutheliaOAuthClient (repr_AutheliaOAuthClient L))
     (AutheliaOAuthClient_DeepCopy lib)"
  "deep_copies (pointer k_AutheliaOAuthClientList (repr_AutheliaOAuthClientList L))
     (AutheliaOAuthClientList_DeepCopy lib)"
  unfolding DeepCopy_defs
  by (intro deep_copier.deep_copies copier_roots copier_intros)+

end

interpretation secret_copy: deep_copier repr_AutheliaSecret AutheliaSecret_DeepCopyInto
  by (rule copier_AutheliaSecret)

interpretation client_spec_copy: deep_copier repr_AutheliaOAuthClientSpec AutheliaOAuthClientSpec_DeepCopyInto
  by (rule copier_AutheliaOAuthClientSpec)

sublocale copying_library \<subseteq> authelia_copy: deep_copier "repr_Authelia L" "Authelia_DeepCopyInto lib"
  by (rule copier_Authelia)

sublocale copying_library \<subseteq> client_copy: deep_copier "repr_AutheliaOAuthClient L"
    "AutheliaOAuthClient_DeepCopyInto lib"
  by (rule copier_AutheliaOAuthClient)

text \<open>
  What \<open>DeepCopyObject\<close> promises: the nil interface for nil, and otherwise an interface that
  holds the type's own dynamic type and a pointer to a new struct.
\<close>

definition object_copies :: "('b, ptr option) repr \<Rightarrow> dyntype \<Rightarrow> (ptr option \<Rightarrow> ('b, object) heap_act) \<Rightarrow>
    bool" where
  "object_copies R t cp \<longleftrightarrow>
     (\<forall>h. cp None h = Some (None, h)) \<and>
     (\<forall>h q v. view R h (Some q) = Some v \<longrightarrow>
        (\<exists>q' h'. cp (Some q) h = Some (Some (t, Some q'), h') \<and> view R h' (Some q') = Some v \<and>
           length h \<le> fst q'))"

lemma object_copiesI:
  assumes "deep_copier (pointer k R) cp" and "\<And>h. cp None h = Some (None, h)"
  shows "object_copies (pointer k R) t (\<lambda>p. bindH (cp p) (\<lambda>c. returnH (objectOf t c)))"
  unfolding object_copies_def
proof (intro conjI allI impI)
  fix h q v
  assume v: "view (pointer k R) h (Some q) = Some v"
  from deep_copier.copyE[OF assms(1) v] obtain p' h' where p': "cp (Some q) h = Some (p', h')"
    "view (pointer k R) h' p' = Some v" "foot (pointer k R) h' p' \<inter> {..<length h} = {}" .
  from v obtain u where "v = GRef u" by auto
  with p'(2) obtain q' where q': "p' = Some q'" by (cases p') auto
  moreover have "length h \<le> fst q'" using p'(2,3) q' by auto
  ultimately show "\<exists>q' h'. bindH (cp (Some q)) (\<lambda>c. returnH (objectOf t c)) h =
      Some (Some (t, Some q'), h') \<and> view (pointer k R) h' (Some q') = Some v \<and> length h \<le> fst q'"
    using p' by (simp add: act_defs objectOf_def)
qed (simp add: act_defs objectOf_def assms(2))

lemmas DeepCopyObject_defs = Authelia_DeepCopyObject_def AutheliaList_DeepCopyObject_def
  AutheliaOAuthClient_DeepCopyObject_def AutheliaOAuthClientList_DeepCopyObject_def

section \<open>An instance of the libraries' structs\<close>

text \<open>A struct of a string and a slice of strings, with the method a generator writes for it.\<close>

type_synonym libstruct = "string \<times> slice option"

definition repr_libstruct :: "(libstruct goblock, libstruct) repr" where
  "repr_libstruct =
     struct [part fst (plain GString), part snd (slice_of k_string (plain GString))]"

definition libstruct_DeepCopyInto :: "libstruct \<Rightarrow> (libstruct goblock, libstruct) heap_act" where
  "libstruct_DeepCopyInto inn =
     copyFields [copyField snd (\<lambda>y s. (fst s, y)) (copySlice k_string [])] inn inn"

definition sample_machinery :: "libstruct apimachinery" where
  "sample_machinery =
     \<lparr>lib_zero = ([], None), ObjectMeta_DeepCopyInto = libstruct_DeepCopyInto,
      ListMeta_DeepCopyInto = libstruct_DeepCopyInto,
      ResourceRequirements_DeepCopyInto = libstruct_DeepCopyInto,
      PersistentVolumeClaimSpec_DeepCopyInto = libstruct_DeepCopyInto,
      RawExtension_DeepCopyInto = libstruct_DeepCopyInto,
      Condition_DeepCopyInto = libstruct_DeepCopyInto\<rparr>"

lemma copier_libstruct: "deep_copier repr_libstruct libstruct_DeepCopyInto"
  unfolding repr_libstruct_def libstruct_DeepCopyInto_def[abs_def]
  by (rule copier_fields[where Ps = "[part fst (plain GString)]" and
      Rs = "[part snd (slice_of k_string (plain GString))]"])
    (auto intro!: copies_fieldI copier_intros repr_intros)

interpretation sample_copies: copying_library sample_machinery repr_libstruct
  by (rule copying_library.intro) (simp_all add: sample_machinery_def copier_libstruct)

text \<open>A status with one condition, whose struct has a slice of its own, and two client names.\<close>

definition sample_status :: gAutheliaStatus where
  "sample_status = \<lparr>g_Conditions = Some (1, 0, 1), g_ReadyReplicas = 1,
     g_OIDCClients = Some (2, 1, 2), g_AccessControlRules = None\<rparr>"

definition sample_heap :: "libstruct goblock list" where
  "sample_heap = [B_AutheliaStatus [sample_status], B_Lib [(''Ready'', Some (3, 0, 1))],
     B_String [''old'', ''grafana'', ''gitea''], B_String [''x'']]"

section \<open>Properties\<close>

text \<open>C13: For every type of the API group, \<open>DeepCopy\<close> on a well-formed structure succeeds and changes
  no existing memory; the copy shows the same tree as the original, whatever is later written
  to the original's memory, and the original shows the same tree whatever is later written to
  the copy's. So a controller may change what it copied without changing the shared cache.\<close>

theorem deepcopy_independent:
  assumes "copying_library lib L"
  shows "deep_copies (pointer k_Authelia (repr_Authelia L)) (Authelia_DeepCopy lib) \<and>
    deep_copies (pointer k_AutheliaList (repr_AutheliaList L)) (AutheliaList_DeepCopy lib) \<and>
    deep_copies (pointer k_AutheliaOAuthClient (repr_AutheliaOAuthClient L))
      (AutheliaOAuthClient_DeepCopy lib) \<and>
    deep_copies (pointer k_AutheliaOAuthClientList (repr_AutheliaOAuthClientList L))
      (AutheliaOAuthClientList_DeepCopy lib) \<and>
    deep_copies (pointer k_AutheliaSpec (repr_AutheliaSpec L)) (AutheliaSpec_DeepCopy lib) \<and>
    deep_copies (pointer k_AutheliaDeploymentSpec (repr_AutheliaDeploymentSpec L))
      (AutheliaDeploymentSpec_DeepCopy lib) \<and>
    deep_copies (pointer k_AutheliaSettings (repr_AutheliaSettings L)) (AutheliaSettings_DeepCopy lib) \<and>
    deep_copies (pointer k_AutheliaStatus (repr_AutheliaStatus L)) (AutheliaStatus_DeepCopy lib) \<and>
    deep_copies (pointer k_AutheliaSecret repr_AutheliaSecret) AutheliaSecret_DeepCopy \<and>
    deep_copies (pointer k_AutheliaOAuthClientSpec repr_AutheliaOAuthClientSpec)
      AutheliaOAuthClientSpec_DeepCopy \<and>
    deep_copies (pointer k_AutheliaOAuthClientStatus (repr_AutheliaOAuthClientStatus L))
      (AutheliaOAuthClientStatus_DeepCopy lib) \<and>
    deep_copies (pointer k_SecretKeyRef (plain val_SecretKeyRef)) SecretKeyRef_DeepCopy \<and>
    deep_copies (pointer k_AutheliaReference (plain val_AutheliaReference)) AutheliaReference_DeepCopy"
  using copying_library.DeepCopy_copies[OF assms] by blast

theorem deepcopy_independent_witness:
  "deep_copies (pointer k_AutheliaStatus (repr_AutheliaStatus repr_libstruct))
     (AutheliaStatus_DeepCopy sample_machinery) \<and>
   view (pointer k_AutheliaStatus (repr_AutheliaStatus repr_libstruct)) sample_heap (Some (0, 0)) =
     Some (GRef (GStruct
       [GSlice [GStruct [GString ''Ready'', GSlice [GString ''x'']]], GInt 1,
        GSlice [GString ''grafana'', GString ''gitea''], GNil])) \<and>
   AutheliaStatus_DeepCopy sample_machinery (Some (0, 0)) sample_heap =
     Some (Some (4, 0), sample_heap @
       [B_AutheliaStatus [sample_status\<lparr>g_Conditions := Some (5, 0, 1), g_OIDCClients := Some (7, 0, 2)\<rparr>],
        B_Lib [(''Ready'', Some (6, 0, 1))], B_String [''x''], B_String [''grafana'', ''gitea'']])"
proof (intro conjI)
  show "deep_copies (pointer k_AutheliaStatus (repr_AutheliaStatus repr_libstruct))
     (AutheliaStatus_DeepCopy sample_machinery)"
    using deepcopy_independent[OF sample_copies.copying_library_axioms] by blast
qed code_simp+

text \<open>\<open>DeepCopyObject\<close> of nil is the nil interface, never an interface that holds a nil pointer; of
  a well-formed object it is an interface whose dynamic type is the object's own type and
  whose pointer is new and shows the same tree. This holds for all four registered types.\<close>

theorem deepcopyobject_typed:
  assumes "copying_library lib L"
  shows "object_copies (pointer k_Authelia (repr_Authelia L)) DynAuthelia (Authelia_DeepCopyObject lib) \<and>
    object_copies (pointer k_AutheliaList (repr_AutheliaList L)) DynAutheliaList
      (AutheliaList_DeepCopyObject lib) \<and>
    object_copies (pointer k_AutheliaOAuthClient (repr_AutheliaOAuthClient L)) DynAutheliaOAuthClient
      (AutheliaOAuthClient_DeepCopyObject lib) \<and>
    object_copies (pointer k_AutheliaOAuthClientList (repr_AutheliaOAuthClientList L))
      DynAutheliaOAuthClientList (AutheliaOAuthClientList_DeepCopyObject lib)"
  unfolding DeepCopyObject_defs[abs_def] DeepCopy_defs
  using copying_library.copier_Authelia[OF assms] copying_library.copier_AutheliaList[OF assms]
    copying_library.copier_AutheliaOAuthClient[OF assms]
    copying_library.copier_AutheliaOAuthClientList[OF assms]
  by (intro conjI object_copiesI copier_roots) (simp_all add: copyPtr_def returnH_def)

theorem deepcopyobject_typed_witness:
  "object_copies (pointer k_Authelia (repr_Authelia repr_libstruct)) DynAuthelia
     (Authelia_DeepCopyObject sample_machinery) \<and>
   Authelia_DeepCopyObject sample_machinery None sample_heap = Some (None, sample_heap)"
proof (intro conjI)
  show "object_copies (pointer k_Authelia (repr_Authelia repr_libstruct)) DynAuthelia
      (Authelia_DeepCopyObject sample_machinery)"
    using deepcopyobject_typed[OF sample_copies.copying_library_axioms] by blast
qed code_simp

end
