(* ===== verification/TestUtils.thy ===== *)
theory TestUtils
  imports GoStrings
begin

text \<open>
  \<open>test/utils/utils.go\<close>: the helpers of the end-to-end tests.

  The operating system and the programs the helpers start are not part of the repository:
  \<open>'w os\<close> is the record of the calls the helpers make, over an abstract world \<open>'w\<close>, and every
  helper that has effects takes it as an argument. A Go function with a value and an error
  returns both, \<open>error\<close> being an option. Output on the test log is left out, and so is the
  quoting of \<open>%q\<close>: an error keeps the values it was built from.

  The lemmas show what the text functions do: lines are found without loss, and \<open>UncommentCode\<close>
  undoes commenting, on the conditions under which \<open>bufio.Scanner\<close> returns lines unchanged.
\<close>

section \<open>The operating system\<close>

record exec_Cmd =
  Args :: "string list"
  Dir :: string
  Env :: "string list"

record 'w os =
  os_Getwd :: "'w \<Rightarrow> (string \<times> string option) \<times> 'w"
  os_Chdir :: "string \<Rightarrow> 'w \<Rightarrow> string option \<times> 'w"
  os_Environ :: "'w \<Rightarrow> string list"
  os_LookupEnv :: "string \<Rightarrow> 'w \<Rightarrow> string option"
  os_ReadFile :: "string \<Rightarrow> 'w \<Rightarrow> (string + string) \<times> 'w"
  os_WriteFile :: "string \<Rightarrow> string \<Rightarrow> 'w \<Rightarrow> string option \<times> 'w"
  CombinedOutput :: "exec_Cmd \<Rightarrow> 'w \<Rightarrow> (string \<times> string option) \<times> 'w"

datatype util_error =
    GetwdFailed string
  | CommandFailed string string string
  | ReadFailed string string
  | TargetNotFound string
  | WriteFailed string string

definition exec_Command :: "string \<Rightarrow> string list \<Rightarrow> exec_Cmd" where
  "exec_Command name args = \<lparr>Args = name # args, Dir = [], Env = []\<rparr>"

section \<open>Text functions of the Go library\<close>

abbreviation newline :: char where
  "newline \<equiv> CHR 10"

abbreviation carriage_return :: char where
  "carriage_return \<equiv> CHR 13"

text \<open>\<open>strings.Index\<close>: \<open>None\<close> stands for -1.\<close>

fun Index :: "string \<Rightarrow> string \<Rightarrow> nat option" where
  "Index [] t = (if t = [] then Some 0 else None)"
| "Index (c # s) t = (if HasPrefix (c # s) t then Some 0 else map_option Suc (Index s t))"

definition Contains :: "string \<Rightarrow> string \<Rightarrow> bool" where
  "Contains s t \<longleftrightarrow> Index s t \<noteq> None"

definition TrimPrefix :: "string \<Rightarrow> string \<Rightarrow> string" where
  "TrimPrefix s p = (if HasPrefix s p then drop (length p) s else s)"

text \<open>\<open>strings.Join\<close>, and \<open>strings.Split\<close> at line feeds.\<close>

fun Join :: "string list \<Rightarrow> string \<Rightarrow> string" where
  "Join [] sep = []"
| "Join [x] sep = x"
| "Join (x # y # xs) sep = x @ sep @ Join (y # xs) sep"

fun split_lines :: "string \<Rightarrow> string list" where
  "split_lines [] = [[]]"
| "split_lines (c # s) =
     (if c = newline then [] # split_lines s
      else case split_lines s of [] \<Rightarrow> [[c]] | l # ls \<Rightarrow> (c # l) # ls)"

text \<open>\<open>strings.ReplaceAll(s, old, "")\<close> for a non-empty \<open>old\<close>.\<close>

function RemoveAll :: "string \<Rightarrow> string \<Rightarrow> string" where
  "RemoveAll old [] = []"
| "RemoveAll old (c # s) =
     (if old \<noteq> [] \<and> HasPrefix (c # s) old then RemoveAll old (drop (length old) (c # s))
      else c # RemoveAll old s)"
  by pat_completeness auto

termination
  by (relation "measure (\<lambda>(old, s). length s)") (auto simp: neq_Nil_conv)

text \<open>
  The tokens of a \<open>bufio.Scanner\<close> with its default settings: lines without their line feed and
  without a carriage return before it; a text that ends in a line feed has no further line;
  a line of 65536 bytes or more does not fit the buffer and ends the scan.
\<close>

definition MaxScanTokenSize :: nat where
  "MaxScanTokenSize = 65536"

definition drop_cr :: "string \<Rightarrow> string" where
  "drop_cr l = (if l \<noteq> [] \<and> last l = carriage_return then butlast l else l)"

function scan_lines :: "string \<Rightarrow> string list" where
  "scan_lines s =
     (if s = [] then []
      else
        (let line = takeWhile (\<lambda>c. c \<noteq> newline) s; rest = dropWhile (\<lambda>c. c \<noteq> newline) s in
         if MaxScanTokenSize \<le> length line then []
         else drop_cr line # scan_lines (tl rest)))"
  by pat_completeness auto

termination
proof (relation "measure length")
  fix s :: string and line rest
  assume "s \<noteq> []" and "rest = dropWhile (\<lambda>c. c \<noteq> newline) s"
  moreover have "length (dropWhile (\<lambda>c. c \<noteq> newline) s) \<le> length s" by (rule length_dropWhile_le)
  ultimately show "(tl rest, s) \<in> measure length" by (cases s) auto
qed simp

declare scan_lines.simps [simp del]

section \<open>The helpers\<close>

definition certmanagerVersion :: string where
  "certmanagerVersion = ''v1.20.2''"

text \<open>\<open>fmt.Sprintf(certmanagerURLTmpl, certmanagerVersion)\<close>.\<close>

definition certmanagerURL :: string where
  "certmanagerURL =
     ''https://github.com/cert-manager/cert-manager/releases/download/'' @ certmanagerVersion @ ''/cert-manager.yaml''"

definition GetProjectDir :: "'w os \<Rightarrow> 'w \<Rightarrow> (string \<times> util_error option) \<times> 'w" where
  "GetProjectDir os w =
     (case os_Getwd os w of
        ((wd, Some err), w') \<Rightarrow> ((wd, Some (GetwdFailed err)), w')
      | ((wd, None), w') \<Rightarrow> ((RemoveAll ''/test/e2e'' wd, None), w'))"

definition Run :: "'w os \<Rightarrow> exec_Cmd \<Rightarrow> 'w \<Rightarrow> (string \<times> util_error option) \<times> 'w" where
  "Run os cmd w =
     (let ((dir, _), w1) = GetProjectDir os w;
          (_, w2) = os_Chdir os dir w1;
          cmd1 = cmd\<lparr>Dir := dir, Env := os_Environ os w2 @ [''GO111MODULE=on'']\<rparr>;
          ((output, err), w3) = CombinedOutput os cmd1 w2
      in (case err of
            Some e \<Rightarrow> ((output, Some (CommandFailed (Join (Args cmd) '' '') output e)), w3)
          | None \<Rightarrow> ((output, None), w3)))"

text \<open>The loop over the leases, errors being only reported.\<close>

fun deleteLeases :: "'w os \<Rightarrow> string list \<Rightarrow> 'w \<Rightarrow> 'w" where
  "deleteLeases os [] w = w"
| "deleteLeases os (lease # leases) w =
     deleteLeases os leases (snd (Run os (exec_Command ''kubectl'' [''delete'', ''lease'', lease, ''-n'', ''kube-system'',
       ''--ignore-not-found'', ''--force'', ''--grace-period=0'']) w))"

definition UninstallCertManager :: "'w os \<Rightarrow> 'w \<Rightarrow> 'w" where
  "UninstallCertManager os w =
     deleteLeases os [''cert-manager-cainjector-leader-election'', ''cert-manager-controller'']
       (snd (Run os (exec_Command ''kubectl'' [''delete'', ''-f'', certmanagerURL]) w))"

definition InstallCertManager :: "'w os \<Rightarrow> 'w \<Rightarrow> util_error option \<times> 'w" where
  "InstallCertManager os w =
     (case Run os (exec_Command ''kubectl'' [''apply'', ''-f'', certmanagerURL]) w of
        ((_, Some err), w') \<Rightarrow> (Some err, w')
      | ((_, None), w') \<Rightarrow>
          (let ((_, err), w'') = Run os (exec_Command ''kubectl'' [''wait'', ''deployment.apps/cert-manager-webhook'',
                 ''--for'', ''condition=Available'', ''--namespace'', ''cert-manager'', ''--timeout'', ''5m'']) w'
           in (err, w'')))"

definition GetNonEmptyLines :: "string \<Rightarrow> string list" where
  "GetNonEmptyLines output = filter (\<lambda>l. l \<noteq> []) (split_lines output)"

definition certManagerCRDs :: "string list" where
  "certManagerCRDs = [''certificates.cert-manager.io'', ''issuers.cert-manager.io'',
     ''clusterissuers.cert-manager.io'', ''certificaterequests.cert-manager.io'',
     ''orders.acme.cert-manager.io'', ''challenges.acme.cert-manager.io'']"

definition IsCertManagerCRDsInstalled :: "'w os \<Rightarrow> 'w \<Rightarrow> bool \<times> 'w" where
  "IsCertManagerCRDsInstalled os w =
     (case Run os (exec_Command ''kubectl'' [''get'', ''crds'']) w of
        ((_, Some err), w') \<Rightarrow> (False, w')
      | ((output, None), w') \<Rightarrow>
          (list_ex (\<lambda>crd. list_ex (\<lambda>line. Contains line crd) (GetNonEmptyLines output)) certManagerCRDs, w'))"

definition LoadImageToKindClusterWithName :: "'w os \<Rightarrow> string \<Rightarrow> 'w \<Rightarrow> util_error option \<times> 'w" where
  "LoadImageToKindClusterWithName os name w =
     (let cluster = (case os_LookupEnv os ''KIND_CLUSTER'' w of Some v \<Rightarrow> v | None \<Rightarrow> ''kind'');
          kindBinary = (case os_LookupEnv os ''KIND'' w of Some v \<Rightarrow> v | None \<Rightarrow> ''kind'');
          ((_, err), w') = Run os (exec_Command kindBinary [''load'', ''docker-image'', name, ''--name'', cluster]) w
      in (err, w'))"

text \<open>The loop of \<open>UncommentCode\<close>; writing to a \<open>bytes.Buffer\<close> does not fail.\<close>

fun uncommentLoop :: "string \<Rightarrow> string \<Rightarrow> string list \<Rightarrow> string \<Rightarrow> string" where
  "uncommentLoop p text [] out = out @ TrimPrefix text p"
| "uncommentLoop p text (nxt # rest) out =
     uncommentLoop p nxt rest (out @ TrimPrefix text p @ [newline])"

definition UncommentCode :: "'w os \<Rightarrow> string \<Rightarrow> string \<Rightarrow> string \<Rightarrow> 'w \<Rightarrow> util_error option \<times> 'w" where
  "UncommentCode os filename target p w =
     (case os_ReadFile os filename w of
        (Inl err, w') \<Rightarrow> (Some (ReadFailed filename err), w')
      | (Inr content, w') \<Rightarrow>
          (case Index content target of
             None \<Rightarrow> (Some (TargetNotFound target), w')
           | Some idx \<Rightarrow>
               (case scan_lines target of
                  [] \<Rightarrow> (None, w')
                | text # rest \<Rightarrow>
                    (let out = uncommentLoop p text rest (take idx content) @
                               drop (idx + length target) content
                     in case os_WriteFile os filename out w' of
                          (Some err, w'') \<Rightarrow> (Some (WriteFailed filename err), w'')
                        | (None, w'') \<Rightarrow> (None, w'')))))"

section \<open>Searching\<close>

lemma Contains_sublist: "Contains s t \<longleftrightarrow> sublist t s"
  by (induction s t rule: Index.induct) (auto simp: Contains_def go_string_simps sublist_Cons_right)

lemma Index_Some:
  assumes "Index s t = Some i"
  shows "s = take i s @ t @ drop (i + length t) s" and "j < i \<Longrightarrow> \<not> prefix t (drop j s)"
proof -
  have "s = take i s @ t @ drop (i + length t) s \<and> (\<forall>j < i. \<not> prefix t (drop j s))"
    using assms
  proof (induction s t arbitrary: i rule: Index.induct)
    case (2 c s t)
    show ?case
    proof (cases "prefix t (c # s)")
      case True
      with 2(2) show ?thesis by (auto simp: go_string_simps prefix_def)
    next
      case False
      with 2(2) obtain k where k: "Index s t = Some k" "i = Suc k" by (auto simp: go_string_simps)
      with 2(1)[of k] False show ?thesis by (auto simp: go_string_simps less_Suc_eq_0_disj)
    qed
  qed (auto split: if_splits)
  then show "s = take i s @ t @ drop (i + length t) s" and "j < i \<Longrightarrow> \<not> prefix t (drop j s)" by blast+
qed

section \<open>Lines\<close>

lemma split_lines_nonempty [simp]: "split_lines s \<noteq> []"
  by (cases s) (auto split: list.splits)

lemma split_lines_free: "l \<in> set (split_lines s) \<Longrightarrow> newline \<notin> set l"
  by (induction s arbitrary: l) (auto split: if_splits list.splits)

lemma Join_Cons: "xs \<noteq> [] \<Longrightarrow> Join (x # xs) sep = x @ sep @ Join xs sep"
  by (cases xs) auto

lemma Join_split: "Join (split_lines s) [newline] = s"
proof (induction s)
  case (Cons c s)
  obtain l ls where "split_lines s = l # ls" by (cases "split_lines s") auto
  with Cons show ?case by (cases ls) (auto simp: Join_Cons)
qed simp

lemma prefix_hd_line:
  "newline \<notin> set t \<Longrightarrow> prefix t (hd (split_lines s)) \<longleftrightarrow> prefix t s"
proof (induction s arbitrary: t)
  case (Cons c s)
  obtain l ls where l: "split_lines s = l # ls" by (cases "split_lines s") auto
  show ?case
  proof (cases t)
    case (Cons d u)
    with Cons.prems Cons.IH[of u] l show ?thesis by auto
  qed simp
qed simp

lemma sublist_in_line:
  assumes "newline \<notin> set t" and "t \<noteq> []"
  shows "(\<exists>l \<in> set (split_lines s). sublist t l) \<longleftrightarrow> sublist t s"
proof (induction s)
  case (Cons c s)
  obtain l ls where l: "split_lines s = l # ls" by (cases "split_lines s") auto
  show ?case
  proof (cases "c = newline")
    case True
    with Cons assms show ?thesis by (cases t) (auto simp: sublist_Cons_right)
  next
    case False
    then have "prefix t (c # l) \<longleftrightarrow> prefix t (c # s)"
      using prefix_hd_line[OF assms(1), of "c # s"] l by simp
    with False Cons l show ?thesis by (auto simp: sublist_Cons_right)
  qed
qed (use assms in simp)

text \<open>Splitting the output into lines does not change what is found: the cert-manager test looks
  for the names of the resources anywhere in the output.\<close>

theorem certmanager_search:
  assumes "Run os (exec_Command ''kubectl'' [''get'', ''crds'']) w = ((output, None), w')"
  shows "IsCertManagerCRDsInstalled os w = (\<exists>crd \<in> set certManagerCRDs. sublist crd output, w')"
proof -
  have names: "newline \<notin> set crd \<and> crd \<noteq> []" if "crd \<in> set certManagerCRDs" for crd
    using that by (auto simp: certManagerCRDs_def)
  have "(\<exists>l \<in> set (GetNonEmptyLines output). sublist crd l) \<longleftrightarrow> sublist crd output"
    if "crd \<in> set certManagerCRDs" for crd
    using sublist_in_line[of crd "output"] names[OF that] by (fastforce simp: GetNonEmptyLines_def)
  then show ?thesis
    by (simp add: IsCertManagerCRDsInstalled_def assms list_ex_iff Contains_sublist)
qed

section \<open>Uncommenting\<close>

text \<open>A line that the scanner returns as it is.\<close>

definition plain_line :: "string \<Rightarrow> bool" where
  "plain_line l \<longleftrightarrow> newline \<notin> set l \<and> length l < MaxScanTokenSize \<and> (l \<noteq> [] \<longrightarrow> last l \<noteq> carriage_return)"

lemma drop_cr_plain: "plain_line l \<Longrightarrow> drop_cr l = l"
  by (auto simp: plain_line_def drop_cr_def)

lemma scan_line:
  assumes "plain_line l"
  shows "scan_lines (l @ newline # s) = l # scan_lines s" and "l \<noteq> [] \<Longrightarrow> scan_lines l = [l]"
proof -
  have free: "\<And>c. c \<in> set l \<Longrightarrow> c \<noteq> newline" using assms by (auto simp: plain_line_def)
  have "takeWhile (\<lambda>c. c \<noteq> newline) (l @ newline # s) = l"
    "dropWhile (\<lambda>c. c \<noteq> newline) (l @ newline # s) = newline # s"
    by (simp_all add: takeWhile_append dropWhile_append free)
  then show "scan_lines (l @ newline # s) = l # scan_lines s"
    using assms by (subst scan_lines.simps) (simp add: drop_cr_plain, simp add: plain_line_def)
  have tw: "takeWhile (\<lambda>c. c \<noteq> newline) l = l" and dw: "dropWhile (\<lambda>c. c \<noteq> newline) l = []"
    by (simp_all add: free)
  have "\<not> MaxScanTokenSize \<le> length l" using assms by (simp add: plain_line_def)
  then show "scan_lines l = [l]" if "l \<noteq> []"
    using that scan_lines.simps[of l, unfolded tw dw] scan_lines.simps[of "[]"] drop_cr_plain[OF assms] by simp
qed

lemma scan_Join:
  "list_all plain_line ls \<Longrightarrow> ls \<noteq> [] \<Longrightarrow> last ls \<noteq> [] \<Longrightarrow> scan_lines (Join ls [newline]) = ls"
proof (induction ls)
  case (Cons l ls)
  then show ?case by (cases ls) (auto simp: scan_line)
qed simp

lemma uncommentLoop_Join:
  "uncommentLoop p l ls out = out @ Join (map (\<lambda>x. TrimPrefix x p) (l # ls)) [newline]"
  by (induction ls arbitrary: l out) auto

text \<open>A machine with one file, whose text is the world, on which no command runs.\<close>

definition sample_os :: "string os" where
  "sample_os =
     \<lparr>os_Getwd = (\<lambda>w. ((''/src/test/e2e'', None), w)), os_Chdir = (\<lambda>_ w. (None, w)), os_Environ = (\<lambda>_. []),
      os_LookupEnv = (\<lambda>_ _. None), os_ReadFile = (\<lambda>_ w. (Inr w, w)), os_WriteFile = (\<lambda>_ text _. (None, text)),
      CombinedOutput = (\<lambda>_ w. (([], Some ''exit status 1''), w))\<rparr>"

text \<open>C40: \<open>UncommentCode\<close> undoes commenting: a target made of plain lines, each with the prefix in
  front, is replaced at its first occurrence in the file by the lines themselves, the rest of
  the file is kept, and the only other outcome is the error of the write.\<close>

theorem uncomment_undoes_comment:
  assumes "os_ReadFile os filename w = (Inr content, w1)"
    and "target = Join (map (\<lambda>l. p @ l) ls) [newline]" and "Index content target = Some i"
    and "list_all (\<lambda>l. plain_line (p @ l)) ls" and "ls \<noteq> []" and "p \<noteq> []"
    and "os_WriteFile os filename (take i content @ Join ls [newline] @ drop (i + length target) content) w1 = (e, w2)"
  shows "UncommentCode os filename target p w = (map_option (WriteFailed filename) e, w2)"
proof -
  have "scan_lines target = map (\<lambda>l. p @ l) ls"
    unfolding assms(2) by (rule scan_Join) (use assms(4-6) in \<open>auto simp: list_all_iff last_map\<close>)
  moreover obtain l ls' where "ls = l # ls'" using assms(5) by (cases ls) auto
  moreover have "TrimPrefix (p @ x) p = x" for x by (simp add: TrimPrefix_def HasPrefix_def)
  ultimately show ?thesis
    using assms(1,3,7) by (simp add: UncommentCode_def uncommentLoop_Join comp_def split: option.split)
qed

theorem uncomment_undoes_comment_witness:
  "UncommentCode sample_os ''f'' ''//x'' ''//'' ''a //x b'' = (None, ''a x b'')"
proof -
  have read: "os_ReadFile sample_os ''f'' ''a //x b'' = (Inr ''a //x b'', ''a //x b'')"
    by (simp add: sample_os_def)
  have line: "''//x'' = Join (map (\<lambda>l. ''//'' @ l) [''x'']) [newline]" by simp
  have found: "Index ''a //x b'' ''//x'' = Some 2" by (simp add: HasPrefix_def)
  have plain: "list_all (\<lambda>l. plain_line (''//'' @ l)) [''x'']"
    by (simp add: plain_line_def MaxScanTokenSize_def)
  have stored: "os_WriteFile sample_os ''f''
      (take 2 ''a //x b'' @ Join [''x''] [newline] @ drop (2 + length ''//x'') ''a //x b'') ''a //x b'' =
      (None, ''a x b'')" by (simp add: sample_os_def)
  show ?thesis using uncomment_undoes_comment[OF read line found plain _ _ stored] by simp
qed

text \<open>When the target ends in a line feed, that line feed is lost: the scanner does not report it,
  and the text after the target is appended to the last uncommented line.\<close>

theorem uncomment_joins_lines:
  assumes "os_ReadFile os filename w = (Inr content, w1)" and "target = p @ l @ [newline]"
    and "plain_line (p @ l)" and "p \<noteq> []" and "Index content target = Some i"
    and "os_WriteFile os filename (take i content @ l @ drop (i + length target) content) w1 = (e, w2)"
  shows "UncommentCode os filename target p w = (map_option (WriteFailed filename) e, w2)"
proof -
  have "scan_lines target = [p @ l]"
    using scan_line(1)[OF assms(3), of "[]"] by (simp add: assms(2) scan_lines.simps[of "[]"])
  then show ?thesis
    using assms(1,5,6) by (simp add: UncommentCode_def TrimPrefix_def HasPrefix_def split: option.split)
qed

end
