(* ===== verification/Spec2Isabelle.thy ===== *)
theory Spec2Isabelle
  imports EntryPoint Quiescence WriteOrder Progress DeepCopy TestUtils
begin

text \<open>
  A verification of heliop, the Kubernetes operator for the Authelia single sign-on portal.

  \<^bold>\<open>The program.\<close> The operator watches two custom resources. An \<open>Authelia\<close> resource describes an
  instance of the portal: host name, settings, secrets, deployment. An \<open>AutheliaOAuthClient\<close>
  resource describes one OIDC client and names the instance it belongs to. Two controllers run
  in one process and share nothing but the objects in the cluster.

  \<^item> The OAuth client controller keeps one Secret per client, with the client ID, a client secret
    that is generated once, and the PBKDF2 digest of that secret.
  \<^item> The Authelia controller collects the clients of an instance with their digests and the
    access rules that Ingresses declare in annotations, renders the configuration file, and
    writes core Secret, ConfigMap, Service, data claim, Deployment and status. The Deployment
    carries a checksum of the rendered text, so a new text starts a rollout.

  \<^bold>\<open>Theories and sources.\<close> Sources are named relative to \<open>src/\<close>. Definitions carry the names of
  the Go functions, types and fields; where one Go function is split, the theory says how.

  \<^item> \<open>Prelude\<close>: errors as values (\<open>error\<close>, \<open>result\<close>), actions with effects (\<open>act\<close>, \<open>bindA\<close>), sorting
    by a comparison function (locale \<open>less_order\<close>, \<open>stable_sort\<close> for \<open>sort.SliceStable\<close>).
  \<^item> \<open>GoMap\<close>, \<open>GoStrings\<close>, \<open>Json\<close>, \<open>GoCrypto\<close>: what the operator uses of Go's standard library: maps
    (locale \<open>string_map\<close>), UTF-8, hex, base64, PEM, \<open>json.Unmarshal\<close>, SHA-256, SHA-512, HMAC and
    PBKDF2, as functions that compute.
  \<^item> \<open>ApiTypes\<close>: \<open>api/v1alpha1/authelia_types.go\<close> and \<open>autheliaoauthclient_types.go\<close>, one record per
    struct, and the fields of the Kubernetes types that the operator reads or sets.
  \<^item> \<open>Ingress\<close>: \<open>internal/controller/ingress.go\<close>, from the annotations of an Ingress to sorted
    access rules.
  \<^item> \<open>Resources\<close>: \<open>internal/controller/resources.go\<close>, the desired objects.
  \<^item> \<open>Render\<close>: \<open>internal/controller/render.go\<close>, from settings, clients and rules to the tree that
    is marshalled.
  \<^item> \<open>Secrets\<close>: \<open>internal/controller/secrets.go\<close>, generated secrets and digests; the contract of
    a generator that fills what is missing is the locale \<open>fill_once\<close>.
  \<^item> \<open>KubeApi\<close>: the Kubernetes client as a record of calls (\<open>'w kube\<close>) over an abstract world, with
    the laws the controllers rely on in the locales \<open>kube_api\<close> and \<open>kube_fresh\<close>, and an in-memory
    server that satisfies both.
  \<^item> \<open>OAuthClientController\<close>: \<open>internal/controller/autheliaoauthclient_controller.go\<close>; \<open>oauthMutate\<close> is
    the closure given to \<open>CreateOrUpdate\<close>, \<open>ReconcileOAuthClient\<close> the method \<open>Reconcile\<close>.
  \<^item> \<open>AutheliaController\<close>: \<open>internal/controller/authelia_controller.go\<close>; the method \<open>Reconcile\<close> is
    \<open>ReconcileAuthelia\<close>, in three parts with \<open>reconcileBody\<close> and \<open>writeObjects\<close>.
  \<^item> \<open>Progress\<close>: total correctness of both reconcilers in a reliable cluster (locale \<open>kube_reliable\<close>),
    with the decision of the API server which objects it admits as a parameter.
  \<^item> \<open>EventRouting\<close>: the map functions and both methods \<open>SetupWithManager\<close>: which event leads to which
    request.
  \<^item> \<open>EntryPoint\<close>: \<open>cmd/main.go\<close> and the scheme of \<open>api/v1alpha1/groupversion_info.go\<close>: flags, server
    options, the order of the set-up calls, the exit status.
  \<^item> \<open>GoHeap\<close> and \<open>DeepCopy\<close>: \<open>api/v1alpha1/zz_generated.deepcopy.go\<close> on a heap of blocks, each method
    field by field.
  \<^item> \<open>Operator\<close>: both controllers on one cluster; \<open>operator_step\<close> is the step relation of the system,
    \<open>serve\<close> runs the reconcilers on a sequence of requests.
  \<^item> \<open>WriteOrder\<close>: the abstract specification of a run, a list of planned writes (\<open>planned_writes\<close>,
    \<open>client_plan\<close>) that are made in order, and of the operator, one plan per request.
  \<^item> \<open>Convergence\<close>: where runs get to: each controller at rest for its resource, and a client on its
    way into the configuration.
  \<^item> \<open>Quiescence\<close>: the whole operator at rest: \<open>at_rest\<close> holds after a round of successful runs, and
    in it no request changes an object.
  \<^item> \<open>TestUtils\<close>: \<open>test/utils/utils.go\<close>, the helpers of the end-to-end tests.

  \<^bold>\<open>State and interaction.\<close> The state of the system is the set of objects the API server holds
  (\<open>objects\<close>); the function \<open>live\<close> reads it off a world. Each call of a controller is a field of
  \<open>'w kube\<close>. In \<open>kube_api\<close> caches may be stale, calls may fail, with or without effect, and others
  may act at any moment; what remains is that a write has at most one atomic effect, computed by
  the controller's own mutate function from the object the server holds. Runs are therefore
  sequences of atomic writes, interleaved with steps of others, and what every write keeps holds
  for all runs. In \<open>kube_fresh\<close> nobody else acts and reads are current; this is where a run that
  reports success is shown to have established what it should. \<open>kube_reliable\<close> adds that calls do
  not fail without a reason: a write of an object that the server admits is carried out; this is
  where runs are shown to report success.

  \<^bold>\<open>What is shown.\<close>

  \<^item> Function: a successful run of either reconciler leaves the objects its resource calls for; a
    run succeeds when no call fails without a reason and the server admits the objects, unless the
    settings do not parse, a foreign controller owns an object, the marshaller fails or entropy runs
    out; a client that was reconciled is in the configuration after the next run of its instance,
    with the digest from its Secret; every declared rule is generated, generated rules come before
    static ones, most specific first; every configured secret reaches the container.
  \<^item> Safety under interference: generated values are not rotated, digests belong to the secrets
    beside them, objects of other controllers are not touched, the Deployment is not ahead of the
    ConfigMap, and settings that do not parse change nothing.
  \<^item> Refinement: a run of the Authelia controller refines its list of planned writes, each at most
    once, in one order, with one rendered text behind ConfigMap and Deployment; serving any
    requests in any order refines the concatenation of their plans.
  \<^item> Convergence: once every client and then every instance has been handled with success in a
    quiet cluster, no request changes an object any more, in whatever order requests are served
    and however they end. This needs distinct client IDs within an instance; two clients
    of one ID are rendered in an order that is not determined, which is shown too.
  \<^item> Errors: \<open>renderConfig\<close> is accounted for completely, including the run-time panic for the text
    \<open>null\<close>; the process stops at the first set-up call that fails.
  \<^item> Events: a change of an Ingress with rules, of a client, or of an object that a successful run has
    left (but not of the claim, which has no owner) leads to a request for each instance concerned; a change of a client's Secret does not.
  \<^item> Memory: a deep copy shows the same value as its source and shares no memory with it.
  \<^item> Randomness: all strings of a length are generated by equally many tapes, and generation ends exactly when
    the source of entropy yields enough bytes.

  \<^bold>\<open>Parameters.\<close> Code that is not in the repository is an argument of the definitions that use it:
  the Kubernetes client (\<open>'w kube\<close>); the API server's decision what it admits (\<open>admission\<close>);
  \<open>sort.Slice\<close>, \<open>yaml.Marshal\<close> and RSA key generation (\<open>golib\<close>, with the documented contract of the sort as the locale \<open>slice_sort\<close>); the deep-copy methods of the
  Kubernetes libraries (\<open>apimachinery\<close>, locale \<open>copying_library\<close>); the manager and the flags of
  linked libraries in \<open>EntryPoint\<close>; the operating system in \<open>TestUtils\<close>. Random bytes come from a
  tape that every action reads from its front, and whether FIPS mode is on is a Boolean. Each
  locale is interpreted on definitions that compute, and the theorems with such hypotheses are
  applied there to concrete inputs.

  \<^bold>\<open>Loops, fuel and numbers.\<close> Loops over lists are structural recursion. The JSON parser takes fuel:
  \<open>fuel_for\<close> is twice the length of the input plus two, and more fuel gives the same result
  (\<open>parse_value_fuel\<close>), so that a failed parse is an error of the text and never exhausted fuel;
  nesting is bounded by 10000 levels as in Go. Loops that cut a string are functions with a termination proof.
  Replica counts and ports are 32-bit words; hash functions work on 32-bit and 64-bit words, their
  constants computed from the roots of primes.

  \<^bold>\<open>Not modelled.\<close> Log output and the texts of wrapped errors beyond their kind, since nothing
  depends on them; markers for code generation (RBAC, validation), apart from the validation rule
  of the deployment section, which is a definition; fields of Kubernetes types that the operator
  neither reads nor sets, and with them the defaults the API server fills in there; the printer of
  \<open>sigs.k8s.io/yaml\<close>, which is outside the repository; contexts and cancellation, which show as a
  failing call.
\<close>

end
